(* ===== verification/Blog_Prelude.thy ===== *)
theory Blog_Prelude
  imports Main "HOL-Library.Multiset"
begin

text \<open>
  Shared vocabulary of the blog backend model: the identifier and time types of the
  persistence layer, the wire values a request carries and a response returns, and the
  generic facts on tables (lists of rows with key columns) that the component theories
  use. A database table is modelled as the list of its rows in insertion order; a key
  column is a selector \<open>'r \<Rightarrow> 'k\<close>, and a unique constraint on it is \<open>distinct (map key rows)\<close>.
\<close>

section \<open>Identifiers and time\<close>

type_synonym user_id = nat
type_synonym cat_id = nat
type_synonym news_id = nat \<comment> \<open>\<open>News.id\<close> is a UUID; only its equality matters\<close>
type_synonym comment_id = nat
type_synonym like_id = nat
type_synonym timestamp = nat

section \<open>Wire values\<close>

text \<open>
  \<open>val\<close> is one value of \<open>request.data\<close> (a parsed JSON body or a multipart form,
  whose uploads are files); \<open>data\<close> is the whole body, a dictionary from field names.
  \<open>json\<close> is what a response carries.
\<close>

datatype val = VNull | VBool bool | VInt int | VStr string | VFile string

type_synonym data = "string \<rightharpoonup> val"

datatype json = JNull | JBool bool | JInt int | JStr string
  | JList "json list" | JObj "(string \<times> json) list"

section \<open>Strings\<close>

text \<open>\<open>str.split(c)\<close>: the pieces between the separators \<open>c\<close>, empty pieces kept.\<close>

fun split_on :: "char \<Rightarrow> string \<Rightarrow> string list" where
  "split_on c [] = [[]]"
| "split_on c (x # xs) =
     (if x = c then [] # split_on c xs
      else case split_on c xs of
             w # ws \<Rightarrow> (x # w) # ws
           | [] \<Rightarrow> [[x]])"

section \<open>Tables\<close>

named_theorems table_simps "facts on tables used by the component proofs"

definition get_row :: "('r \<Rightarrow> 'k) \<Rightarrow> 'k \<Rightarrow> 'r list \<Rightarrow> 'r option" where
  "get_row key k rows = find (\<lambda>r. key r = k) rows"

definition count_rows :: "('r \<Rightarrow> bool) \<Rightarrow> 'r list \<Rightarrow> nat" where
  "count_rows P rows = length (filter P rows)"

lemma get_row_None_iff [table_simps]:
  "get_row key k rows = None \<longleftrightarrow> k \<notin> key ` set rows"
  by (auto simp: get_row_def find_None_iff)

lemma get_row_SomeD [table_simps]:
  "get_row key k rows = Some r \<Longrightarrow> r \<in> set rows \<and> key r = k"
  by (auto simp: get_row_def find_Some_iff nth_mem)

lemma get_row_unique [table_simps]:
  assumes "distinct (map key rows)"
  shows "get_row key k rows = Some r \<longleftrightarrow> r \<in> set rows \<and> key r = k"
proof
  assume "get_row key k rows = Some r"
  then show "r \<in> set rows \<and> key r = k" by (rule get_row_SomeD)
next
  assume r: "r \<in> set rows \<and> key r = k"
  then obtain r' where r': "get_row key k rows = Some r'"
    by (cases "get_row key k rows") (auto simp: get_row_None_iff)
  then have "r' \<in> set rows" "key r' = k" by (auto dest: get_row_SomeD)
  with r assms have "r' = r" by (metis inj_on_contraD distinct_map)
  with r' show "get_row key k rows = Some r" by simp
qed

lemma count_rows_append [table_simps]:
  "count_rows P (xs @ ys) = count_rows P xs + count_rows P ys"
  by (simp add: count_rows_def)

lemma count_rows_Cons [table_simps]:
  "count_rows P (x # xs) = (if P x then Suc (count_rows P xs) else count_rows P xs)"
  by (simp add: count_rows_def)

lemma count_rows_Nil [table_simps]: "count_rows P [] = 0"
  by (simp add: count_rows_def)

text \<open>Under a unique key, a key value occurs in at most one row.\<close>

lemma count_key_distinct [table_simps]:
  assumes "distinct (map key rows)"
  shows "count_rows (\<lambda>r. key r = k) rows = (if k \<in> key ` set rows then 1 else 0)"
  using assms
proof (induction rows)
  case Nil
  then show ?case by (simp add: count_rows_def)
next
  case (Cons r rows)
  then show ?case by (auto simp: count_rows_def filter_empty_conv)
qed

text \<open>Deleting the rows with one key value removes exactly that value from a unique key column.\<close>

lemma key_image_filter_neq [table_simps]:
  assumes "distinct (map key rows)"
  shows "key ` set (filter (\<lambda>r. key r \<noteq> k) rows) = key ` set rows - {k}"
  using assms by auto

lemma distinct_map_append_one [table_simps]:
  "distinct (map f (xs @ [x])) \<longleftrightarrow> distinct (map f xs) \<and> f x \<notin> f ` set xs"
  by auto

lemma distinct_map_map_same [table_simps]:
  assumes "\<And>x. f (g x) = f x"
  shows "distinct (map f (map g xs)) \<longleftrightarrow> distinct (map f xs)"
  using assms by (simp add: comp_def)

text \<open>Rows found and removed through a unique key.\<close>

lemma filter_key_member:
  assumes "distinct (map key xs)" and "x \<in> set xs"
  shows "filter (\<lambda>y. key y = key x) xs = [x]"
  using assms by (induction xs) (auto simp: filter_empty_conv image_iff)

lemma filter_key_absent:
  "k \<notin> key ` set xs \<Longrightarrow> filter (\<lambda>y. key y = k) xs = []"
  by (auto simp: filter_empty_conv)

lemma filter_key_neq_removeAll:
  assumes "distinct (map key xs)" and "x \<in> set xs"
  shows "filter (\<lambda>y. key y \<noteq> key x) xs = removeAll x xs"
  using assms
proof (induction xs)
  case Nil
  then show ?case by simp
next
  case (Cons y ys)
  show ?case
  proof (cases "y = x")
    case True
    with Cons.prems have keys: "\<forall>z \<in> set ys. key z \<noteq> key x" by (auto simp: image_iff)
    then have "x \<notin> set ys" by auto
    with keys True show ?thesis by (simp add: filter_True)
  next
    case False
    with Cons show ?thesis by auto
  qed
qed

lemma image_remove_distinct:
  assumes "distinct (map f xs)" and "x \<in> set xs"
  shows "f ` (set xs - {x}) = f ` set xs - {f x}"
  using assms by (induction xs) (auto simp: image_iff)

lemma count_rows_pos:
  "x \<in> set xs \<Longrightarrow> P x \<Longrightarrow> 0 < count_rows P xs"
  unfolding count_rows_def by (metis filter_empty_conv length_greater_0_conv)

lemma count_rows_removeAll:
  assumes "distinct xs" and "x \<in> set xs" and "P x"
  shows "count_rows P (removeAll x xs) = count_rows P xs - 1"
  using assms
proof (induction xs)
  case Nil
  then show ?case by simp
next
  case (Cons y ys)
  show ?case
  proof (cases "y = x")
    case True
    with Cons.prems have "removeAll x ys = ys" by simp
    with True Cons.prems show ?thesis by (simp add: count_rows_Cons)
  next
    case False
    with Cons.prems have "0 < count_rows P ys" by (auto intro: count_rows_pos)
    with False Cons show ?thesis by (auto simp: count_rows_Cons)
  qed
qed

lemma sorted_desc_sort_key:
  "sorted_wrt (\<lambda>a b. f b \<le> f a) (sort_key (\<lambda>x. - int (f x)) xs)"
proof -
  have "sorted (map (\<lambda>x. - int (f x)) (sort_key (\<lambda>x. - int (f x)) xs))" by (rule sorted_sort_key)
  then show ?thesis by (simp add: sorted_map)
qed

lemma count_rows_conj_eq:
  "count_rows (\<lambda>x. P x \<and> Q x) xs = count_rows P xs \<longleftrightarrow> (\<forall>x \<in> set xs. P x \<longrightarrow> Q x)"
proof (induction xs)
  case Nil
  then show ?case by (simp add: count_rows_def)
next
  case (Cons y ys)
  have le: "count_rows (\<lambda>x. P x \<and> Q x) ys \<le> count_rows P ys"
    unfolding count_rows_def by (metis filter_filter length_filter_le)
  with Cons show ?case by (auto simp: count_rows_Cons)
qed

lemma distinct_map_replace:
  assumes "distinct (map key xs)" and "distinct (map f xs)" and "key y = k"
    and "f y \<notin> f ` {x \<in> set xs. key x \<noteq> k}"
  shows "distinct (map f (map (\<lambda>x. if key x = k then y else x) xs))"
  using assms
proof (induction xs)
  case Nil
  then show ?case by simp
next
  case (Cons x xs)
  then show ?case by (auto simp: image_iff)
qed

lemma map_key_replace:
  assumes "key y = k"
  shows "map key (map (\<lambda>x. if key x = k then y else x) xs) = map key xs"
  using assms by (induction xs) auto

lemma dropWhile_none: "(\<forall>x \<in> set xs. \<not> P x) \<Longrightarrow> dropWhile P xs = xs"
  by (induction xs) auto

lemma map_replace_absent:
  "k \<notin> key ` set xs \<Longrightarrow> map (\<lambda>z. if key z = k then y else z) xs = xs"
  by (induction xs) auto

lemma map_replace_same:
  assumes "distinct (map key xs)" and "x \<in> set xs" and "key y = key x" and "f y = f x"
  shows "map f (map (\<lambda>z. if key z = key x then y else z) xs) = map f xs"
  using assms
proof (induction xs)
  case Nil
  then show ?case by simp
next
  case (Cons z zs)
  show ?case
  proof (cases "z = x")
    case True
    with Cons.prems have "key x \<notin> key ` set zs" by simp
    with True Cons.prems show ?thesis by (simp add: map_replace_absent)
  next
    case False
    with Cons.prems have "x \<in> set zs" "key z \<noteq> key x" by (auto simp: image_iff)
    with Cons show ?thesis by simp
  qed
qed

lemma replace_member:
  assumes "x \<in> set xs" and "key y = key x"
  shows "y \<in> set (map (\<lambda>z. if key z = key x then y else z) xs)"
  using assms by (induction xs) auto

lemma sum_list_update:
  "i < length xs \<Longrightarrow> sum_list (map f (xs[i := y])) + f (xs ! i) = sum_list (map f xs) + (f y :: nat)"
proof (induction xs arbitrary: i)
  case Nil
  then show ?case by simp
next
  case (Cons x xs)
  then show ?case by (cases i) auto
qed

lemma split_on_append: "c \<notin> set s \<Longrightarrow> split_on c (s @ c # t) = s # split_on c t"
  by (induction s) (auto split: list.split)

end
