(* ===== verification/Models.thy ===== *)
theory Models
  imports Blog_Prelude
begin

text \<open>
  The persistence layer of \<open>src/blog/models.py\<close>: one record per Django model
  (\<open>Category\<close>, \<open>News\<close>, \<open>Comment\<close>, \<open>Like\<close>, and Django's \<open>User\<close>, which the models
  reference), the database as one table per model with an id sequence per auto-increment
  key, and the operations of the ORM on it with the constraints the model declarations
  impose: the unique columns, \<open>unique_together\<close>, the NOT NULL foreign keys, and the
  \<open>on_delete\<close> behaviours (\<open>CASCADE\<close>, \<open>SET_NULL\<close>). A violated constraint is an
  \<open>IntegrityError\<close>, here a value of \<open>db_error\<close>. The well-formedness \<open>wf_db\<close> is the
  database integrity the schema enforces; every ORM operation keeps it.
\<close>

section \<open>Rows\<close>

record User =
  user_pk :: user_id
  username :: string
  user_email :: string
  user_password :: string

record Category =
  cat_pk :: cat_id
  cat_name :: string
  cat_slug :: string

record News =
  news_pk :: news_id
  news_category :: "cat_id option"
  news_author :: user_id
  news_title :: string
  news_slug :: string
  news_image :: string
  news_body :: string
  news_date_posted :: timestamp
  news_updated_at :: timestamp
  news_is_breaking :: bool

record Comment =
  comment_pk :: comment_id
  comment_news :: news_id
  comment_user :: user_id \<comment> \<open>\<open>ForeignKey(User)\<close> without \<open>null=True\<close>: NOT NULL\<close>
  comment_name :: string
  comment_email :: string
  comment_text :: string
  comment_timestamp :: timestamp

record Like =
  like_pk :: like_id
  like_user :: user_id
  like_news :: news_id
  like_is_liked :: bool
  like_timestamp :: timestamp

text \<open>The column pair of \<open>unique_together = ('user', 'news')\<close>.\<close>

definition like_key :: "Like \<Rightarrow> user_id \<times> news_id" where
  "like_key l = (like_user l, like_news l)"

record db =
  db_users :: "User list"
  db_categories :: "Category list"
  db_news :: "News list"
  db_comments :: "Comment list"
  db_likes :: "Like list"
  seq_user :: nat
  seq_category :: nat
  seq_comment :: nat
  seq_like :: nat

definition empty_db :: db where
  "empty_db = \<lparr>db_users = [], db_categories = [], db_news = [], db_comments = [],
     db_likes = [], seq_user = 1, seq_category = 1, seq_comment = 1, seq_like = 1\<rparr>"

abbreviation user_ids :: "db \<Rightarrow> user_id set" where
  "user_ids d \<equiv> user_pk ` set (db_users d)"

abbreviation cat_ids :: "db \<Rightarrow> cat_id set" where
  "cat_ids d \<equiv> cat_pk ` set (db_categories d)"

abbreviation news_ids :: "db \<Rightarrow> news_id set" where
  "news_ids d \<equiv> news_pk ` set (db_news d)"

datatype db_error =
    UniqueViolation string
  | NotNullViolation string
  | ForeignKeyViolation string
  | MultipleObjectsReturned

text \<open>The relation the \<open>Like\<close> table stores: which user likes which article.\<close>

definition liked_pairs :: "db \<Rightarrow> (user_id \<times> news_id) set" where
  "liked_pairs d = like_key ` set (db_likes d)"

section \<open>Integrity\<close>

definition keys_unique :: "db \<Rightarrow> bool" where
  "keys_unique d \<longleftrightarrow>
     distinct (map user_pk (db_users d)) \<and> distinct (map username (db_users d)) \<and>
     distinct (map cat_pk (db_categories d)) \<and> distinct (map cat_name (db_categories d)) \<and>
     distinct (map cat_slug (db_categories d)) \<and>
     distinct (map news_pk (db_news d)) \<and> distinct (map news_slug (db_news d)) \<and>
     distinct (map comment_pk (db_comments d)) \<and>
     distinct (map like_pk (db_likes d)) \<and> distinct (map like_key (db_likes d))"

definition foreign_keys :: "db \<Rightarrow> bool" where
  "foreign_keys d \<longleftrightarrow>
     (\<forall>n \<in> set (db_news d).
        set_option (news_category n) \<subseteq> cat_ids d \<and>
        news_author n \<in> user_ids d) \<and>
     (\<forall>c \<in> set (db_comments d). comment_news c \<in> news_ids d \<and> comment_user c \<in> user_ids d) \<and>
     (\<forall>l \<in> set (db_likes d). like_user l \<in> user_ids d \<and> like_news l \<in> news_ids d)"

definition seqs_fresh :: "db \<Rightarrow> bool" where
  "seqs_fresh d \<longleftrightarrow>
     (\<forall>u \<in> set (db_users d). user_pk u < seq_user d) \<and>
     (\<forall>c \<in> set (db_categories d). cat_pk c < seq_category d) \<and>
     (\<forall>c \<in> set (db_comments d). comment_pk c < seq_comment d) \<and>
     (\<forall>l \<in> set (db_likes d). like_pk l < seq_like d)"

definition wf_db :: "db \<Rightarrow> bool" where
  "wf_db d \<longleftrightarrow> keys_unique d \<and> foreign_keys d \<and> seqs_fresh d"

lemmas wf_defs = wf_db_def keys_unique_def foreign_keys_def seqs_fresh_def

section \<open>ORM operations\<close>

subsection \<open>Likes\<close>

text \<open>
  \<open>Like.objects.create(user=u, news=n)\<close>: \<open>is_liked\<close> defaults to \<open>True\<close>, \<open>timestamp\<close> is
  \<open>auto_now_add\<close>, and the pair \<open>(user, news)\<close> must be new.
\<close>

definition insert_like :: "db \<Rightarrow> user_id \<Rightarrow> news_id \<Rightarrow> bool \<Rightarrow> timestamp \<Rightarrow> db_error + Like \<times> db" where
  "insert_like d u n liked now =
     (if (u, n) \<in> like_key ` set (db_likes d)
      then Inl (UniqueViolation ''blog_like.user_id, blog_like.news_id'')
      else if u \<notin> user_ids d then Inl (ForeignKeyViolation ''blog_like.user_id'')
      else if n \<notin> news_ids d then Inl (ForeignKeyViolation ''blog_like.news_id'')
      else
        (let l = \<lparr>like_pk = seq_like d, like_user = u, like_news = n,
                  like_is_liked = liked, like_timestamp = now\<rparr>
         in Inr (l, d\<lparr>db_likes := db_likes d @ [l], seq_like := Suc (seq_like d)\<rparr>)))"

text \<open>
  \<open>Like.objects.get_or_create(news=n, user=u)\<close>: the \<open>get\<close> finds the row of the pair
  (more than one raises), otherwise the row is created; the flag says which.
\<close>

definition get_or_create_like :: "db \<Rightarrow> news_id \<Rightarrow> user_id \<Rightarrow> timestamp \<Rightarrow> db_error + Like \<times> bool \<times> db" where
  "get_or_create_like d n u now =
     (case filter (\<lambda>l. like_news l = n \<and> like_user l = u) (db_likes d) of
        [] \<Rightarrow> (case insert_like d u n True now of
                 Inl e \<Rightarrow> Inl e
               | Inr (l, d') \<Rightarrow> Inr (l, True, d'))
      | [l] \<Rightarrow> Inr (l, False, d)
      | _ \<Rightarrow> Inl MultipleObjectsReturned)"

text \<open>\<open>like_obj.delete()\<close>: no model references \<open>Like\<close>, so only its row goes.\<close>

definition delete_like :: "db \<Rightarrow> like_id \<Rightarrow> db" where
  "delete_like d k = d\<lparr>db_likes := filter (\<lambda>l. like_pk l \<noteq> k) (db_likes d)\<rparr>"

text \<open>\<open>news.like_set.count()\<close>: every \<open>Like\<close> row of the article, whatever its flag.\<close>

definition like_set_count :: "db \<Rightarrow> news_id \<Rightarrow> nat" where
  "like_set_count d n = count_rows (\<lambda>l. like_news l = n) (db_likes d)"

text \<open>
  \<open>like.save()\<close> of an existing row (\<open>LikeViewSet.update\<close>): the row with the same key is
  replaced; the pair stays unique and both foreign keys must exist.
\<close>

definition save_like :: "db \<Rightarrow> Like \<Rightarrow> db_error + Like \<times> db" where
  "save_like d l =
     (if like_key l \<in> like_key ` set (filter (\<lambda>x. like_pk x \<noteq> like_pk l) (db_likes d))
      then Inl (UniqueViolation ''blog_like.user_id, blog_like.news_id'')
      else if like_user l \<notin> user_ids d then Inl (ForeignKeyViolation ''blog_like.user_id'')
      else if like_news l \<notin> news_ids d then Inl (ForeignKeyViolation ''blog_like.news_id'')
      else Inr (l, d\<lparr>db_likes := map (\<lambda>x. if like_pk x = like_pk l then l else x) (db_likes d)\<rparr>))"

subsection \<open>Users\<close>

text \<open>
  \<open>User.objects.create(username=..., email=..., password=...)\<close> of Django's
  \<open>auth_user\<close> table: the username is unique; the password column holds what it is given.
\<close>

definition insert_user :: "db \<Rightarrow> string \<Rightarrow> string \<Rightarrow> string \<Rightarrow> db_error + User \<times> db" where
  "insert_user d name email pw =
     (if name \<in> username ` set (db_users d) then Inl (UniqueViolation ''auth_user.username'')
      else
        (let u = \<lparr>user_pk = seq_user d, username = name, user_email = email, user_password = pw\<rparr>
         in Inr (u, d\<lparr>db_users := db_users d @ [u], seq_user := Suc (seq_user d)\<rparr>)))"

subsection \<open>Categories\<close>

text \<open>\<open>Category.objects.create(name=..., slug=...)\<close>: both columns are unique.\<close>

definition insert_category :: "db \<Rightarrow> string \<Rightarrow> string \<Rightarrow> db_error + Category \<times> db" where
  "insert_category d name slug =
     (if name \<in> cat_name ` set (db_categories d) then Inl (UniqueViolation ''blog_category.name'')
      else if slug \<in> cat_slug ` set (db_categories d) then Inl (UniqueViolation ''blog_category.slug'')
      else
        (let c = \<lparr>cat_pk = seq_category d, cat_name = name, cat_slug = slug\<rparr>
         in Inr (c, d\<lparr>db_categories := db_categories d @ [c],
                      seq_category := Suc (seq_category d)\<rparr>)))"

text \<open>\<open>category.save()\<close> of an existing row: name and slug stay unique among the others.\<close>

definition save_category :: "db \<Rightarrow> Category \<Rightarrow> db_error + Category \<times> db" where
  "save_category d c =
     (let others = filter (\<lambda>x. cat_pk x \<noteq> cat_pk c) (db_categories d)
      in if cat_name c \<in> cat_name ` set others then Inl (UniqueViolation ''blog_category.name'')
         else if cat_slug c \<in> cat_slug ` set others then Inl (UniqueViolation ''blog_category.slug'')
         else Inr (c, d\<lparr>db_categories := map (\<lambda>x. if cat_pk x = cat_pk c then c else x)
                                              (db_categories d)\<rparr>))"

subsection \<open>News\<close>

text \<open>
  \<open>News.objects.create(...)\<close>: the UUID key and the slug are unique, the category may be
  NULL, the author may not; \<open>date_posted\<close> (\<open>auto_now_add\<close>) and \<open>updated_at\<close>
  (\<open>auto_now\<close>) take the current time, and the uploaded image is stored under
  \<open>upload_to='news_images/'\<close>.
\<close>

definition insert_news ::
  "db \<Rightarrow> news_id \<Rightarrow> cat_id option \<Rightarrow> user_id option \<Rightarrow> string \<Rightarrow> string \<Rightarrow> string \<Rightarrow>
   string \<Rightarrow> bool \<Rightarrow> timestamp \<Rightarrow> db_error + News \<times> db" where
  "insert_news d k cat ao title slug img bdy breaking now =
    (case ao of
       None \<Rightarrow> Inl (NotNullViolation ''blog_news.author_id'')
     | Some author \<Rightarrow>
     (if k \<in> news_ids d then Inl (UniqueViolation ''blog_news.id'')
      else if slug \<in> news_slug ` set (db_news d) then Inl (UniqueViolation ''blog_news.slug'')
      else if \<not> set_option cat \<subseteq> cat_ids d then Inl (ForeignKeyViolation ''blog_news.category_id'')
      else if author \<notin> user_ids d then Inl (ForeignKeyViolation ''blog_news.author_id'')
      else
        (let n = \<lparr>news_pk = k, news_category = cat, news_author = author, news_title = title,
                  news_slug = slug, news_image = ''news_images/'' @ img, news_body = bdy,
                  news_date_posted = now, news_updated_at = now, news_is_breaking = breaking\<rparr>
         in Inr (n, d\<lparr>db_news := db_news d @ [n]\<rparr>))))"

text \<open>
  \<open>instance.save()\<close> of an existing article: the row with the same key is replaced, its
  \<open>updated_at\<close> (\<open>auto_now\<close>) set to the current time; the slug stays unique and the
  category must exist.
\<close>

definition save_news :: "db \<Rightarrow> News \<Rightarrow> timestamp \<Rightarrow> db_error + News \<times> db" where
  "save_news d n now =
     (if news_slug n \<in> news_slug ` set (filter (\<lambda>m. news_pk m \<noteq> news_pk n) (db_news d))
      then Inl (UniqueViolation ''blog_news.slug'')
      else if \<not> set_option (news_category n) \<subseteq> cat_ids d
      then Inl (ForeignKeyViolation ''blog_news.category_id'')
      else if news_author n \<notin> user_ids d then Inl (ForeignKeyViolation ''blog_news.author_id'')
      else
        (let n' = n\<lparr>news_updated_at := now\<rparr>
         in Inr (n', d\<lparr>db_news := map (\<lambda>m. if news_pk m = news_pk n then n' else m) (db_news d)\<rparr>)))"

subsection \<open>Comments\<close>

text \<open>
  \<open>Comment.objects.create(...)\<close>; \<open>None\<close> for the user is a row whose \<open>user_id\<close> is NULL,
  which the NOT NULL column refuses.
\<close>

definition insert_comment ::
  "db \<Rightarrow> news_id \<Rightarrow> user_id option \<Rightarrow> string \<Rightarrow> string \<Rightarrow> string \<Rightarrow> timestamp \<Rightarrow>
   db_error + Comment \<times> db" where
  "insert_comment d n uo name email text now =
     (case uo of
        None \<Rightarrow> Inl (NotNullViolation ''blog_comment.user_id'')
      | Some u \<Rightarrow>
          (if n \<notin> news_ids d then Inl (ForeignKeyViolation ''blog_comment.news_id'')
           else if u \<notin> user_ids d then Inl (ForeignKeyViolation ''blog_comment.user_id'')
           else
             (let c = \<lparr>comment_pk = seq_comment d, comment_news = n, comment_user = u,
                       comment_name = name, comment_email = email, comment_text = text,
                       comment_timestamp = now\<rparr>
              in Inr (c, d\<lparr>db_comments := db_comments d @ [c],
                           seq_comment := Suc (seq_comment d)\<rparr>))))"

text \<open>
  \<open>comment.save()\<close> of an existing row (\<open>CommentViewSet.update\<close>): the row with the
  same key is replaced; \<open>timestamp\<close> is \<open>auto_now_add\<close> and keeps its value.
\<close>

definition save_comment :: "db \<Rightarrow> Comment \<Rightarrow> db_error + Comment \<times> db" where
  "save_comment d c =
     (if comment_news c \<notin> news_ids d then Inl (ForeignKeyViolation ''blog_comment.news_id'')
      else if comment_user c \<notin> user_ids d then Inl (ForeignKeyViolation ''blog_comment.user_id'')
      else Inr (c, d\<lparr>db_comments := map (\<lambda>x. if comment_pk x = comment_pk c then c else x)
                                        (db_comments d)\<rparr>))"

text \<open>\<open>comment.delete()\<close>: no model references \<open>Comment\<close>.\<close>

definition delete_comment :: "db \<Rightarrow> comment_id \<Rightarrow> db" where
  "delete_comment d k = d\<lparr>db_comments := filter (\<lambda>c. comment_pk c \<noteq> k) (db_comments d)\<rparr>"

subsection \<open>Deletion and its cascades\<close>

text \<open>\<open>category.delete()\<close>: \<open>on_delete=SET_NULL\<close> clears the category of its news.\<close>

definition set_null_category :: "cat_id \<Rightarrow> News \<Rightarrow> News" where
  "set_null_category k n = (if news_category n = Some k then n\<lparr>news_category := None\<rparr> else n)"

definition delete_category :: "db \<Rightarrow> cat_id \<Rightarrow> db" where
  "delete_category d k =
     d\<lparr>db_news := map (set_null_category k) (db_news d),
       db_categories := filter (\<lambda>c. cat_pk c \<noteq> k) (db_categories d)\<rparr>"

text \<open>\<open>news.delete()\<close>: \<open>on_delete=CASCADE\<close> on \<open>Comment.news\<close> and \<open>Like.news\<close>.\<close>

definition delete_news :: "db \<Rightarrow> news_id \<Rightarrow> db" where
  "delete_news d k =
     d\<lparr>db_comments := filter (\<lambda>c. comment_news c \<noteq> k) (db_comments d),
       db_likes := filter (\<lambda>l. like_news l \<noteq> k) (db_likes d),
       db_news := filter (\<lambda>n. news_pk n \<noteq> k) (db_news d)\<rparr>"

text \<open>
  \<open>user.delete()\<close>: \<open>CASCADE\<close> on \<open>News.author\<close>, \<open>Comment.user\<close> and \<open>Like.user\<close>, and through
  the deleted news on their comments and likes.
\<close>

definition delete_user :: "db \<Rightarrow> user_id \<Rightarrow> db" where
  "delete_user d k =
     (let gone = (\<lambda>n. news_author n = k);
          gone_ids = map news_pk (filter gone (db_news d))
      in d\<lparr>db_comments := filter (\<lambda>c. comment_user c \<noteq> k \<and> comment_news c \<notin> set gone_ids)
                               (db_comments d),
           db_likes := filter (\<lambda>l. like_user l \<noteq> k \<and> like_news l \<notin> set gone_ids) (db_likes d),
           db_news := filter (\<lambda>n. \<not> gone n) (db_news d),
           db_users := filter (\<lambda>u. user_pk u \<noteq> k) (db_users d)\<rparr>)"

section \<open>The operations keep the integrity of the database\<close>

lemma set_null_category_simps [simp]:
  "news_pk (set_null_category k n) = news_pk n"
  "news_slug (set_null_category k n) = news_slug n"
  "news_author (set_null_category k n) = news_author n"
  "news_category (set_null_category k n) = (if news_category n = Some k then None else news_category n)"
  by (simp_all add: set_null_category_def)

lemma wf_empty_db: "wf_db empty_db"
  by (simp add: wf_defs empty_db_def)

lemma delete_like_wf: "wf_db d \<Longrightarrow> wf_db (delete_like d k)"
  by (auto simp: delete_like_def wf_defs distinct_map_filter)

lemma delete_news_wf: "wf_db d \<Longrightarrow> wf_db (delete_news d k)"
  by (auto simp: delete_news_def wf_defs distinct_map_filter)

lemma delete_category_wf: "wf_db d \<Longrightarrow> wf_db (delete_category d k)"
  by (auto simp: delete_category_def wf_defs distinct_map_filter comp_def image_image)

lemma insert_like_wf:
  assumes "wf_db d" and "insert_like d u n b t = Inr (l, d')"
  shows "wf_db d'"
proof -
  from assms(2) have new: "(u, n) \<notin> like_key ` set (db_likes d)" "u \<in> user_ids d" "n \<in> news_ids d"
    and l: "l = \<lparr>like_pk = seq_like d, like_user = u, like_news = n, like_is_liked = b, like_timestamp = t\<rparr>"
    and d': "d' = d\<lparr>db_likes := db_likes d @ [l], seq_like := Suc (seq_like d)\<rparr>"
    by (auto simp: insert_like_def Let_def split: if_splits)
  have "seq_like d \<notin> like_pk ` set (db_likes d)"
    using assms(1) by (auto simp: wf_defs)
  with assms(1) new show ?thesis
    by (auto simp: wf_defs d' l like_key_def)
qed

lemma insert_comment_wf:
  assumes "wf_db d" and "insert_comment d n uo nm em tx t = Inr (c, d')"
  shows "wf_db d'"
proof -
  from assms(2) obtain u where new: "uo = Some u" "u \<in> user_ids d" "n \<in> news_ids d"
    and c: "c = \<lparr>comment_pk = seq_comment d, comment_news = n, comment_user = u,
                 comment_name = nm, comment_email = em, comment_text = tx, comment_timestamp = t\<rparr>"
    and d': "d' = d\<lparr>db_comments := db_comments d @ [c], seq_comment := Suc (seq_comment d)\<rparr>"
    by (auto simp: insert_comment_def Let_def split: if_splits option.splits)
  have "seq_comment d \<notin> comment_pk ` set (db_comments d)"
    using assms(1) by (auto simp: wf_defs)
  with assms(1) new show ?thesis
    by (auto simp: wf_defs d' c)
qed

lemma delete_user_wf: "wf_db d \<Longrightarrow> wf_db (delete_user d k)"
  unfolding delete_user_def Let_def wf_defs by (auto simp: distinct_map_filter) blast+

lemma insert_news_wf:
  assumes "wf_db d" and "insert_news d k cat ao ti sl im bo br t = Inr (n, d')"
  shows "wf_db d'"
proof -
  from assms(2) obtain a where new: "k \<notin> news_ids d" "sl \<notin> news_slug ` set (db_news d)"
      "set_option cat \<subseteq> cat_ids d" "a \<in> user_ids d"
    and n: "n = \<lparr>news_pk = k, news_category = cat, news_author = a, news_title = ti,
                  news_slug = sl, news_image = ''news_images/'' @ im, news_body = bo,
                  news_date_posted = t, news_updated_at = t, news_is_breaking = br\<rparr>"
    and d': "d' = d\<lparr>db_news := db_news d @ [n]\<rparr>"
    by (auto simp: insert_news_def Let_def split: if_splits option.splits)
  with assms(1) show ?thesis
    by (auto simp: wf_defs)
qed

lemma save_news_wf:
  assumes wf: "wf_db d" and run: "save_news d n t = Inr (n', d')"
  shows "wf_db d'"
proof -
  from run have ok: "news_slug n \<notin> news_slug ` {m \<in> set (db_news d). news_pk m \<noteq> news_pk n}"
      "set_option (news_category n) \<subseteq> cat_ids d" "news_author n \<in> user_ids d"
    and n': "n' = n\<lparr>news_updated_at := t\<rparr>"
    and d': "d' = d\<lparr>db_news := map (\<lambda>m. if news_pk m = news_pk n then n' else m) (db_news d)\<rparr>"
    by (auto simp: save_news_def Let_def split: if_splits)
  let ?xs = "map (\<lambda>m. if news_pk m = news_pk n then n' else m) (db_news d)"
  have pk: "news_pk n' = news_pk n" by (simp add: n')
  have keys: "map news_pk ?xs = map news_pk (db_news d)"
    using map_key_replace [of news_pk n' "news_pk n"] pk by blast
  then have ids: "news_pk ` set ?xs = news_ids d" by (metis set_map)
  from wf have dpk: "distinct (map news_pk (db_news d))" and dsl: "distinct (map news_slug (db_news d))"
    by (simp_all add: wf_defs)
  have "news_slug n' \<notin> news_slug ` {m \<in> set (db_news d). news_pk m \<noteq> news_pk n}"
    using ok(1) by (simp add: n')
  from distinct_map_replace [OF dpk dsl pk this] have "distinct (map news_slug ?xs)" .
  moreover from dpk have "distinct (map news_pk ?xs)" unfolding keys .
  moreover have "\<forall>m \<in> set ?xs. set_option (news_category m) \<subseteq> cat_ids d \<and> news_author m \<in> user_ids d"
    using wf ok(2,3) by (auto simp: wf_defs n')
  ultimately show ?thesis using wf ids unfolding d' wf_defs by auto
qed

lemma get_or_create_like_wf:
  assumes "wf_db d" and "get_or_create_like d n u t = Inr (l, c, d')"
  shows "wf_db d'"
  using assms
  by (auto simp: get_or_create_like_def split: list.splits sum.splits intro: insert_like_wf)

lemma insert_user_wf:
  assumes "wf_db d" and "insert_user d nm em pw = Inr (u, d')"
  shows "wf_db d'"
proof -
  from assms(2) have new: "nm \<notin> username ` set (db_users d)"
    and u: "u = \<lparr>user_pk = seq_user d, username = nm, user_email = em, user_password = pw\<rparr>"
    and d': "d' = d\<lparr>db_users := db_users d @ [u], seq_user := Suc (seq_user d)\<rparr>"
    by (auto simp: insert_user_def Let_def split: if_splits)
  have "seq_user d \<notin> user_pk ` set (db_users d)"
    using assms(1) by (auto simp: wf_defs)
  with assms(1) new show ?thesis
    by (auto simp: wf_defs d' u)
qed

lemma insert_category_wf:
  assumes "wf_db d" and "insert_category d nm sl = Inr (c, d')"
  shows "wf_db d'"
proof -
  from assms(2) have new: "nm \<notin> cat_name ` set (db_categories d)" "sl \<notin> cat_slug ` set (db_categories d)"
    and c: "c = \<lparr>cat_pk = seq_category d, cat_name = nm, cat_slug = sl\<rparr>"
    and d': "d' = d\<lparr>db_categories := db_categories d @ [c], seq_category := Suc (seq_category d)\<rparr>"
    by (auto simp: insert_category_def Let_def split: if_splits)
  have "seq_category d \<notin> cat_pk ` set (db_categories d)"
    using assms(1) by (auto simp: wf_defs)
  with assms(1) new show ?thesis
    by (auto simp: wf_defs d' c)
qed

lemma save_category_wf:
  assumes wf: "wf_db d" and run: "save_category d c = Inr (c', d')"
  shows "wf_db d'"
proof -
  let ?xs = "map (\<lambda>x. if cat_pk x = cat_pk c then c else x) (db_categories d)"
  from run have ok: "cat_name c \<notin> cat_name ` {x \<in> set (db_categories d). cat_pk x \<noteq> cat_pk c}"
      "cat_slug c \<notin> cat_slug ` {x \<in> set (db_categories d). cat_pk x \<noteq> cat_pk c}"
    and d': "d' = d\<lparr>db_categories := ?xs\<rparr>"
    by (auto simp: save_category_def Let_def split: if_splits)
  from wf have dpk: "distinct (map cat_pk (db_categories d))"
    and dn: "distinct (map cat_name (db_categories d))" and ds: "distinct (map cat_slug (db_categories d))"
    by (simp_all add: wf_defs)
  have keys: "map cat_pk ?xs = map cat_pk (db_categories d)" by (rule map_key_replace) simp
  then have ids: "cat_pk ` set ?xs = cat_ids d" by (metis set_map)
  have "distinct (map cat_name ?xs)" by (rule distinct_map_replace [OF dpk dn _ ok(1)]) simp
  moreover have "distinct (map cat_slug ?xs)" by (rule distinct_map_replace [OF dpk ds _ ok(2)]) simp
  moreover from dpk have "distinct (map cat_pk ?xs)" unfolding keys .
  ultimately show ?thesis using wf ids unfolding d' wf_defs by auto
qed

lemma save_like_wf:
  assumes wf: "wf_db d" and run: "save_like d l = Inr (l', d')"
  shows "wf_db d'"
proof -
  let ?xs = "map (\<lambda>x. if like_pk x = like_pk l then l else x) (db_likes d)"
  from run have ok: "like_key l \<notin> like_key ` {x \<in> set (db_likes d). like_pk x \<noteq> like_pk l}"
      "like_user l \<in> user_ids d" "like_news l \<in> news_ids d"
    and d': "d' = d\<lparr>db_likes := ?xs\<rparr>"
    by (auto simp: save_like_def split: if_splits)
  from wf have dpk: "distinct (map like_pk (db_likes d))" and dk: "distinct (map like_key (db_likes d))"
    by (simp_all add: wf_defs)
  have keys: "map like_pk ?xs = map like_pk (db_likes d)" by (rule map_key_replace) simp
  have "distinct (map like_key ?xs)" by (rule distinct_map_replace [OF dpk dk _ ok(1)]) simp
  moreover from dpk have "distinct (map like_pk ?xs)" unfolding keys .
  moreover have "\<forall>x \<in> set ?xs. like_pk x < seq_like d"
    using wf keys by (metis (no_types, lifting) imageI list.set_map seqs_fresh_def wf_db_def imageE)
  moreover have "\<forall>x \<in> set ?xs. like_user x \<in> user_ids d \<and> like_news x \<in> news_ids d"
    using wf ok(2,3) by (auto simp: wf_defs)
  ultimately show ?thesis using wf unfolding d' wf_defs by auto
qed

lemma save_comment_wf:
  assumes wf: "wf_db d" and run: "save_comment d c = Inr (c', d')"
  shows "wf_db d'"
proof -
  let ?xs = "map (\<lambda>x. if comment_pk x = comment_pk c then c else x) (db_comments d)"
  from run have ok: "comment_news c \<in> news_ids d" "comment_user c \<in> user_ids d"
    and d': "d' = d\<lparr>db_comments := ?xs\<rparr>"
    by (auto simp: save_comment_def split: if_splits)
  have keys: "map comment_pk ?xs = map comment_pk (db_comments d)" by (rule map_key_replace) simp
  have "\<forall>x \<in> set ?xs. comment_pk x < seq_comment d"
    using wf keys by (metis (no_types, lifting) imageI list.set_map seqs_fresh_def wf_db_def imageE)
  moreover have "\<forall>x \<in> set ?xs. comment_news x \<in> news_ids d \<and> comment_user x \<in> user_ids d"
    using wf ok by (auto simp: wf_defs)
  moreover from wf have "distinct (map comment_pk ?xs)" unfolding keys by (simp add: wf_defs)
  ultimately show ?thesis using wf unfolding d' wf_defs by auto
qed

lemma delete_comment_wf: "wf_db d \<Longrightarrow> wf_db (delete_comment d k)"
  by (auto simp: delete_comment_def wf_defs distinct_map_filter)

section \<open>Likes through the unique pair\<close>


lemma like_filter_eq:
  "filter (\<lambda>l. like_news l = n \<and> like_user l = u) xs = filter (\<lambda>l. like_key l = (u, n)) xs"
  by (simp add: like_key_def conj_commute)

lemma get_or_create_like_existing:
  assumes "keys_unique d" and "l \<in> set (db_likes d)" and "like_key l = (u, n)"
  shows "get_or_create_like d n u t = Inr (l, False, d)"
proof -
  from assms(1) have "distinct (map like_key (db_likes d))" by (simp add: keys_unique_def)
  from this assms(2) have "filter (\<lambda>x. like_key x = like_key l) (db_likes d) = [l]"
    by (rule filter_key_member)
  with assms(3) show ?thesis
    by (simp add: get_or_create_like_def like_filter_eq)
qed

lemma get_or_create_like_new:
  assumes "(u, n) \<notin> liked_pairs d" and "u \<in> user_ids d" and "n \<in> news_ids d"
  shows "get_or_create_like d n u t =
           Inr (\<lparr>like_pk = seq_like d, like_user = u, like_news = n, like_is_liked = True,
                 like_timestamp = t\<rparr>, True,
                d\<lparr>db_likes := db_likes d @ [\<lparr>like_pk = seq_like d, like_user = u, like_news = n,
                   like_is_liked = True, like_timestamp = t\<rparr>], seq_like := Suc (seq_like d)\<rparr>)"
proof -
  from assms(1) have "filter (\<lambda>x. like_key x = (u, n)) (db_likes d) = []"
    by (simp add: liked_pairs_def filter_key_absent)
  with assms show ?thesis
    by (simp add: get_or_create_like_def like_filter_eq insert_like_def liked_pairs_def Let_def)
qed

lemma delete_like_pairs:
  assumes "keys_unique d" and "l \<in> set (db_likes d)"
  shows "liked_pairs (delete_like d (like_pk l)) = liked_pairs d - {like_key l}"
proof -
  from assms(1) have pk: "distinct (map like_pk (db_likes d))"
    and key: "distinct (map like_key (db_likes d))" by (simp_all add: keys_unique_def)
  from pk assms(2) have "filter (\<lambda>x. like_pk x \<noteq> like_pk l) (db_likes d) = removeAll l (db_likes d)"
    by (rule filter_key_neq_removeAll)
  with key assms(2) show ?thesis
    by (simp add: delete_like_def liked_pairs_def image_remove_distinct)
qed

lemma delete_like_count:
  assumes "keys_unique d" and "l \<in> set (db_likes d)"
  shows "like_set_count (delete_like d (like_pk l)) (like_news l) = like_set_count d (like_news l) - 1"
proof -
  from assms(1) have pk: "distinct (map like_pk (db_likes d))" by (simp add: keys_unique_def)
  then have "distinct (db_likes d)" by (simp add: distinct_map)
  moreover from pk assms(2) have "filter (\<lambda>x. like_pk x \<noteq> like_pk l) (db_likes d) = removeAll l (db_likes d)"
    by (rule filter_key_neq_removeAll)
  ultimately show ?thesis using assms(2)
    by (simp add: delete_like_def like_set_count_def count_rows_removeAll)
qed

text \<open>Under the unique pair, \<open>like_set_count\<close> counts the users who like the article.\<close>


text \<open>
  C3: under the unique (user, news) constraint, the count the like action reports (news.like_set.count()) is the number of distinct users who currently like the article.
\<close>

theorem like_set_count_users:
  assumes "keys_unique d"
  shows "like_set_count d k = card {v. (v, k) \<in> liked_pairs d}"
proof -
  let ?xs = "filter (\<lambda>l. like_news l = k) (db_likes d)"
  from assms have key: "distinct (map like_key (db_likes d))" by (simp add: keys_unique_def)
  then have "distinct (map like_key ?xs)" by (rule distinct_map_filter)
  then have "card (set (map like_key ?xs)) = length (map like_key ?xs)" by (rule distinct_card)
  then have "length ?xs = card (like_key ` set ?xs)" by simp
  also have "like_key ` set ?xs = (\<lambda>v. (v, k)) ` {v. (v, k) \<in> liked_pairs d}"
    by (auto simp: liked_pairs_def like_key_def image_iff)
  also have "card \<dots> = card {v. (v, k) \<in> liked_pairs d}"
    by (rule card_image) (simp add: inj_on_def)
  finally show ?thesis by (simp add: like_set_count_def count_rows_def)
qed


text \<open>
  C10: deleting a category keeps every article (same keys, same order), clears the category of exactly the articles that had it, removes the category, and keeps the integrity of the database.
\<close>

theorem delete_category_set_null:
  assumes "wf_db d"
  shows "wf_db (delete_category d k) \<and>
         map news_pk (db_news (delete_category d k)) = map news_pk (db_news d) \<and>
         map news_category (db_news (delete_category d k)) =
           map (\<lambda>c. if c = Some k then None else c) (map news_category (db_news d)) \<and>
         k \<notin> cat_ids (delete_category d k)"
proof -
  have "map news_category (db_news (delete_category d k)) =
          map (\<lambda>c. if c = Some k then None else c) (map news_category (db_news d))"
    by (simp add: delete_category_def comp_def)
  moreover have "k \<notin> cat_ids (delete_category d k)"
    by (auto simp: delete_category_def)
  ultimately show ?thesis using delete_category_wf [OF assms, of k]
    by (simp add: delete_category_def comp_def)
qed


text \<open>
  C11: deleting an article removes it, its comments and its likes, keeps every other comment and like, and keeps the integrity of the database.
\<close>

theorem delete_news_cascade:
  assumes "wf_db d"
  shows "wf_db (delete_news d k) \<and> news_ids (delete_news d k) = news_ids d - {k} \<and>
         set (db_comments (delete_news d k)) = {c \<in> set (db_comments d). comment_news c \<noteq> k} \<and>
         set (db_likes (delete_news d k)) = {l \<in> set (db_likes d). like_news l \<noteq> k}"
  using delete_news_wf [OF assms, of k]
  by (auto simp: delete_news_def)

text \<open>
  C26: in a database with its integrity, the number of likes an article has (the count
  the like action reports) never exceeds the number of users: each user likes an
  article at most once.
\<close>

theorem like_count_bounded:
  assumes "wf_db d"
  shows "like_set_count d n \<le> length (db_users d)"
proof -
  let ?xs = "filter (\<lambda>l. like_news l = n) (db_likes d)"
  from assms have key: "distinct (map like_key (db_likes d))" and up: "distinct (map user_pk (db_users d))"
    and fk: "\<forall>l \<in> set (db_likes d). like_user l \<in> user_ids d"
    by (simp_all add: wf_defs)
  from key have "distinct (map like_key ?xs)" by (rule distinct_map_filter)
  then have "distinct (map like_user ?xs)"
    by (auto simp: distinct_map inj_on_def like_key_def)
  from distinct_card [OF this] have "length ?xs = card (like_user ` set ?xs)" by simp
  also have "\<dots> \<le> card (user_ids d)"
    using fk by (intro card_mono) auto
  also have "\<dots> = length (db_users d)"
    using distinct_card [OF up] by simp
  finally show ?thesis by (simp add: like_set_count_def count_rows_def)
qed

end
