(* ===== verification/Rest.thy ===== *)
theory Rest
  imports Models
begin

text \<open>
  The request/response cycle of the REST framework that every view of
  \<open>src/blog/views.py\<close> runs in: the request (method, the user named by a presented bearer
  token, the body, the query string, and the two values the environment supplies during
  the request: the wall clock for \<open>auto_now\<close> fields and the result of \<open>uuid.uuid4()\<close>),
  the response (status code and JSON body), token authentication and the three permission
  classes the views name. These are framework behaviour, modelled from the spec and the
  framework's documented contract: authentication fails with 401 for a token whose user
  no longer exists, a permission check refused to an anonymous caller is 401.
\<close>

datatype http_method = GET | POST | PUT | PATCH | DELETE

record request =
  req_method :: http_method
  req_token :: "user_id option"
  req_data :: data
  req_query :: "string \<rightharpoonup> string"
  req_now :: timestamp
  req_uuid :: news_id

datatype response = Response nat json

fun resp_status :: "response \<Rightarrow> nat" where
  "resp_status (Response s _) = s"

fun resp_body :: "response \<Rightarrow> json" where
  "resp_body (Response _ b) = b"

definition detail :: "string \<Rightarrow> json" where
  "detail msg = JObj [(''detail'', JStr msg)]"

definition not_found :: "string \<Rightarrow> response" where
  "not_found model = Response 404 (detail (''No '' @ model @ '' matches the given query.''))"

definition not_authenticated :: response where
  "not_authenticated = Response 401 (detail ''Authentication credentials were not provided.'')"

text \<open>An uncaught \<open>IntegrityError\<close> ends the request with the server error page.\<close>

definition server_error :: "db_error \<Rightarrow> response" where
  "server_error e = Response 500 JNull"

section \<open>Authentication\<close>

datatype principal = Anonymous | Authenticated User

fun is_authenticated :: "principal \<Rightarrow> bool" where
  "is_authenticated Anonymous = False"
| "is_authenticated (Authenticated _) = True"

definition authenticate :: "db \<Rightarrow> request \<Rightarrow> response + principal" where
  "authenticate d r =
     (case req_token r of
        None \<Rightarrow> Inr Anonymous
      | Some k \<Rightarrow>
          (case get_row user_pk k (db_users d) of
             None \<Rightarrow> Inl (Response 401 (detail ''User not found''))
           | Some u \<Rightarrow> Inr (Authenticated u)))"

section \<open>Permission classes\<close>

datatype permission = AllowAny | IsAuthenticated | IsAuthenticatedOrReadOnly

text \<open>\<open>SAFE_METHODS\<close> are GET, HEAD and OPTIONS; of the methods modelled, GET.\<close>

fun safe_method :: "http_method \<Rightarrow> bool" where
  "safe_method GET = True"
| "safe_method _ = False"

fun has_permission :: "permission \<Rightarrow> http_method \<Rightarrow> principal \<Rightarrow> bool" where
  "has_permission AllowAny m p = True"
| "has_permission IsAuthenticated m p = is_authenticated p"
| "has_permission IsAuthenticatedOrReadOnly m p = (safe_method m \<or> is_authenticated p)"

text \<open>
  \<open>APIView.initial\<close>: authentication, then the permission check; the response of a
  refused check is 401 for an anonymous caller and 403 otherwise.
\<close>

definition initial :: "db \<Rightarrow> request \<Rightarrow> permission \<Rightarrow> response + principal" where
  "initial d r perm =
     (case authenticate d r of
        Inl resp \<Rightarrow> Inl resp
      | Inr p \<Rightarrow>
          (if has_permission perm (req_method r) p then Inr p
           else if is_authenticated p
           then Inl (Response 403 (detail ''You do not have permission to perform this action.''))
           else Inl not_authenticated))"

lemma initial_anonymous [simp]:
  "req_token r = None \<Longrightarrow>
   initial d r perm = (if has_permission perm (req_method r) Anonymous then Inr Anonymous
                       else Inl not_authenticated)"
  by (simp add: initial_def authenticate_def)

lemma initial_authenticated:
  assumes "keys_unique d" and "u \<in> set (db_users d)" and "req_token r = Some (user_pk u)"
  shows "initial d r perm = Inr (Authenticated u)"
proof -
  from assms(1) have "distinct (map user_pk (db_users d))" by (simp add: keys_unique_def)
  with assms(2) have "get_row user_pk (user_pk u) (db_users d) = Some u"
    by (simp add: get_row_unique)
  with assms(3) show ?thesis
    by (cases perm) (simp_all add: initial_def authenticate_def)
qed

lemma initial_AllowAny: "initial d r AllowAny = authenticate d r"
  by (simp add: initial_def split: sum.split)

end
