(* ===== verification/Serializers.thy ===== *)
theory Serializers
  imports Rest
begin

text \<open>
  \<open>src/blog/serializers.py\<close>: how request data is validated into the values a view saves,
  and how rows are rendered into the JSON a response carries. A field's validation is
  \<open>field_error list + 'a option\<close>: \<open>Inl\<close> the field's error messages, \<open>Inr None\<close> a field
  that is absent and may be (a partial update, or a field that is not required),
  \<open>Inr (Some v)\<close> its internal value. A serializer collects the errors of its writable
  fields in declaration order, as \<open>serializer.errors\<close> does; the fields are those the
  \<open>ModelSerializer\<close> builds from the model declarations of \<open>models.py\<close>.
  The email address validator of the framework is a parameter (\<open>email_ok\<close>): the
  theorems hold for any such validator.
\<close>

datatype field_error =
    Required | Null | Blank | Invalid | MaxLength nat | NullCharacters
  | InvalidSlug | InvalidEmail | DoesNotExist | IncorrectType | NoName | Unique string
  | UniqueTogether | InvalidUsername

type_synonym 'a field_result = "field_error list + 'a option"

type_synonym errors = "(string \<times> field_error list) list"

section \<open>Strings\<close>

fun digits_of :: "nat \<Rightarrow> string" where
  "digits_of n = (if n < 10 then [char_of (48 + n)] else digits_of (n div 10) @ [char_of (48 + n mod 10)])"

declare digits_of.simps [simp del]

definition str_int :: "int \<Rightarrow> string" where
  "str_int i = (if i < 0 then CHR ''-'' # digits_of (nat (- i)) else digits_of (nat i))"

definition is_space :: "char \<Rightarrow> bool" where
  "is_space c \<longleftrightarrow> c \<in> {CHR '' '', CHR 0x09, CHR 0x0A, CHR 0x0B, CHR 0x0C, CHR 0x0D}"

text \<open>Python's \<open>str.strip()\<close> on ASCII whitespace.\<close>

definition strip :: "string \<Rightarrow> string" where
  "strip s = rev (dropWhile is_space (rev (dropWhile is_space s)))"

definition is_digit :: "char \<Rightarrow> bool" where
  "is_digit c \<longleftrightarrow> (48::nat) \<le> of_char c \<and> of_char c \<le> (57::nat)"

text \<open>\<open>validate_slug\<close>: the regular expression \<open>^[-a-zA-Z0-9_]+\Z\<close>.\<close>

definition is_slug :: "string \<Rightarrow> bool" where
  "is_slug s \<longleftrightarrow> s \<noteq> [] \<and>
     (\<forall>c \<in> set s. is_digit c \<or> ((97::nat) \<le> of_char c \<and> of_char c \<le> (122::nat)) \<or>
                  ((65::nat) \<le> of_char c \<and> of_char c \<le> (90::nat)) \<or> c = CHR ''-'' \<or> c = CHR ''_'')"

fun nat_of_digits :: "string \<Rightarrow> nat" where
  "nat_of_digits [] = 0"
| "nat_of_digits (c # cs) = (of_char c - 48) * 10 ^ length cs + nat_of_digits cs"

section \<open>Fields\<close>

text \<open>
  \<open>CharField.run_validation\<close>: a blank value (empty after stripping) is refused unless
  \<open>allow_blank\<close>; then the empty-value check (absent: \<open>required\<close>, unless the update is
  partial; \<open>None\<close>: \<open>null\<close>); then \<open>to_internal_value\<close> (strings and integers, stripped;
  anything else \<open>invalid\<close>); then every validator of the field, whose errors are all
  reported, in the order the field holds them: those the \<open>ModelSerializer\<close> passes in
  (\<open>pre\<close>: the unique check of a unique column), \<open>max_length\<close>, the null-character
  check, and those the field class appends (\<open>post\<close>: the slug or email format).
\<close>

definition blank_input :: "val option \<Rightarrow> bool" where
  "blank_input v \<longleftrightarrow> (case v of Some (VStr s) \<Rightarrow> strip s = [] | _ \<Rightarrow> False)"

definition char_validators ::
  "(string \<Rightarrow> field_error list) \<Rightarrow> nat option \<Rightarrow> (string \<Rightarrow> field_error list) \<Rightarrow> string \<Rightarrow>
   field_error list" where
  "char_validators pre maxlen post s =
     pre s @
     (case maxlen of Some m \<Rightarrow> if m < length s then [MaxLength m] else [] | None \<Rightarrow> []) @
     (if CHR 0x00 \<in> set s then [NullCharacters] else []) @ post s"

definition checked :: "field_error list \<Rightarrow> 'a \<Rightarrow> 'a field_result" where
  "checked es x = (if es = [] then Inr (Some x) else Inl es)"

definition char_field ::
  "bool \<Rightarrow> bool \<Rightarrow> bool \<Rightarrow> (string \<Rightarrow> field_error list) \<Rightarrow> nat option \<Rightarrow>
   (string \<Rightarrow> field_error list) \<Rightarrow> val option \<Rightarrow> string field_result" where
  "char_field partial required allow_blank pre maxlen post v =
     (if blank_input v then (if allow_blank then Inr (Some []) else Inl [Blank])
      else case v of
        None \<Rightarrow> (if required \<and> \<not> partial then Inl [Required] else Inr None)
      | Some VNull \<Rightarrow> Inl [Null]
      | Some (VStr s) \<Rightarrow> (let x = strip s in checked (char_validators pre maxlen post x) x)
      | Some (VInt i) \<Rightarrow> (let x = str_int i in checked (char_validators pre maxlen post x) x)
      | Some _ \<Rightarrow> Inl [Invalid])"

definition no_check :: "string \<Rightarrow> field_error list" where
  "no_check s = []"

definition slug_check :: "string \<Rightarrow> field_error list" where
  "slug_check s = (if is_slug s then [] else [InvalidSlug])"

definition email_check :: "(string \<Rightarrow> bool) \<Rightarrow> string \<Rightarrow> field_error list" where
  "email_check email_ok s = (if email_ok s then [] else [InvalidEmail])"

text \<open>
  \<open>UniqueValidator\<close>: no other row (the instance being updated excepted) holds the value.
  The \<open>ModelSerializer\<close> gives it the model field's \<open>unique\<close> message (\<open>msg\<close>).
\<close>

definition unique_check ::
  "string \<Rightarrow> ('r \<Rightarrow> 'k) \<Rightarrow> ('r \<Rightarrow> string) \<Rightarrow> 'r list \<Rightarrow> 'k option \<Rightarrow> string \<Rightarrow>
   field_error list" where
  "unique_check msg key col rows inst s =
     (if \<exists>r \<in> set rows. col r = s \<and> Some (key r) \<noteq> inst then [Unique msg] else [])"

text \<open>
  \<open>PrimaryKeyRelatedField.to_internal_value\<close>: \<open>queryset.get(pk=data)\<close>; a key the
  table does not hold is \<open>does_not_exist\<close>, a value that is no key is \<open>incorrect_type\<close>.
  Keys arrive as integers or as strings of digits.
\<close>

definition pk_field ::
  "bool \<Rightarrow> ('r \<Rightarrow> nat) \<Rightarrow> 'r list \<Rightarrow> val option \<Rightarrow> nat field_result" where
  "pk_field partial key rows v =
     (let lookup = (\<lambda>k. if k \<in> key ` set rows then Inr (Some k) else Inl [DoesNotExist]) in
      case v of
        None \<Rightarrow> (if partial then Inr None else Inl [Required])
      | Some VNull \<Rightarrow> Inl [Null]
      | Some (VInt i) \<Rightarrow> (if i < 0 then Inl [DoesNotExist] else lookup (nat i))
      | Some (VStr s) \<Rightarrow> (if s \<noteq> [] \<and> (\<forall>c \<in> set s. is_digit c) then lookup (nat_of_digits s)
                          else Inl [IncorrectType])
      | Some _ \<Rightarrow> Inl [IncorrectType])"

text \<open>\<open>BooleanField\<close>: the framework's \<open>TRUE_VALUES\<close> and \<open>FALSE_VALUES\<close>.\<close>

definition bool_field :: "bool \<Rightarrow> val option \<Rightarrow> bool field_result" where
  "bool_field required v =
     (case v of
        None \<Rightarrow> (if required then Inl [Required] else Inr None)
      | Some VNull \<Rightarrow> Inl [Null]
      | Some (VBool b) \<Rightarrow> Inr (Some b)
      | Some (VInt i) \<Rightarrow> (if i = 1 then Inr (Some True) else if i = 0 then Inr (Some False)
                          else Inl [Invalid])
      | Some (VStr s) \<Rightarrow>
          (if s \<in> set [''t'', ''T'', ''y'', ''Y'', ''yes'', ''Yes'', ''YES'', ''true'', ''True'',
                      ''TRUE'', ''on'', ''On'', ''ON'', ''1''] then Inr (Some True)
           else if s \<in> set [''f'', ''F'', ''n'', ''N'', ''no'', ''No'', ''NO'', ''false'', ''False'',
                      ''FALSE'', ''off'', ''Off'', ''OFF'', ''0''] then Inr (Some False)
           else Inl [Invalid])
      | Some (VFile _) \<Rightarrow> Inl [Invalid])"

text \<open>\<open>ImageField\<close>: an uploaded file with a name; its content is not modelled.\<close>

definition image_field :: "bool \<Rightarrow> val option \<Rightarrow> string field_result" where
  "image_field partial v =
     (case v of
        None \<Rightarrow> (if partial then Inr None else Inl [Required])
      | Some VNull \<Rightarrow> Inl [Null]
      | Some (VFile name) \<Rightarrow> (if name = [] then Inl [NoName] else Inr (Some name))
      | Some _ \<Rightarrow> Inl [Invalid])"

section \<open>Collecting the errors of a serializer\<close>

definition err_of :: "string \<Rightarrow> 'a field_result \<Rightarrow> errors" where
  "err_of f r = (case r of Inl es \<Rightarrow> [(f, es)] | Inr _ \<Rightarrow> [])"

definition ok_of :: "'a field_result \<Rightarrow> 'a option" where
  "ok_of r = (case r of Inl _ \<Rightarrow> None | Inr x \<Rightarrow> x)"

text \<open>\<open>serializer.errors\<close> as the body of a 400 response: each field with its messages.\<close>

fun error_message :: "field_error \<Rightarrow> string" where
  "error_message Required = ''This field is required.''"
| "error_message Null = ''This field may not be null.''"
| "error_message Blank = ''This field may not be blank.''"
| "error_message Invalid = ''Not a valid string.''"
| "error_message (MaxLength m) = ''Ensure this field has no more than '' @ str_int (int m) @ '' characters.''"
| "error_message NullCharacters = ''Null characters are not allowed.''"
| "error_message InvalidSlug = ''Enter a valid slug.''"
| "error_message InvalidEmail = ''Enter a valid email address.''"
| "error_message DoesNotExist = ''Invalid pk - object does not exist.''"
| "error_message IncorrectType = ''Incorrect type. Expected pk value.''"
| "error_message NoName = ''No filename could be determined.''"
| "error_message (Unique msg) = msg"
| "error_message UniqueTogether = ''The fields user, news must make a unique set.''"
| "error_message InvalidUsername =
     ''Enter a valid username. This value may contain only letters, numbers, and @/./+/-/_ characters.''"

definition errors_json :: "errors \<Rightarrow> json" where
  "errors_json errs = JObj (map (\<lambda>(f, es). (f, JList (map (JStr \<circ> error_message) es))) errs)"

section \<open>CommentSerializer\<close>

text \<open>
  Writable fields, in the order of \<open>fields\<close>: \<open>news\<close> (the model's foreign key, required),
  \<open>name\<close> (\<open>max_length=100\<close>), \<open>email\<close> (\<open>EmailField\<close>, 254 characters) and \<open>comment\<close>
  (\<open>TextField\<close>). \<open>user\<close>, \<open>timestamp\<close> and \<open>user_name\<close> are read-only.
\<close>

record comment_input =
  ci_news :: "news_id option"
  ci_name :: "string option"
  ci_email :: "string option"
  ci_comment :: "string option"

definition comment_validate ::
  "(string \<Rightarrow> bool) \<Rightarrow> db \<Rightarrow> bool \<Rightarrow> data \<Rightarrow> errors + comment_input" where
  "comment_validate email_ok d partial dt =
     (let rn = pk_field partial news_pk (db_news d) (dt ''news'');
          rname = char_field partial True False no_check (Some 100) no_check (dt ''name'');
          remail = char_field partial True False no_check (Some 254) (email_check email_ok)
                     (dt ''email'');
          rtext = char_field partial True False no_check None no_check (dt ''comment'');
          errs = err_of ''news'' rn @ err_of ''name'' rname @ err_of ''email'' remail @
                 err_of ''comment'' rtext
      in if errs = [] then Inr \<lparr>ci_news = ok_of rn, ci_name = ok_of rname,
                                ci_email = ok_of remail, ci_comment = ok_of rtext\<rparr>
         else Inl errs)"

text \<open>
  \<open>get_user_name\<close>: the username of the comment's user. A stored comment always has one
  (the column is NOT NULL and a foreign key), so the source's fallback to \<open>obj.name\<close> is
  taken only for a row that names no existing user.
\<close>

definition get_user_name :: "db \<Rightarrow> Comment \<Rightarrow> string" where
  "get_user_name d c =
     (case get_row user_pk (comment_user c) (db_users d) of
        Some u \<Rightarrow> username u
      | None \<Rightarrow> comment_name c)"

definition comment_repr :: "db \<Rightarrow> Comment \<Rightarrow> json" where
  "comment_repr d c =
     JObj [(''id'', JInt (int (comment_pk c))), (''news'', JInt (int (comment_news c))),
           (''user'', JInt (int (comment_user c))), (''name'', JStr (comment_name c)),
           (''email'', JStr (comment_email c)), (''comment'', JStr (comment_text c)),
           (''timestamp'', JInt (int (comment_timestamp c))),
           (''user_name'', JStr (get_user_name d c))]"

section \<open>CategorySerializer\<close>

definition category_repr :: "Category \<Rightarrow> json" where
  "category_repr c =
     JObj [(''id'', JInt (int (cat_pk c))), (''name'', JStr (cat_name c)), (''slug'', JStr (cat_slug c))]"

text \<open>
  Writable fields: \<open>name\<close> and \<open>slug\<close>, both unique with 100 characters, the slug in slug
  format; \<open>id\<close> is read-only. \<open>inst\<close> is the key of the category an update validates
  against.
\<close>

record category_input =
  ki_name :: "string option"
  ki_slug :: "string option"

definition category_validate :: "db \<Rightarrow> cat_id option \<Rightarrow> bool \<Rightarrow> data \<Rightarrow> errors + category_input" where
  "category_validate d inst partial dt =
     (let rn = char_field partial True False
                 (unique_check ''category with this name already exists.'' cat_pk cat_name
                    (db_categories d) inst)
                 (Some 100) no_check (dt ''name'');
          rs = char_field partial True False
                 (unique_check ''category with this slug already exists.'' cat_pk cat_slug
                    (db_categories d) inst)
                 (Some 100) slug_check (dt ''slug'');
          errs = err_of ''name'' rn @ err_of ''slug'' rs
      in if errs = [] then Inr \<lparr>ki_name = ok_of rn, ki_slug = ok_of rs\<rparr> else Inl errs)"

section \<open>LikeSerializer\<close>

text \<open>
  Writable fields, in the order of \<open>fields\<close>: \<open>user\<close> and \<open>news\<close> (foreign keys, required
  because they form the \<open>unique_together\<close> pair) and \<open>is_liked\<close> (not required: the model
  gives a default); \<open>timestamp\<close> (\<open>auto_now_add\<close>) is read-only. Once the fields are valid
  the \<open>UniqueTogetherValidator\<close> runs: the pair the data names (a field a partial update
  leaves out is the instance's) may be held by no row but the instance; its error is a
  non-field error.
\<close>

record like_input =
  li_user :: "user_id option"
  li_news :: "news_id option"
  li_is_liked :: "bool option"

definition like_validate :: "db \<Rightarrow> Like option \<Rightarrow> bool \<Rightarrow> data \<Rightarrow> errors + like_input" where
  "like_validate d inst partial dt =
     (let ru = pk_field partial user_pk (db_users d) (dt ''user'');
          rn = pk_field partial news_pk (db_news d) (dt ''news'');
          rl = bool_field False (dt ''is_liked'');
          errs = err_of ''user'' ru @ err_of ''news'' rn @ err_of ''is_liked'' rl;
          vi = \<lparr>li_user = ok_of ru, li_news = ok_of rn, li_is_liked = ok_of rl\<rparr>;
          u = (if li_user vi = None then map_option like_user inst else li_user vi);
          n = (if li_news vi = None then map_option like_news inst else li_news vi)
      in if errs \<noteq> [] then Inl errs
         else case (u, n) of
           (Some u, Some n) \<Rightarrow>
             (if \<exists>l \<in> set (db_likes d). like_key l = (u, n) \<and> Some (like_pk l) \<noteq> map_option like_pk inst
              then Inl [(''non_field_errors'', [UniqueTogether])] else Inr vi)
         | _ \<Rightarrow> Inr vi)"

definition like_repr :: "Like \<Rightarrow> json" where
  "like_repr l =
     JObj [(''id'', JInt (int (like_pk l))), (''user'', JInt (int (like_user l))),
           (''news'', JInt (int (like_news l))), (''is_liked'', JBool (like_is_liked l)),
           (''timestamp'', JInt (int (like_timestamp l)))]"

section \<open>RegisterSerializer\<close>

text \<open>
  The serializer of \<open>RegisterView\<close> (declared in \<open>views.py\<close>) over Django's \<open>User\<close>:
  \<open>username\<close> (150 characters, \<open>UnicodeUsernameValidator\<close> \<open>^[\w.@+-]+\Z\<close>, unique with
  the message of the model field), \<open>email\<close> (\<open>blank=True\<close> on the model: not required,
  blank allowed; an email address of at most 254 characters) and \<open>password\<close> (128
  characters, write-only). Characters are bytes: a byte from 128 up is taken as part of the
  encoding of a non-ASCII letter, which \<open>\w\<close> accepts.
\<close>

definition is_username_char :: "char \<Rightarrow> bool" where
  "is_username_char c \<longleftrightarrow>
     is_digit c \<or> ((97::nat) \<le> of_char c \<and> of_char c \<le> (122::nat)) \<or>
     ((65::nat) \<le> of_char c \<and> of_char c \<le> (90::nat)) \<or> c \<in> set ''_.@+-'' \<or> (128::nat) \<le> of_char c"

definition username_check :: "string \<Rightarrow> field_error list" where
  "username_check s = (if s \<noteq> [] \<and> (\<forall>c \<in> set s. is_username_char c) then [] else [InvalidUsername])"

record register_input =
  reg_username :: "string option"
  reg_email :: "string option"
  reg_password :: "string option"

definition register_validate :: "(string \<Rightarrow> bool) \<Rightarrow> db \<Rightarrow> data \<Rightarrow> errors + register_input" where
  "register_validate email_ok d dt =
     (let ru = char_field False True False
                 (\<lambda>s. username_check s @
                       unique_check ''A user with that username already exists.'' user_pk username
                         (db_users d) None s)
                 (Some 150) no_check (dt ''username'');
          re = char_field False False True no_check (Some 254) (email_check email_ok) (dt ''email'');
          rp = char_field False True False no_check (Some 128) no_check (dt ''password'');
          errs = err_of ''username'' ru @ err_of ''email'' re @ err_of ''password'' rp
      in if errs = [] then Inr \<lparr>reg_username = ok_of ru, reg_email = ok_of re, reg_password = ok_of rp\<rparr>
         else Inl errs)"

text \<open>The representation leaves out the write-only password.\<close>

definition register_repr :: "User \<Rightarrow> json" where
  "register_repr u = JObj [(''username'', JStr (username u)), (''email'', JStr (user_email u))]"

section \<open>NewsSerializer\<close>

text \<open>\<open>get_likes_count\<close>: the likes whose flag is set; \<open>get_comments_count\<close>: all comments.\<close>

definition get_likes_count :: "db \<Rightarrow> News \<Rightarrow> nat" where
  "get_likes_count d n = count_rows (\<lambda>l. like_news l = news_pk n \<and> like_is_liked l) (db_likes d)"

definition get_comments_count :: "db \<Rightarrow> News \<Rightarrow> nat" where
  "get_comments_count d n = count_rows (\<lambda>c. comment_news c = news_pk n) (db_comments d)"

text \<open>
  \<open>category\<close> is the nested category (\<open>null\<close> for none), \<open>author\<close> the author's
  \<open>__str__\<close>, its username; \<open>category_id\<close> is write-only and not rendered.
\<close>

definition news_repr :: "db \<Rightarrow> News \<Rightarrow> json" where
  "news_repr d n =
     JObj [(''id'', JInt (int (news_pk n))), (''title'', JStr (news_title n)),
           (''slug'', JStr (news_slug n)),
           (''category'', (case news_category n of None \<Rightarrow> JNull
                          | Some k \<Rightarrow> (case get_row cat_pk k (db_categories d) of
                                        None \<Rightarrow> JNull | Some c \<Rightarrow> category_repr c))),
           (''author'', JStr (case get_row user_pk (news_author n) (db_users d) of
                                None \<Rightarrow> [] | Some u \<Rightarrow> username u)),
           (''image'', JStr (news_image n)), (''body'', JStr (news_body n)),
           (''date_posted'', JInt (int (news_date_posted n))),
           (''updated_at'', JInt (int (news_updated_at n))),
           (''is_breaking'', JBool (news_is_breaking n)),
           (''likes_count'', JInt (int (get_likes_count d n))),
           (''comments_count'', JInt (int (get_comments_count d n)))]"

text \<open>
  Writable fields, in the order of \<open>fields\<close>: \<open>title\<close> (255 characters), \<open>slug\<close> (unique,
  255 characters, slug format), \<open>category_id\<close> (a category's key, required: the field is
  declared without \<open>required=False\<close> or \<open>allow_null\<close>), \<open>image\<close>, \<open>body\<close> and
  \<open>is_breaking\<close> (not required: the model gives a default). \<open>inst\<close> is the key of the
  article an update validates against.
\<close>

record news_input =
  ni_title :: "string option"
  ni_slug :: "string option"
  ni_category :: "cat_id option"
  ni_image :: "string option"
  ni_body :: "string option"
  ni_is_breaking :: "bool option"

definition news_validate :: "db \<Rightarrow> news_id option \<Rightarrow> bool \<Rightarrow> data \<Rightarrow> errors + news_input" where
  "news_validate d inst partial dt =
     (let rt = char_field partial True False no_check (Some 255) no_check (dt ''title'');
          rs = char_field partial True False
                 (unique_check ''news with this slug already exists.'' news_pk news_slug (db_news d) inst)
                 (Some 255) slug_check (dt ''slug'');
          rc = pk_field partial cat_pk (db_categories d) (dt ''category_id'');
          ri = image_field partial (dt ''image'');
          rb = char_field partial True False no_check None no_check (dt ''body'');
          rk = bool_field False (dt ''is_breaking'');
          errs = err_of ''title'' rt @ err_of ''slug'' rs @ err_of ''category_id'' rc @
                 err_of ''image'' ri @ err_of ''body'' rb @ err_of ''is_breaking'' rk
      in if errs = [] then Inr \<lparr>ni_title = ok_of rt, ni_slug = ok_of rs, ni_category = ok_of rc,
                                ni_image = ok_of ri, ni_body = ok_of rb, ni_is_breaking = ok_of rk\<rparr>
         else Inl errs)"

section \<open>Facts\<close>

lemma err_of_simps [simp]:
  "err_of f (Inl es) = [(f, es)]" "err_of f (Inr x) = []"
  by (simp_all add: err_of_def)

lemma ok_of_simps [simp]:
  "ok_of (Inl es) = None" "ok_of (Inr x) = x"
  by (simp_all add: ok_of_def)

lemma char_field_required:
  assumes "char_field False True False pre m post v = Inr x"
  shows "\<exists>s. x = Some s \<and> pre s = []"
  using assms
  by (cases v rule: option.exhaust; cases "the v")
     (auto simp: char_field_def checked_def char_validators_def blank_input_def Let_def split: if_splits)

lemma pk_field_required:
  assumes "pk_field False key rows v = Inr x"
  shows "\<exists>k. x = Some k \<and> k \<in> key ` set rows"
  using assms
  by (cases v rule: option.exhaust; cases "the v") (auto simp: pk_field_def Let_def split: if_splits)

lemma news_validate_create:
  assumes "news_validate d None False dt = Inr vi"
  shows "\<exists>s. ni_slug vi = Some s \<and> s \<notin> news_slug ` set (db_news d)"
    and "\<exists>c. ni_category vi = Some c \<and> c \<in> cat_ids d"
proof -
  from assms obtain rs rc where
    rs: "char_field False True False
            (unique_check ''news with this slug already exists.'' news_pk news_slug (db_news d) None)
            (Some 255) slug_check (dt ''slug'') = Inr rs" "ni_slug vi = rs"
    and rc: "pk_field False cat_pk (db_categories d) (dt ''category_id'') = Inr rc" "ni_category vi = rc"
    by (auto simp: news_validate_def Let_def err_of_def ok_of_def split: if_splits sum.splits)
  from char_field_required [OF rs(1)] rs(2)
  show "\<exists>s. ni_slug vi = Some s \<and> s \<notin> news_slug ` set (db_news d)"
    by (auto simp: unique_check_def split: if_splits)
  from pk_field_required [OF rc(1)] rc(2)
  show "\<exists>c. ni_category vi = Some c \<and> c \<in> cat_ids d" by auto
qed


lemma nat_of_digits_append:
  "nat_of_digits (xs @ ys) = nat_of_digits xs * 10 ^ length ys + nat_of_digits ys"
  by (induction xs) (simp_all add: algebra_simps power_add)

lemma digits_of_chars: "c \<in> set (digits_of n) \<Longrightarrow> is_digit c \<and> of_char c < (58::nat)"
proof (induction n rule: digits_of.induct)
  case (1 n)
  then show ?case
    by (subst (asm) digits_of.simps) (auto simp: is_digit_def of_char_of split: if_splits)
qed

lemma digits_of_nonempty: "digits_of n \<noteq> []"
  by (subst digits_of.simps) simp

lemma nat_of_digits_of: "nat_of_digits (digits_of n) = n"
proof (induction n rule: digits_of.induct)
  case (1 n)
  show ?case
  proof (cases "n < 10")
    case True
    then show ?thesis by (subst digits_of.simps) (simp add: of_char_of)
  next
    case False
    then have "nat_of_digits (digits_of n) = nat_of_digits (digits_of (n div 10)) * 10 + n mod 10"
      by (subst digits_of.simps) (simp add: nat_of_digits_append of_char_of)
    with 1 False show ?thesis by simp
  qed
qed

lemma strip_digits: "(\<forall>c \<in> set s. is_digit c) \<Longrightarrow> strip s = s"
proof -
  assume d: "\<forall>c \<in> set s. is_digit c"
  then have "\<forall>c \<in> set s. \<not> is_space c" by (auto simp: is_digit_def is_space_def)
  then show ?thesis by (simp add: strip_def dropWhile_none)
qed

lemma unique_check_ok:
  "unique_check msg key col rows inst s = [] \<longleftrightarrow> (\<forall>r \<in> set rows. col r = s \<longrightarrow> Some (key r) = inst)"
  by (auto simp: unique_check_def)

lemma char_field_str:
  assumes "char_field partial req ab pre m post (Some (VStr s)) = Inr (Some x)"
  shows "x = strip s"
  using assms
  by (auto simp: char_field_def checked_def blank_input_def Let_def split: if_splits)

lemma category_validate_create:
  assumes "category_validate d None False dt = Inr vi"
  shows "\<exists>nm sl. ki_name vi = Some nm \<and> ki_slug vi = Some sl \<and>
           nm \<notin> cat_name ` set (db_categories d) \<and> sl \<notin> cat_slug ` set (db_categories d)"
proof -
  from assms obtain rn rs where
    rn: "char_field False True False
            (unique_check ''category with this name already exists.'' cat_pk cat_name (db_categories d) None)
            (Some 100) no_check (dt ''name'') = Inr rn" "ki_name vi = rn"
    and rs: "char_field False True False
            (unique_check ''category with this slug already exists.'' cat_pk cat_slug (db_categories d) None)
            (Some 100) slug_check (dt ''slug'') = Inr rs" "ki_slug vi = rs"
    by (auto simp: category_validate_def Let_def err_of_def ok_of_def split: if_splits sum.splits)
  from char_field_required [OF rn(1)] char_field_required [OF rs(1)] rn(2) rs(2) show ?thesis
    by (auto simp: unique_check_ok)
qed

lemma like_validate_fields:
  assumes "like_validate d inst partial dt = Inr vi"
  shows "pk_field partial user_pk (db_users d) (dt ''user'') = Inr (li_user vi) \<and>
         pk_field partial news_pk (db_news d) (dt ''news'') = Inr (li_news vi) \<and>
         bool_field False (dt ''is_liked'') = Inr (li_is_liked vi)"
  using assms
  by (auto simp: like_validate_def Let_def err_of_def ok_of_def split: sum.splits if_splits option.splits)

lemma like_validate_unique:
  assumes "like_validate d inst partial dt = Inr vi"
    and "(if li_user vi = None then map_option like_user inst else li_user vi) = Some u"
    and "(if li_news vi = None then map_option like_news inst else li_news vi) = Some n"
  shows "\<forall>l \<in> set (db_likes d). like_key l = (u, n) \<longrightarrow> Some (like_pk l) = map_option like_pk inst"
proof -
  from assms(1) have ok: "like_validate d inst partial dt = Inr
      \<lparr>li_user = li_user vi, li_news = li_news vi, li_is_liked = li_is_liked vi\<rparr>" by simp
  from like_validate_fields [OF assms(1)] ok assms(2,3) show ?thesis
    by (simp add: like_validate_def Let_def split: if_splits)
qed

lemma like_validate_full:
  assumes "like_validate d inst False dt = Inr vi"
  shows "\<exists>u n. li_user vi = Some u \<and> li_news vi = Some n \<and> u \<in> user_ids d \<and> n \<in> news_ids d \<and>
           (\<forall>l \<in> set (db_likes d). like_key l = (u, n) \<longrightarrow> Some (like_pk l) = map_option like_pk inst)"
proof -
  from like_validate_fields [OF assms] pk_field_required obtain u n
    where un: "li_user vi = Some u" "u \<in> user_ids d" "li_news vi = Some n" "n \<in> news_ids d"
    by metis
  with like_validate_unique [OF assms, of u n] show ?thesis by simp
qed

lemma register_validate_ok:
  assumes "register_validate email_ok d dt = Inr vi"
  shows "\<exists>nm. reg_username vi = Some nm \<and> nm \<notin> username ` set (db_users d)"
    and "dt ''password'' = Some (VStr pw) \<Longrightarrow> reg_password vi = Some (strip pw)"
proof -
  from assms obtain ru rp where
    ru: "char_field False True False
           (\<lambda>s. username_check s @
                 unique_check ''A user with that username already exists.'' user_pk username (db_users d) None s)
           (Some 150) no_check (dt ''username'') = Inr ru" "reg_username vi = ru"
    and rp: "char_field False True False no_check (Some 128) no_check (dt ''password'') = Inr rp"
       "reg_password vi = rp"
    by (auto simp: register_validate_def Let_def err_of_def ok_of_def split: if_splits sum.splits)
  from char_field_required [OF ru(1)] ru(2)
  show "\<exists>nm. reg_username vi = Some nm \<and> nm \<notin> username ` set (db_users d)"
    by (auto simp: unique_check_ok)
  assume "dt ''password'' = Some (VStr pw)"
  with char_field_required [OF rp(1)] rp char_field_str show "reg_password vi = Some (strip pw)"
    by metis
qed

text \<open>
  C12: the likes_count the article serializer reports (likes whose flag is set) equals the count the like action reports (all like rows) exactly when every like row of the article has its flag set.
\<close>

theorem likes_count_divergence:
  "get_likes_count d n = like_set_count d (news_pk n) \<longleftrightarrow>
   (\<forall>l \<in> set (db_likes d). like_news l = news_pk n \<longrightarrow> like_is_liked l)"
  by (simp add: get_likes_count_def like_set_count_def count_rows_conj_eq)

end
