(* ===== verification/News_Views.thy ===== *)
theory News_Views
  imports Serializers
begin

text \<open>
  \<open>NewsViewSet\<close> of \<open>src/blog/views.py\<close>: the article queryset with its optional
  category filter, the lookup of one article by slug in that queryset, and the handlers
  of the viewset: list, retrieve, create (the author forced to the caller), update,
  destroy, and the custom \<open>like\<close> action that toggles the caller's like. A handler maps
  a database and a request to the response and the database after the request.
\<close>

type_synonym handler = "db \<Rightarrow> request \<Rightarrow> response \<times> db"

fun request_user :: "principal \<Rightarrow> user_id option" where
  "request_user Anonymous = None"
| "request_user (Authenticated u) = Some (user_pk u)"

definition dflt :: "'a \<Rightarrow> 'a option \<Rightarrow> 'a" where
  "dflt x v = (case v of None \<Rightarrow> x | Some y \<Rightarrow> y)"

section \<open>The queryset\<close>

text \<open>\<open>category__slug\<close>: the slug of the article's category, through the foreign key.\<close>

definition news_category_slug :: "db \<Rightarrow> News \<Rightarrow> string option" where
  "news_category_slug d n =
     (case news_category n of
        None \<Rightarrow> None
      | Some k \<Rightarrow> map_option cat_slug (get_row cat_pk k (db_categories d)))"

text \<open>\<open>News.objects.all()\<close> under \<open>Meta.ordering = ['-date_posted']\<close>, newest first.\<close>

definition news_ordered :: "db \<Rightarrow> News list" where
  "news_ordered d = sort_key (\<lambda>n. - int (news_date_posted n)) (db_news d)"

text \<open>
  \<open>get_queryset\<close>: the filter applies when the \<open>category\<close> parameter is present and
  non-empty (\<open>if category_slug:\<close>).
\<close>

definition news_get_queryset :: "db \<Rightarrow> request \<Rightarrow> News list" where
  "news_get_queryset d r =
     (let queryset = news_ordered d
      in case req_query r ''category'' of
           Some category_slug \<Rightarrow>
             (if category_slug \<noteq> [] then filter (\<lambda>n. news_category_slug d n = Some category_slug) queryset
              else queryset)
         | None \<Rightarrow> queryset)"

text \<open>\<open>get_object\<close>: the article with the slug, looked up in the filtered queryset.\<close>

definition news_get_object :: "db \<Rightarrow> request \<Rightarrow> string \<Rightarrow> News option" where
  "news_get_object d r slug = find (\<lambda>n. news_slug n = slug) (news_get_queryset d r)"

section \<open>Handlers\<close>

definition news_list :: handler where
  "news_list d r =
     (case initial d r IsAuthenticatedOrReadOnly of
        Inl resp \<Rightarrow> (resp, d)
      | Inr p \<Rightarrow> (Response 200 (JList (map (news_repr d) (news_get_queryset d r))), d))"

definition news_retrieve :: "string \<Rightarrow> handler" where
  "news_retrieve slug d r =
     (case initial d r IsAuthenticatedOrReadOnly of
        Inl resp \<Rightarrow> (resp, d)
      | Inr p \<Rightarrow>
          (case news_get_object d r slug of
             None \<Rightarrow> (not_found ''News'', d)
           | Some n \<Rightarrow> (Response 200 (news_repr d n), d)))"

text \<open>\<open>create\<close> with \<open>perform_create\<close>: \<open>serializer.save(author=self.request.user)\<close>.\<close>

definition news_create :: handler where
  "news_create d r =
     (case initial d r IsAuthenticatedOrReadOnly of
        Inl resp \<Rightarrow> (resp, d)
      | Inr p \<Rightarrow>
          (case news_validate d None False (req_data r) of
             Inl errs \<Rightarrow> (Response 400 (errors_json errs), d)
           | Inr vi \<Rightarrow>
               (case insert_news d (req_uuid r) (ni_category vi) (request_user p)
                       (dflt [] (ni_title vi)) (dflt [] (ni_slug vi)) (dflt [] (ni_image vi))
                       (dflt [] (ni_body vi)) (dflt False (ni_is_breaking vi)) (req_now r) of
                  Inl e \<Rightarrow> (server_error e, d)
                | Inr (n, d') \<Rightarrow> (Response 201 (news_repr d' n), d'))))"

text \<open>\<open>update\<close> (PUT) and \<open>partial_update\<close> (PATCH): the validated fields overwrite the article's.\<close>

definition news_update :: "bool \<Rightarrow> string \<Rightarrow> handler" where
  "news_update partial slug d r =
     (case initial d r IsAuthenticatedOrReadOnly of
        Inl resp \<Rightarrow> (resp, d)
      | Inr p \<Rightarrow>
          (case news_get_object d r slug of
             None \<Rightarrow> (not_found ''News'', d)
           | Some n \<Rightarrow>
               (case news_validate d (Some (news_pk n)) partial (req_data r) of
                  Inl errs \<Rightarrow> (Response 400 (errors_json errs), d)
                | Inr vi \<Rightarrow>
                    (let n1 = n\<lparr>news_title := dflt (news_title n) (ni_title vi),
                                news_slug := dflt (news_slug n) (ni_slug vi),
                                news_category := (case ni_category vi of None \<Rightarrow> news_category n
                                                  | Some c \<Rightarrow> Some c),
                                news_image := (case ni_image vi of None \<Rightarrow> news_image n
                                               | Some i \<Rightarrow> ''news_images/'' @ i),
                                news_body := dflt (news_body n) (ni_body vi),
                                news_is_breaking := dflt (news_is_breaking n) (ni_is_breaking vi)\<rparr>
                     in case save_news d n1 (req_now r) of
                          Inl e \<Rightarrow> (server_error e, d)
                        | Inr (n', d') \<Rightarrow> (Response 200 (news_repr d' n'), d')))))"

definition news_destroy :: "string \<Rightarrow> handler" where
  "news_destroy slug d r =
     (case initial d r IsAuthenticatedOrReadOnly of
        Inl resp \<Rightarrow> (resp, d)
      | Inr p \<Rightarrow>
          (case news_get_object d r slug of
             None \<Rightarrow> (not_found ''News'', d)
           | Some n \<Rightarrow> (Response 204 JNull, delete_news d (news_pk n))))"

text \<open>
  The \<open>like\<close> action (\<open>permission_classes=[IsAuthenticated]\<close>): find or create the
  caller's like of the article; an existing one is deleted. The response reports the new
  state and \<open>news.like_set.count()\<close> after the change. Behind \<open>IsAuthenticated\<close> the
  caller is a user; the anonymous branch, where the ORM would reject \<open>AnonymousUser\<close>,
  is not reached.
\<close>

definition like :: "string \<Rightarrow> handler" where
  "like slug d r =
     (case initial d r IsAuthenticated of
        Inl resp \<Rightarrow> (resp, d)
      | Inr p \<Rightarrow>
          (case news_get_object d r slug of
             None \<Rightarrow> (not_found ''News'', d)
           | Some news \<Rightarrow>
               (case request_user p of
                  None \<Rightarrow> (Response 500 JNull, d)
                | Some user \<Rightarrow>
                    (case get_or_create_like d (news_pk news) user (req_now r) of
                       Inl e \<Rightarrow> (server_error e, d)
                     | Inr (like_obj, created, d1) \<Rightarrow>
                         (let (liked, d2) = (if \<not> created then (False, delete_like d1 (like_pk like_obj))
                                             else (True, d1))
                          in (Response 200 (JObj [(''liked'', JBool liked),
                                                  (''likes_count'', JInt (int (like_set_count d2 (news_pk news))))]),
                              d2))))))"

section \<open>Abstract specification of the like action\<close>

text \<open>
  What the action promises (spec section 4.2): the set of (user, article) pairs the
  \<open>Like\<close> table stands for is toggled at the caller's pair, so that a second call always
  reverses the first.
\<close>

definition toggle_pair :: "('a \<times> 'b) set \<Rightarrow> 'a \<times> 'b \<Rightarrow> ('a \<times> 'b) set" where
  "toggle_pair S p = (if p \<in> S then S - {p} else insert p S)"

section \<open>The queryset and the lookup\<close>


lemma news_get_queryset_subset: "set (news_get_queryset d r) \<subseteq> set (db_news d)"
  by (auto simp: news_get_queryset_def news_ordered_def Let_def split: option.splits)

lemma news_get_object_SomeD:
  "news_get_object d r slug = Some n \<Longrightarrow> n \<in> set (db_news d) \<and> news_slug n = slug"
  using news_get_queryset_subset
  by (auto simp: news_get_object_def find_Some_iff dest: nth_mem)

lemma news_get_object_cong:
  assumes "db_news d' = db_news d" and "db_categories d' = db_categories d"
  shows "news_get_object d' r slug = news_get_object d r slug"
proof -
  from assms(2) have "news_category_slug d' = news_category_slug d"
    by (simp add: news_category_slug_def fun_eq_iff split: option.split)
  with assms(1) show ?thesis
    by (simp add: news_get_object_def news_get_queryset_def news_ordered_def Let_def split: option.split)
qed

lemma like_found:
  assumes wf: "wf_db d" and u: "u \<in> set (db_users d)" and tok: "req_token r = Some (user_pk u)"
    and obj: "news_get_object d r slug = Some n"
  shows "like slug d r =
           (case get_or_create_like d (news_pk n) (user_pk u) (req_now r) of
              Inl e \<Rightarrow> (server_error e, d)
            | Inr (l, created, d1) \<Rightarrow>
                (let (liked, d2) = (if \<not> created then (False, delete_like d1 (like_pk l)) else (True, d1))
                 in (Response 200 (JObj [(''liked'', JBool liked),
                                          (''likes_count'', JInt (int (like_set_count d2 (news_pk n))))]),
                     d2)))"
proof -
  from wf have "keys_unique d" by (simp add: wf_db_def)
  from initial_authenticated [OF this u tok]
  have "initial d r IsAuthenticated = Inr (Authenticated u)" .
  with obj show ?thesis by (simp add: like_def)
qed

lemma like_existing:
  assumes wf: "wf_db d" and u: "u \<in> set (db_users d)" and tok: "req_token r = Some (user_pk u)"
    and obj: "news_get_object d r slug = Some n"
    and l: "l \<in> set (db_likes d)" "like_key l = (user_pk u, news_pk n)"
  shows "like slug d r =
           (Response 200 (JObj [(''liked'', JBool False),
              (''likes_count'', JInt (int (like_set_count (delete_like d (like_pk l)) (news_pk n))))]),
            delete_like d (like_pk l))"
proof -
  from wf have "keys_unique d" by (simp add: wf_db_def)
  from get_or_create_like_existing [OF this l]
  have "get_or_create_like d (news_pk n) (user_pk u) (req_now r) = Inr (l, False, d)" .
  with like_found [OF wf u tok obj] show ?thesis by simp
qed

lemma like_new:
  assumes wf: "wf_db d" and u: "u \<in> set (db_users d)" and tok: "req_token r = Some (user_pk u)"
    and obj: "news_get_object d r slug = Some n"
    and p: "(user_pk u, news_pk n) \<notin> liked_pairs d"
  defines "l \<equiv> \<lparr>like_pk = seq_like d, like_user = user_pk u, like_news = news_pk n,
                 like_is_liked = True, like_timestamp = req_now r\<rparr>"
  defines "d' \<equiv> d\<lparr>db_likes := db_likes d @ [l], seq_like := Suc (seq_like d)\<rparr>"
  shows "like slug d r =
           (Response 200 (JObj [(''liked'', JBool True),
              (''likes_count'', JInt (int (like_set_count d' (news_pk n))))]), d')"
proof -
  from obj have "n \<in> set (db_news d)" by (simp add: news_get_object_SomeD)
  with p u have "get_or_create_like d (news_pk n) (user_pk u) (req_now r) = Inr (l, True, d')"
    unfolding l_def d'_def by (intro get_or_create_like_new) auto
  with like_found [OF wf u tok obj] show ?thesis by simp
qed

lemma like_toggle_step:
  assumes wf: "wf_db d" and u: "u \<in> set (db_users d)" and tok: "req_token r = Some (user_pk u)"
    and obj: "news_get_object d r slug = Some n"
    and run: "like slug d r = (resp, d')"
  shows "liked_pairs d' = toggle_pair (liked_pairs d) (user_pk u, news_pk n) \<and>
         resp = Response 200 (JObj [(''liked'', JBool ((user_pk u, news_pk n) \<in> liked_pairs d')),
                                    (''likes_count'', JInt (int (like_set_count d' (news_pk n))))])"
proof (cases "(user_pk u, news_pk n) \<in> liked_pairs d")
  case True
  then obtain l where l: "l \<in> set (db_likes d)" "like_key l = (user_pk u, news_pk n)"
    by (auto simp: liked_pairs_def)
  from wf have ku: "keys_unique d" by (simp add: wf_db_def)
  from like_existing [OF wf u tok obj l] run
  have d': "d' = delete_like d (like_pk l)" and resp: "resp = Response 200 (JObj [(''liked'', JBool False),
              (''likes_count'', JInt (int (like_set_count d' (news_pk n))))])" by auto
  from delete_like_pairs [OF ku l(1)] l(2) d'
  have "liked_pairs d' = liked_pairs d - {(user_pk u, news_pk n)}" by simp
  with True resp show ?thesis by (simp add: toggle_pair_def)
next
  case False
  from like_new [OF wf u tok obj False] run
  have d': "d' = d\<lparr>db_likes := db_likes d @ [\<lparr>like_pk = seq_like d, like_user = user_pk u,
                    like_news = news_pk n, like_is_liked = True, like_timestamp = req_now r\<rparr>],
                    seq_like := Suc (seq_like d)\<rparr>"
    and resp: "resp = Response 200 (JObj [(''liked'', JBool True),
              (''likes_count'', JInt (int (like_set_count d' (news_pk n))))])" by auto
  from d' have "liked_pairs d' = insert (user_pk u, news_pk n) (liked_pairs d)"
    by (auto simp: liked_pairs_def like_key_def)
  with False resp show ?thesis by (simp add: toggle_pair_def)
qed


text \<open>
  C1: the like action refines the abstract toggle. For an authenticated caller and an article found by its slug, the set of (user, article) pairs stored in the Like table afterwards is the old set with the caller's pair toggled, and the response reports whether the pair is now liked together with the article's like count after the change.
\<close>

theorem like_toggles:
  assumes "wf_db d" and "u \<in> set (db_users d)" and "req_token r = Some (user_pk u)"
    and "news_get_object d r slug = Some n"
    and "like slug d r = (resp, d')"
  shows "liked_pairs d' = toggle_pair (liked_pairs d) (user_pk u, news_pk n) \<and>
         resp = Response 200 (JObj [(''liked'', JBool ((user_pk u, news_pk n) \<in> liked_pairs d')),
                                    (''likes_count'', JInt (int (like_set_count d' (news_pk n))))])"
  using assms by (rule like_toggle_step)

lemma get_or_create_like_frame:
  assumes "get_or_create_like d n u t = Inr (l, c, d')"
  shows "db_users d' = db_users d \<and> db_categories d' = db_categories d \<and>
         db_news d' = db_news d \<and> db_comments d' = db_comments d"
  using assms
  by (auto simp: get_or_create_like_def insert_like_def Let_def split: list.splits if_splits sum.splits)

lemma like_db_cases:
  assumes "like slug d r = (resp, d')"
  obtains (same) "d' = d"
    | (created) n u l where "get_or_create_like d n u (req_now r) = Inr (l, True, d')"
    | (deleted) n u l d1 where "get_or_create_like d n u (req_now r) = Inr (l, False, d1)"
        and "d' = delete_like d1 (like_pk l)"
  using assms
  by (auto simp: like_def Let_def split: sum.splits option.splits if_splits prod.splits)

lemma like_frame:
  assumes "like slug d r = (resp, d')"
  shows "db_users d' = db_users d \<and> db_categories d' = db_categories d \<and>
         db_news d' = db_news d \<and> db_comments d' = db_comments d"
  using assms
proof (cases rule: like_db_cases)
  case (deleted n u l d1)
  then show ?thesis by (auto simp: delete_like_def dest: get_or_create_like_frame)
qed (auto dest: get_or_create_like_frame)

lemma like_wf:
  assumes "wf_db d" and "like slug d r = (resp, d')"
  shows "wf_db d'"
  using assms(2)
proof (cases rule: like_db_cases)
  case same
  with assms(1) show ?thesis by simp
next
  case (created n u l)
  with assms(1) show ?thesis by (rule get_or_create_like_wf)
next
  case (deleted n u l d1)
  from assms(1) deleted(1) have "wf_db d1" by (rule get_or_create_like_wf)
  with deleted(2) show ?thesis by (simp add: delete_like_wf)
qed

lemma like_iterate:
  assumes wf: "wf_db d" and u: "u \<in> set (db_users d)" and tok: "req_token r = Some (user_pk u)"
    and obj: "news_get_object d r slug = Some n"
  defines "p \<equiv> (user_pk u, news_pk n)"
  shows "wf_db (((\<lambda>d. snd (like slug d r)) ^^ k) d) \<and>
         db_users (((\<lambda>d. snd (like slug d r)) ^^ k) d) = db_users d \<and>
         db_news (((\<lambda>d. snd (like slug d r)) ^^ k) d) = db_news d \<and>
         db_categories (((\<lambda>d. snd (like slug d r)) ^^ k) d) = db_categories d \<and>
         (p \<in> liked_pairs (((\<lambda>d. snd (like slug d r)) ^^ k) d) \<longleftrightarrow> (p \<in> liked_pairs d) \<noteq> odd k)"
proof (induction k)
  case 0
  from wf show ?case by simp
next
  case (Suc k)
  let ?dk = "((\<lambda>d. snd (like slug d r)) ^^ k) d"
  obtain resp d' where run: "like slug ?dk r = (resp, d')" by (cases "like slug ?dk r")
  then have step: "((\<lambda>d. snd (like slug d r)) ^^ Suc k) d = d'" by simp
  from Suc.IH have wfk: "wf_db ?dk" by simp
  from Suc.IH u have uk: "u \<in> set (db_users ?dk)" by simp
  have objk: "news_get_object ?dk r slug = Some n"
    using news_get_object_cong [of ?dk d r slug] Suc.IH obj by simp
  from like_toggle_step [OF wfk uk tok objk run]
  have "liked_pairs d' = toggle_pair (liked_pairs ?dk) p" by (simp add: p_def)
  moreover note like_frame [OF run] like_wf [OF wfk run]
  moreover from Suc.IH have "p \<in> liked_pairs ?dk \<longleftrightarrow> (p \<in> liked_pairs d) \<noteq> odd k" by simp
  ultimately show ?case using Suc.IH unfolding step by (auto simp: toggle_pair_def)
qed


text \<open>
  C2: starting from no like of the caller on the article, calling the like action k times in sequence leaves exactly k mod 2 Like rows for the (caller, article) pair: one after an odd number of calls, none after an even number.
\<close>

theorem like_parity:
  assumes wf: "wf_db d" and u: "u \<in> set (db_users d)" and tok: "req_token r = Some (user_pk u)"
    and obj: "news_get_object d r slug = Some n"
    and none: "(user_pk u, news_pk n) \<notin> liked_pairs d"
  shows "count_rows (\<lambda>l. like_key l = (user_pk u, news_pk n))
           (db_likes (((\<lambda>d. snd (like slug d r)) ^^ k) d)) = k mod 2"
proof -
  let ?dk = "((\<lambda>d. snd (like slug d r)) ^^ k) d"
  have inv: "wf_db ?dk \<and> ((user_pk u, news_pk n) \<in> liked_pairs ?dk \<longleftrightarrow> ((user_pk u, news_pk n) \<in> liked_pairs d) \<noteq> odd k)"
    using like_iterate [OF wf u tok obj, of k] by blast
  with none have mem: "(user_pk u, news_pk n) \<in> like_key ` set (db_likes ?dk) \<longleftrightarrow> odd k"
    by (simp add: liked_pairs_def)
  from inv have "distinct (map like_key (db_likes ?dk))" by (simp add: wf_defs)
  then have "count_rows (\<lambda>l. like_key l = (user_pk u, news_pk n)) (db_likes ?dk) =
             (if (user_pk u, news_pk n) \<in> like_key ` set (db_likes ?dk) then 1 else 0)"
    by (rule count_key_distinct)
  with mem show ?thesis by (simp add: odd_iff_mod_2_eq_one even_iff_mod_2_eq_zero)
qed

lemma news_ordered_sorted:
  "sorted_wrt (\<lambda>a b. news_date_posted b \<le> news_date_posted a) (news_ordered d)"
  unfolding news_ordered_def by (rule sorted_desc_sort_key)

lemma news_category_slug_known:
  "news_category_slug d n = Some s \<Longrightarrow> s \<in> cat_slug ` set (db_categories d)"
  by (auto simp: news_category_slug_def dest: get_row_SomeD split: option.splits)


text \<open>
  C7: listing articles with a non-empty category parameter returns exactly the articles whose category has that slug (as a multiset), newest first, and changes nothing.
\<close>

theorem news_list_category_filter:
  assumes tok: "req_token r = None" and get: "req_method r = GET"
    and q: "req_query r ''category'' = Some s" and ne: "s \<noteq> []"
  shows "\<exists>xs. news_list d r = (Response 200 (JList (map (news_repr d) xs)), d) \<and>
              mset xs = mset (filter (\<lambda>n. news_category_slug d n = Some s) (db_news d)) \<and>
              sorted_wrt (\<lambda>a b. news_date_posted b \<le> news_date_posted a) xs"
proof -
  let ?xs = "filter (\<lambda>n. news_category_slug d n = Some s) (news_ordered d)"
  have "news_list d r = (Response 200 (JList (map (news_repr d) ?xs)), d)"
    using assms by (simp add: news_list_def news_get_queryset_def)
  moreover have "mset ?xs = mset (filter (\<lambda>n. news_category_slug d n = Some s) (db_news d))"
    by (simp add: news_ordered_def mset_filter)
  moreover have "sorted_wrt (\<lambda>a b. news_date_posted b \<le> news_date_posted a) ?xs"
    using news_ordered_sorted by (rule sorted_wrt_filter)
  ultimately show ?thesis by blast
qed


lemma news_list_unknown_category:
  assumes tok: "req_token r = None" and get: "req_method r = GET"
    and q: "req_query r ''category'' = Some s" and ne: "s \<noteq> []"
    and unknown: "s \<notin> cat_slug ` set (db_categories d)"
  shows "news_list d r = (Response 200 (JList []), d)"
proof -
  from unknown have "filter (\<lambda>n. news_category_slug d n = Some s) (news_ordered d) = []"
    by (auto simp: filter_empty_conv dest: news_category_slug_known)
  with assms show ?thesis by (simp add: news_list_def news_get_queryset_def)
qed


text \<open>
  C8: an empty category parameter is ignored: the list holds every article, newest first.
\<close>

theorem news_list_empty_category:
  assumes tok: "req_token r = None" and get: "req_method r = GET"
    and q: "req_query r ''category'' = Some []"
  shows "news_list d r = (Response 200 (JList (map (news_repr d) (news_ordered d))), d)"
  using assms by (simp add: news_list_def news_get_queryset_def)


text \<open>
  C9: an article created by an authenticated caller with a valid body and a fresh UUID is stored with the caller as author, whatever the body says, with both timestamps set to the current time and with the validated category and slug; the response is 201.
\<close>

theorem news_create_forces_author:
  assumes wf: "wf_db d" and u: "u \<in> set (db_users d)" and tok: "req_token r = Some (user_pk u)"
    and valid: "news_validate d None False (req_data r) = Inr vi"
    and fresh: "req_uuid r \<notin> news_ids d"
  shows "\<exists>n. news_create d r = (Response 201 (news_repr (d\<lparr>db_news := db_news d @ [n]\<rparr>) n),
                                 d\<lparr>db_news := db_news d @ [n]\<rparr>) \<and>
             news_author n = user_pk u \<and> news_pk n = req_uuid r \<and>
             news_date_posted n = req_now r \<and> news_updated_at n = req_now r \<and>
             news_category n = ni_category vi \<and> Some (news_slug n) = ni_slug vi"
proof -
  from wf have ku: "keys_unique d" by (simp add: wf_db_def)
  have init: "initial d r IsAuthenticatedOrReadOnly = Inr (Authenticated u)"
    by (rule initial_authenticated [OF ku u tok])
  from news_validate_create [OF valid] obtain s c where
    s: "ni_slug vi = Some s" "s \<notin> news_slug ` set (db_news d)"
    and c: "ni_category vi = Some c" "c \<in> cat_ids d" by blast
  let ?n = "\<lparr>news_pk = req_uuid r, news_category = Some c, news_author = user_pk u,
             news_title = dflt [] (ni_title vi), news_slug = s,
             news_image = ''news_images/'' @ dflt [] (ni_image vi), news_body = dflt [] (ni_body vi),
             news_date_posted = req_now r, news_updated_at = req_now r,
             news_is_breaking = dflt False (ni_is_breaking vi)\<rparr>"
  have "news_create d r = (Response 201 (news_repr (d\<lparr>db_news := db_news d @ [?n]\<rparr>) ?n),
                           d\<lparr>db_news := db_news d @ [?n]\<rparr>)"
    using init valid s c fresh u by (simp add: news_create_def insert_news_def Let_def dflt_def)
  then show ?thesis using s c by auto
qed


lemma news_create_anonymous:
  assumes "req_token r = None" and "req_method r = POST"
  shows "news_create d r = (not_authenticated, d)"
  using assms by (simp add: news_create_def)

lemma news_create_wf:
  assumes "wf_db d" and "news_create d r = (resp, d')"
  shows "wf_db d'"
  using assms
  by (auto simp: news_create_def split: sum.splits intro: insert_news_wf)

lemma news_update_wf:
  assumes "wf_db d" and "news_update partial slug d r = (resp, d')"
  shows "wf_db d'"
  using assms
  by (auto simp: news_update_def Let_def split: sum.splits option.splits intro: save_news_wf)

lemma news_destroy_wf:
  assumes "wf_db d" and "news_destroy slug d r = (resp, d')"
  shows "wf_db d'"
  using assms
  by (auto simp: news_destroy_def split: sum.splits option.splits intro: delete_news_wf)

lemma news_read_only:
  "snd (news_list d r) = d" "snd (news_retrieve slug d r) = d"
  by (simp_all add: news_list_def news_retrieve_def split: sum.split option.split)

end
