(* ===== verification/Comment_Views.thy ===== *)
theory Comment_Views
  imports News_Views
begin

text \<open>
  The comment endpoints of \<open>src/blog/views.py\<close>: the per-article function view
  \<open>comments\<close> (GET lists the article's comments newest first, POST creates one, taking
  name and email from the caller's account when the caller is authenticated), and the
  generic \<open>CommentViewSet\<close>, whose create forces the comment's user to the caller.
\<close>

text \<open>\<open>news.comments.all().order_by('-timestamp')\<close>.\<close>

definition news_comments :: "db \<Rightarrow> news_id \<Rightarrow> Comment list" where
  "news_comments d k =
     sort_key (\<lambda>c. - int (comment_timestamp c)) (filter (\<lambda>c. comment_news c = k) (db_comments d))"

definition method_not_allowed :: response where
  "method_not_allowed = Response 405 (detail ''Method not allowed.'')"

text \<open>
  \<open>@api_view(['GET', 'POST'])\<close> with \<open>AllowAny\<close>: after authentication any other method is
  refused; then \<open>get_object_or_404(News, slug=slug)\<close> on all articles. POST validates the
  body with \<open>CommentSerializer\<close> and saves it with the article, and for an authenticated
  caller with the caller as user and the caller's username and email as name and email;
  an anonymous caller's comment is saved with no user.
\<close>

definition comments :: "(string \<Rightarrow> bool) \<Rightarrow> string \<Rightarrow> handler" where
  "comments email_ok slug d r =
     (case initial d r AllowAny of
        Inl resp \<Rightarrow> (resp, d)
      | Inr p \<Rightarrow>
          (if req_method r \<notin> {GET, POST} then (method_not_allowed, d)
           else case get_row news_slug slug (db_news d) of
             None \<Rightarrow> (not_found ''News'', d)
           | Some news \<Rightarrow>
               (if req_method r = POST then
                  (case comment_validate email_ok d False (req_data r) of
                     Inr vi \<Rightarrow>
                       (let (user, name, email) =
                              (case p of
                                 Authenticated u \<Rightarrow> (Some (user_pk u), username u, user_email u)
                               | Anonymous \<Rightarrow> (None, dflt [] (ci_name vi), dflt [] (ci_email vi)))
                        in case insert_comment d (news_pk news) user name email
                                  (dflt [] (ci_comment vi)) (req_now r) of
                             Inl e \<Rightarrow> (server_error e, d)
                           | Inr (c, d') \<Rightarrow> (Response 201 (comment_repr d' c), d'))
                   | Inl errs \<Rightarrow> (Response 400 (errors_json errs), d))
                else (Response 200 (JList (map (comment_repr d) (news_comments d (news_pk news)))), d))))"

text \<open>
  \<open>CommentViewSet.create\<close> (\<open>IsAuthenticatedOrReadOnly\<close>) with \<open>perform_create\<close>:
  \<open>serializer.save(user=self.request.user)\<close>; the article is the one the body names,
  name and email are the client's.
\<close>

definition comment_create :: "(string \<Rightarrow> bool) \<Rightarrow> handler" where
  "comment_create email_ok d r =
     (case initial d r IsAuthenticatedOrReadOnly of
        Inl resp \<Rightarrow> (resp, d)
      | Inr p \<Rightarrow>
          (case comment_validate email_ok d False (req_data r) of
             Inl errs \<Rightarrow> (Response 400 (errors_json errs), d)
           | Inr vi \<Rightarrow>
               (case insert_comment d (dflt 0 (ci_news vi)) (request_user p) (dflt [] (ci_name vi))
                       (dflt [] (ci_email vi)) (dflt [] (ci_comment vi)) (req_now r) of
                  Inl e \<Rightarrow> (server_error e, d)
                | Inr (c, d') \<Rightarrow> (Response 201 (comment_repr d' c), d'))))"

section \<open>Facts\<close>


lemma comments_post_as:
  assumes wf: "wf_db d" and u: "u \<in> set (db_users d)" and tok: "req_token r = Some (user_pk u)"
    and post: "req_method r = POST" and n: "n \<in> set (db_news d)" "news_slug n = slug"
    and valid: "comment_validate email_ok d False (req_data r) = Inr vi"
  shows "comments email_ok slug d r =
           (let c = \<lparr>comment_pk = seq_comment d, comment_news = news_pk n, comment_user = user_pk u,
                     comment_name = username u, comment_email = user_email u,
                     comment_text = dflt [] (ci_comment vi), comment_timestamp = req_now r\<rparr>;
                d' = d\<lparr>db_comments := db_comments d @ [c], seq_comment := Suc (seq_comment d)\<rparr>
            in (Response 201 (comment_repr d' c), d'))"
proof -
  from wf have ku: "keys_unique d" by (simp add: wf_db_def)
  then have "distinct (map news_slug (db_news d))" by (simp add: keys_unique_def)
  with n have row: "get_row news_slug slug (db_news d) = Some n" by (simp add: get_row_unique)
  have init: "initial d r AllowAny = Inr (Authenticated u)" by (rule initial_authenticated [OF ku u tok])
  show ?thesis using init row post valid n u by (simp add: comments_def insert_comment_def Let_def)
qed

text \<open>
  C4: a valid comment posted by an authenticated caller to an existing article is stored with the caller as user and the caller's username and email as name and email, whatever name and email the request body supplies, and the response is 201 with the stored comment.
\<close>

theorem comments_post_authenticated:
  assumes wf: "wf_db d" and u: "u \<in> set (db_users d)" and tok: "req_token r = Some (user_pk u)"
    and post: "req_method r = POST" and n: "n \<in> set (db_news d)" "news_slug n = slug"
    and valid: "comment_validate email_ok d False (req_data r) = Inr vi"
    and run: "comments email_ok slug d r = (resp, d')"
  shows "\<exists>c. db_comments d' = db_comments d @ [c] \<and> resp = Response 201 (comment_repr d' c) \<and>
             comment_user c = user_pk u \<and> comment_name c = username u \<and>
             comment_email c = user_email u \<and> comment_news c = news_pk n \<and>
             comment_text c = dflt [] (ci_comment vi)"
  using comments_post_as [OF wf u tok post n valid] run by (auto simp: Let_def)

text \<open>
  C5: a valid comment posted anonymously is not stored: the NOT NULL user column rejects the row, the request ends with a server error and the database is unchanged.
\<close>

theorem comments_post_anonymous:
  assumes tok: "req_token r = None" and post: "req_method r = POST"
    and row: "get_row news_slug slug (db_news d) = Some n"
    and valid: "comment_validate email_ok d False (req_data r) = Inr vi"
  shows "comments email_ok slug d r = (Response 500 JNull, d)"
  using assms by (simp add: comments_def insert_comment_def server_error_def)


text \<open>
  C6: an anonymous GET of an existing article's comments succeeds with exactly the article's comments (as a multiset), newest first, and changes nothing.
\<close>

theorem comments_get_anonymous:
  assumes get: "req_method r = GET" and tok: "req_token r = None"
    and row: "get_row news_slug slug (db_news d) = Some n"
  shows "\<exists>cs. comments email_ok slug d r = (Response 200 (JList (map (comment_repr d) cs)), d) \<and>
              mset cs = mset (filter (\<lambda>c. comment_news c = news_pk n) (db_comments d)) \<and>
              sorted_wrt (\<lambda>a b. comment_timestamp b \<le> comment_timestamp a) cs"
proof -
  have "comments email_ok slug d r = (Response 200 (JList (map (comment_repr d) (news_comments d (news_pk n)))), d)"
    using assms by (simp add: comments_def)
  moreover have "mset (news_comments d (news_pk n)) = mset (filter (\<lambda>c. comment_news c = news_pk n) (db_comments d))"
    by (simp add: news_comments_def)
  moreover have "sorted_wrt (\<lambda>a b. comment_timestamp b \<le> comment_timestamp a) (news_comments d (news_pk n))"
    unfolding news_comments_def by (rule sorted_desc_sort_key)
  ultimately show ?thesis by blast
qed


text \<open>
  C13: the per-article comment POST refuses a body without the news field with 400 and a required-field error on news, even though the view then overrides the article with the one of the URL.
\<close>

theorem comments_post_requires_news:
  assumes post: "req_method r = POST" and auth: "authenticate d r = Inr p"
    and row: "get_row news_slug slug (db_news d) = Some n"
    and nonews: "req_data r ''news'' = None"
  shows "\<exists>errs. comments email_ok slug d r = (Response 400 (errors_json ((''news'', [Required]) # errs)), d)"
  using assms
  by (auto simp: comments_def initial_AllowAny comment_validate_def pk_field_def Let_def
           split: sum.split)

lemma comments_wf:
  assumes "wf_db d" and "comments email_ok slug d r = (resp, d')"
  shows "wf_db d'"
  using assms
  by (auto simp: comments_def Let_def split: sum.splits option.splits if_splits prod.splits principal.splits
           intro: insert_comment_wf)

lemma comment_create_wf:
  assumes "wf_db d" and "comment_create email_ok d r = (resp, d')"
  shows "wf_db d'"
  using assms
  by (auto simp: comment_create_def split: sum.splits intro: insert_comment_wf)

end
