(* ===== verification/Generic_Views.thy ===== *)
theory Generic_Views
  imports Comment_Views
begin

text \<open>
  The viewsets of \<open>src/blog/views.py\<close> that add nothing to the framework's
  \<open>ModelViewSet\<close> but a queryset, a serializer, permission classes and (for comments and
  likes) a \<open>perform_create\<close>: \<open>CategoryViewSet\<close>, the actions of \<open>CommentViewSet\<close> other
  than create (which \<open>Comment_Views\<close> holds), \<open>LikeViewSet\<close>, and the \<open>CreateAPIView\<close>
  \<open>RegisterView\<close> with its \<open>RegisterSerializer.create\<close>. The actions are the mixins'
  (\<open>list\<close>, \<open>retrieve\<close>, \<open>create\<close>, \<open>update\<close>, \<open>destroy\<close>) over each viewset's queryset, and
  the object of a detail action is looked up by primary key in the URL.
\<close>

section \<open>Lookup by primary key\<close>

text \<open>
  Python's \<open>int()\<close> on the URL value, which the key column applies to the lookup value:
  surrounding whitespace is dropped, a sign may precede the digits. (Digit groups
  separated by underscores, which \<open>int()\<close> also reads, are not modelled.)
\<close>

definition py_int :: "string \<Rightarrow> int option" where
  "py_int s =
     (let t = strip s;
          num = (\<lambda>ds. ds \<noteq> [] \<and> (\<forall>c \<in> set ds. is_digit c))
      in case t of
           [] \<Rightarrow> None
         | c # ds \<Rightarrow>
             (if c = CHR ''-'' \<and> num ds then Some (- int (nat_of_digits ds))
              else if c = CHR ''+'' \<and> num ds then Some (int (nat_of_digits ds))
              else if num t then Some (int (nat_of_digits t))
              else None))"

text \<open>
  \<open>get_object\<close> with the default \<open>lookup_field = 'pk'\<close>: \<open>get_object_or_404\<close> turns the
  \<open>ValueError\<close> of a value that is no integer into a 404, as it does an absent row.
\<close>

definition pk_lookup :: "('r \<Rightarrow> nat) \<Rightarrow> 'r list \<Rightarrow> string \<Rightarrow> 'r option" where
  "pk_lookup key rows s =
     (case py_int s of
        None \<Rightarrow> None
      | Some i \<Rightarrow> if i < 0 then None else get_row key (nat i) rows)"

section \<open>CategoryViewSet\<close>

text \<open>\<open>permission_classes = [permissions.AllowAny]\<close>: reads and writes are open to all.\<close>

definition category_list :: handler where
  "category_list d r =
     (case initial d r AllowAny of
        Inl resp \<Rightarrow> (resp, d)
      | Inr p \<Rightarrow> (Response 200 (JList (map category_repr (db_categories d))), d))"

definition category_retrieve :: "string \<Rightarrow> handler" where
  "category_retrieve k d r =
     (case initial d r AllowAny of
        Inl resp \<Rightarrow> (resp, d)
      | Inr p \<Rightarrow>
          (case pk_lookup cat_pk (db_categories d) k of
             None \<Rightarrow> (not_found ''Category'', d)
           | Some c \<Rightarrow> (Response 200 (category_repr c), d)))"

definition category_create :: handler where
  "category_create d r =
     (case initial d r AllowAny of
        Inl resp \<Rightarrow> (resp, d)
      | Inr p \<Rightarrow>
          (case category_validate d None False (req_data r) of
             Inl errs \<Rightarrow> (Response 400 (errors_json errs), d)
           | Inr vi \<Rightarrow>
               (case insert_category d (dflt [] (ki_name vi)) (dflt [] (ki_slug vi)) of
                  Inl e \<Rightarrow> (server_error e, d)
                | Inr (c, d') \<Rightarrow> (Response 201 (category_repr c), d'))))"

definition category_update :: "bool \<Rightarrow> string \<Rightarrow> handler" where
  "category_update partial k d r =
     (case initial d r AllowAny of
        Inl resp \<Rightarrow> (resp, d)
      | Inr p \<Rightarrow>
          (case pk_lookup cat_pk (db_categories d) k of
             None \<Rightarrow> (not_found ''Category'', d)
           | Some c \<Rightarrow>
               (case category_validate d (Some (cat_pk c)) partial (req_data r) of
                  Inl errs \<Rightarrow> (Response 400 (errors_json errs), d)
                | Inr vi \<Rightarrow>
                    (case save_category d (c\<lparr>cat_name := dflt (cat_name c) (ki_name vi),
                                             cat_slug := dflt (cat_slug c) (ki_slug vi)\<rparr>) of
                       Inl e \<Rightarrow> (server_error e, d)
                     | Inr (c', d') \<Rightarrow> (Response 200 (category_repr c'), d')))))"

definition category_destroy :: "string \<Rightarrow> handler" where
  "category_destroy k d r =
     (case initial d r AllowAny of
        Inl resp \<Rightarrow> (resp, d)
      | Inr p \<Rightarrow>
          (case pk_lookup cat_pk (db_categories d) k of
             None \<Rightarrow> (not_found ''Category'', d)
           | Some c \<Rightarrow> (Response 204 JNull, delete_category d (cat_pk c))))"

section \<open>CommentViewSet\<close>

text \<open>
  \<open>permission_classes = [IsAuthenticatedOrReadOnly]\<close>, with no object-level check: the
  queryset is every comment, so an authenticated caller reaches every comment. An update
  may change the article, name, email and text; the user is read-only.
\<close>

definition comment_list :: handler where
  "comment_list d r =
     (case initial d r IsAuthenticatedOrReadOnly of
        Inl resp \<Rightarrow> (resp, d)
      | Inr p \<Rightarrow> (Response 200 (JList (map (comment_repr d) (db_comments d))), d))"

definition comment_retrieve :: "string \<Rightarrow> handler" where
  "comment_retrieve k d r =
     (case initial d r IsAuthenticatedOrReadOnly of
        Inl resp \<Rightarrow> (resp, d)
      | Inr p \<Rightarrow>
          (case pk_lookup comment_pk (db_comments d) k of
             None \<Rightarrow> (not_found ''Comment'', d)
           | Some c \<Rightarrow> (Response 200 (comment_repr d c), d)))"

definition comment_update :: "(string \<Rightarrow> bool) \<Rightarrow> bool \<Rightarrow> string \<Rightarrow> handler" where
  "comment_update email_ok partial k d r =
     (case initial d r IsAuthenticatedOrReadOnly of
        Inl resp \<Rightarrow> (resp, d)
      | Inr p \<Rightarrow>
          (case pk_lookup comment_pk (db_comments d) k of
             None \<Rightarrow> (not_found ''Comment'', d)
           | Some c \<Rightarrow>
               (case comment_validate email_ok d partial (req_data r) of
                  Inl errs \<Rightarrow> (Response 400 (errors_json errs), d)
                | Inr vi \<Rightarrow>
                    (case save_comment d (c\<lparr>comment_news := dflt (comment_news c) (ci_news vi),
                                            comment_name := dflt (comment_name c) (ci_name vi),
                                            comment_email := dflt (comment_email c) (ci_email vi),
                                            comment_text := dflt (comment_text c) (ci_comment vi)\<rparr>) of
                       Inl e \<Rightarrow> (server_error e, d)
                     | Inr (c', d') \<Rightarrow> (Response 200 (comment_repr d' c'), d')))))"

definition comment_destroy :: "string \<Rightarrow> handler" where
  "comment_destroy k d r =
     (case initial d r IsAuthenticatedOrReadOnly of
        Inl resp \<Rightarrow> (resp, d)
      | Inr p \<Rightarrow>
          (case pk_lookup comment_pk (db_comments d) k of
             None \<Rightarrow> (not_found ''Comment'', d)
           | Some c \<Rightarrow> (Response 204 JNull, delete_comment d (comment_pk c))))"

section \<open>LikeViewSet\<close>

text \<open>
  \<open>permission_classes = [permissions.IsAuthenticated]\<close>; the queryset is every like.
  \<open>perform_create\<close> saves the row with \<open>user=self.request.user\<close>, after the serializer has
  validated the \<open>user\<close> the body names; an update saves the user the body names.
\<close>

definition like_list :: handler where
  "like_list d r =
     (case initial d r IsAuthenticated of
        Inl resp \<Rightarrow> (resp, d)
      | Inr p \<Rightarrow> (Response 200 (JList (map like_repr (db_likes d))), d))"

definition like_retrieve :: "string \<Rightarrow> handler" where
  "like_retrieve k d r =
     (case initial d r IsAuthenticated of
        Inl resp \<Rightarrow> (resp, d)
      | Inr p \<Rightarrow>
          (case pk_lookup like_pk (db_likes d) k of
             None \<Rightarrow> (not_found ''Like'', d)
           | Some l \<Rightarrow> (Response 200 (like_repr l), d)))"

definition like_create :: handler where
  "like_create d r =
     (case initial d r IsAuthenticated of
        Inl resp \<Rightarrow> (resp, d)
      | Inr p \<Rightarrow>
          (case like_validate d None False (req_data r) of
             Inl errs \<Rightarrow> (Response 400 (errors_json errs), d)
           | Inr vi \<Rightarrow>
               (case request_user p of
                  None \<Rightarrow> (Response 500 JNull, d)
                | Some user \<Rightarrow>
                    (case insert_like d user (dflt 0 (li_news vi)) (dflt True (li_is_liked vi)) (req_now r) of
                       Inl e \<Rightarrow> (server_error e, d)
                     | Inr (l, d') \<Rightarrow> (Response 201 (like_repr l), d')))))"

definition like_update :: "bool \<Rightarrow> string \<Rightarrow> handler" where
  "like_update partial k d r =
     (case initial d r IsAuthenticated of
        Inl resp \<Rightarrow> (resp, d)
      | Inr p \<Rightarrow>
          (case pk_lookup like_pk (db_likes d) k of
             None \<Rightarrow> (not_found ''Like'', d)
           | Some l \<Rightarrow>
               (case like_validate d (Some l) partial (req_data r) of
                  Inl errs \<Rightarrow> (Response 400 (errors_json errs), d)
                | Inr vi \<Rightarrow>
                    (case save_like d (l\<lparr>like_user := dflt (like_user l) (li_user vi),
                                         like_news := dflt (like_news l) (li_news vi),
                                         like_is_liked := dflt (like_is_liked l) (li_is_liked vi)\<rparr>) of
                       Inl e \<Rightarrow> (server_error e, d)
                     | Inr (l', d') \<Rightarrow> (Response 200 (like_repr l'), d')))))"

definition like_destroy :: "string \<Rightarrow> handler" where
  "like_destroy k d r =
     (case initial d r IsAuthenticated of
        Inl resp \<Rightarrow> (resp, d)
      | Inr p \<Rightarrow>
          (case pk_lookup like_pk (db_likes d) k of
             None \<Rightarrow> (not_found ''Like'', d)
           | Some l \<Rightarrow> (Response 204 JNull, delete_like d (like_pk l))))"

section \<open>RegisterView\<close>

text \<open>
  \<open>CreateAPIView.create\<close> with \<open>AllowAny\<close> and \<open>RegisterSerializer.create\<close>:
  \<open>make_password\<close> replaces the validated password before the row is created. The
  password hasher (salted PBKDF2 by default) is a parameter.
\<close>

definition register :: "(string \<Rightarrow> string) \<Rightarrow> (string \<Rightarrow> bool) \<Rightarrow> handler" where
  "register make_password email_ok d r =
     (case initial d r AllowAny of
        Inl resp \<Rightarrow> (resp, d)
      | Inr p \<Rightarrow>
          (case register_validate email_ok d (req_data r) of
             Inl errs \<Rightarrow> (Response 400 (errors_json errs), d)
           | Inr vi \<Rightarrow>
               (case insert_user d (dflt [] (reg_username vi)) (dflt [] (reg_email vi))
                       (make_password (dflt [] (reg_password vi))) of
                  Inl e \<Rightarrow> (server_error e, d)
                | Inr (u, d') \<Rightarrow> (Response 201 (register_repr u), d'))))"

section \<open>Facts\<close>

lemma py_int_digits: "py_int (digits_of n) = Some (int n)"
proof -
  have d: "\<forall>c \<in> set (digits_of n). is_digit c" using digits_of_chars by blast
  obtain c cs where cs: "digits_of n = c # cs" using digits_of_nonempty by (cases "digits_of n") auto
  have nd: "nat_of_digits (c # cs) = n" using nat_of_digits_of [of n] cs by metis
  have "c \<noteq> CHR ''-''" "c \<noteq> CHR ''+''" using d cs by (auto simp: is_digit_def)
  moreover have "strip (c # cs) = c # cs" using d cs strip_digits by metis
  ultimately show ?thesis using d cs nd
    by (simp add: py_int_def Let_def del: nat_of_digits.simps)
qed

lemma pk_lookup_digits:
  assumes "distinct (map key rows)" and "x \<in> set rows"
  shows "pk_lookup key rows (digits_of (key x)) = Some x"
  using assms by (simp add: pk_lookup_def py_int_digits get_row_unique)

lemma pk_lookup_SomeD: "pk_lookup key rows s = Some x \<Longrightarrow> x \<in> set rows"
  by (auto simp: pk_lookup_def dest: get_row_SomeD split: option.splits if_splits)

lemma comment_update_cases:
  assumes "comment_update email_ok partial k d r = (resp, d')"
  shows "d' = d \<or> (\<exists>c c'. pk_lookup comment_pk (db_comments d) k = Some c \<and>
                       save_comment d c' = Inr (c', d') \<and>
                       comment_user c' = comment_user c \<and> comment_pk c' = comment_pk c)"
proof (cases "initial d r IsAuthenticatedOrReadOnly")
  case (Inr p)
  show ?thesis
  proof (cases "pk_lookup comment_pk (db_comments d) k")
    case (Some c)
    show ?thesis
    proof (cases "comment_validate email_ok d partial (req_data r)")
      case (Inr vi)
      let ?c' = "c\<lparr>comment_news := dflt (comment_news c) (ci_news vi),
                      comment_name := dflt (comment_name c) (ci_name vi),
                      comment_email := dflt (comment_email c) (ci_email vi),
                      comment_text := dflt (comment_text c) (ci_comment vi)\<rparr>"
      have run: "comment_update email_ok partial k d r =
                   (case save_comment d ?c' of
                      Inl e \<Rightarrow> (server_error e, d)
                    | Inr (c', d') \<Rightarrow> (Response 200 (comment_repr d' c'), d'))"
        using Inr \<open>initial d r IsAuthenticatedOrReadOnly = Inr p\<close> Some
        by (simp add: comment_update_def)
      show ?thesis
      proof (cases "save_comment d ?c'")
        case (Inr res)
        then have "fst res = ?c'" by (auto simp: save_comment_def split: if_splits)
        moreover obtain c2 d2 where res: "res = (c2, d2)" by (cases res)
        moreover from run assms Inr res have "d' = d2" by simp
        ultimately show ?thesis using Inr Some
          by (intro disjI2 exI [of _ c] exI [of _ ?c']) simp
      qed (use run assms in simp)
    qed (use assms Inr Some in \<open>simp add: comment_update_def\<close>)
  qed (use assms Inr in \<open>simp add: comment_update_def\<close>)
qed (use assms in \<open>simp add: comment_update_def\<close>)

lemma like_create_valid:
  assumes wf: "wf_db d" and u: "u \<in> set (db_users d)" and tok: "req_token r = Some (user_pk u)"
    and valid: "like_validate d None False (req_data r) = Inr vi" and n: "li_news vi = Some n"
  shows "like_create d r =
           (case insert_like d (user_pk u) n (dflt True (li_is_liked vi)) (req_now r) of
              Inl e \<Rightarrow> (server_error e, d)
            | Inr (l, d') \<Rightarrow> (Response 201 (like_repr l), d'))"
proof -
  from wf have "keys_unique d" by (simp add: wf_db_def)
  from initial_authenticated [OF this u tok] valid n show ?thesis
    by (simp add: like_create_def dflt_def)
qed

lemma category_create_wf: "wf_db d \<Longrightarrow> category_create d r = (resp, d') \<Longrightarrow> wf_db d'"
  by (auto simp: category_create_def split: sum.splits intro: insert_category_wf)

lemma category_update_wf: "wf_db d \<Longrightarrow> category_update b k d r = (resp, d') \<Longrightarrow> wf_db d'"
  by (auto simp: category_update_def split: sum.splits option.splits intro: save_category_wf)

lemma category_destroy_wf: "wf_db d \<Longrightarrow> category_destroy k d r = (resp, d') \<Longrightarrow> wf_db d'"
  by (auto simp: category_destroy_def split: sum.splits option.splits intro: delete_category_wf)

lemma comment_update_wf: "wf_db d \<Longrightarrow> comment_update e b k d r = (resp, d') \<Longrightarrow> wf_db d'"
  by (auto simp: comment_update_def split: sum.splits option.splits intro: save_comment_wf)

lemma comment_destroy_wf: "wf_db d \<Longrightarrow> comment_destroy k d r = (resp, d') \<Longrightarrow> wf_db d'"
  by (auto simp: comment_destroy_def split: sum.splits option.splits intro: delete_comment_wf)

lemma like_create_wf: "wf_db d \<Longrightarrow> like_create d r = (resp, d') \<Longrightarrow> wf_db d'"
  by (auto simp: like_create_def split: sum.splits option.splits intro: insert_like_wf)

lemma like_update_wf: "wf_db d \<Longrightarrow> like_update b k d r = (resp, d') \<Longrightarrow> wf_db d'"
  by (auto simp: like_update_def split: sum.splits option.splits intro: save_like_wf)

lemma like_destroy_wf: "wf_db d \<Longrightarrow> like_destroy k d r = (resp, d') \<Longrightarrow> wf_db d'"
  by (auto simp: like_destroy_def split: sum.splits option.splits intro: delete_like_wf)

lemma register_wf: "wf_db d \<Longrightarrow> register h e d r = (resp, d') \<Longrightarrow> wf_db d'"
  by (auto simp: register_def split: sum.splits intro: insert_user_wf)

lemma generic_read_only:
  "category_list d r = (resp, d') \<Longrightarrow> d' = d"
  "category_retrieve k d r = (resp, d') \<Longrightarrow> d' = d"
  "comment_list d r = (resp, d') \<Longrightarrow> d' = d"
  "comment_retrieve k d r = (resp, d') \<Longrightarrow> d' = d"
  "like_list d r = (resp, d') \<Longrightarrow> d' = d"
  "like_retrieve k d r = (resp, d') \<Longrightarrow> d' = d"
  by (auto simp: category_list_def category_retrieve_def comment_list_def comment_retrieve_def
      like_list_def like_retrieve_def split: sum.splits option.splits)

text \<open>
  C14: a like created through the generic likes endpoint by a caller who already likes the article, with a body that names another user, passes validation (the unique-together check looks at the user of the body) and then fails on the unique constraint: the response is a server error and the database is unchanged.
\<close>

theorem like_create_duplicate_error:
  assumes wf: "wf_db d" and u: "u \<in> set (db_users d)" and tok: "req_token r = Some (user_pk u)"
    and valid: "like_validate d None False (req_data r) = Inr vi" and n: "li_news vi = Some n"
    and dup: "(user_pk u, n) \<in> liked_pairs d"
  shows "like_create d r = (Response 500 JNull, d)"
  using dup
  by (simp add: like_create_valid [OF wf u tok valid n] insert_like_def liked_pairs_def server_error_def)


text \<open>
  C15: any authenticated caller can update any like through the generic likes endpoint, and the update stores the user the body names, so a like can be moved to another user.
\<close>

theorem like_update_reassigns:
  assumes wf: "wf_db d" and u: "u \<in> set (db_users d)" and tok: "req_token r = Some (user_pk u)"
    and l: "l \<in> set (db_likes d)"
    and valid: "like_validate d (Some l) False (req_data r) = Inr vi" and v: "li_user vi = Some v"
  shows "\<exists>l' d'. like_update False (digits_of (like_pk l)) d r = (Response 200 (like_repr l'), d') \<and>
                 like_pk l' = like_pk l \<and> like_user l' = v \<and> l' \<in> set (db_likes d')"
proof -
  from wf have ku: "keys_unique d" by (simp add: wf_db_def)
  from like_validate_full [OF valid] v obtain n where n: "li_news vi = Some n"
    and fk: "v \<in> user_ids d" "n \<in> news_ids d"
    and uq: "\<forall>x \<in> set (db_likes d). like_key x = (v, n) \<longrightarrow> like_pk x = like_pk l" by auto
  let ?l' = "l\<lparr>like_user := v, like_news := n, like_is_liked := dflt (like_is_liked l) (li_is_liked vi)\<rparr>"
  let ?d' = "d\<lparr>db_likes := map (\<lambda>x. if like_pk x = like_pk l then ?l' else x) (db_likes d)\<rparr>"
  from ku l have look: "pk_lookup like_pk (db_likes d) (digits_of (like_pk l)) = Some l"
    by (simp add: keys_unique_def pk_lookup_digits)
  have "save_like d ?l' = Inr (?l', ?d')"
    using uq fk by (auto simp: save_like_def like_key_def)
  then have "like_update False (digits_of (like_pk l)) d r = (Response 200 (like_repr ?l'), ?d')"
    using initial_authenticated [OF ku u tok] look valid v n by (simp add: like_update_def dflt_def)
  moreover have "?l' \<in> set (db_likes ?d')" using replace_member [OF l, of like_pk ?l'] by simp
  ultimately show ?thesis by fastforce
qed


text \<open>
  C16: any authenticated caller can delete any comment through the generic comments endpoint, whoever wrote it.
\<close>

theorem comment_destroy_any_author:
  assumes wf: "wf_db d" and u: "u \<in> set (db_users d)" and tok: "req_token r = Some (user_pk u)"
    and c: "c \<in> set (db_comments d)"
  shows "comment_destroy (digits_of (comment_pk c)) d r = (Response 204 JNull, delete_comment d (comment_pk c))"
proof -
  from wf have ku: "keys_unique d" by (simp add: wf_db_def)
  then have "pk_lookup comment_pk (db_comments d) (digits_of (comment_pk c)) = Some c"
    using c by (simp add: keys_unique_def pk_lookup_digits)
  with initial_authenticated [OF ku u tok] show ?thesis by (simp add: comment_destroy_def)
qed


text \<open>
  C17: an anonymous caller creates a category: the categories endpoint needs no authentication for writes, and a valid body is stored with the validated name and slug.
\<close>

theorem category_create_anonymous:
  assumes tok: "req_token r = None" and valid: "category_validate d None False (req_data r) = Inr vi"
  shows "\<exists>c d'. category_create d r = (Response 201 (category_repr c), d') \<and>
            db_categories d' = db_categories d @ [c] \<and>
            ki_name vi = Some (cat_name c) \<and> ki_slug vi = Some (cat_slug c)"
proof -
  from category_validate_create [OF valid] obtain nm sl where
    "ki_name vi = Some nm" "ki_slug vi = Some sl"
    "nm \<notin> cat_name ` set (db_categories d)" "sl \<notin> cat_slug ` set (db_categories d)" by blast
  with tok valid show ?thesis
    by (simp add: category_create_def insert_category_def dflt_def Let_def initial_AllowAny authenticate_def)
qed


text \<open>
  C18: the generic likes endpoint stores a new like with the caller as user, whatever user the body names.
\<close>

theorem like_create_forces_user:
  assumes wf: "wf_db d" and u: "u \<in> set (db_users d)" and tok: "req_token r = Some (user_pk u)"
    and valid: "like_validate d None False (req_data r) = Inr vi" and n: "li_news vi = Some n"
    and free: "(user_pk u, n) \<notin> liked_pairs d"
  shows "\<exists>l d'. like_create d r = (Response 201 (like_repr l), d') \<and> db_likes d' = db_likes d @ [l] \<and>
                like_user l = user_pk u \<and> like_news l = n"
proof -
  from like_validate_full [OF valid] n have "n \<in> news_ids d" by auto
  with free u show ?thesis
    by (simp add: like_create_valid [OF wf u tok valid n] insert_like_def liked_pairs_def Let_def)
qed


text \<open>
  C19: registration stores the hash of the submitted password with surrounding whitespace stripped, and the response carries only the username and email, never the password.
\<close>

theorem register_hashes_password:
  assumes auth: "authenticate d r = Inr p"
    and valid: "register_validate email_ok d (req_data r) = Inr vi"
    and pw: "req_data r ''password'' = Some (VStr s)"
  shows "\<exists>u d'. register make_password email_ok d r =
                 (Response 201 (JObj [(''username'', JStr (username u)), (''email'', JStr (user_email u))]), d') \<and>
                 db_users d' = db_users d @ [u] \<and> user_password u = make_password (strip s)"
proof -
  from register_validate_ok [OF valid] obtain nm where
    nm: "reg_username vi = Some nm" "nm \<notin> username ` set (db_users d)" by blast
  from register_validate_ok(2) [OF valid pw] have "reg_password vi = Some (strip s)" .
  with nm auth valid show ?thesis
    by (simp add: register_def initial_AllowAny insert_user_def register_repr_def dflt_def Let_def)
qed


text \<open>
  C20: registration with a taken username is refused with 400, the username field carrying the model's unique message, and the database is unchanged.
\<close>

theorem register_duplicate_username:
  assumes auth: "authenticate d r = Inr p"
    and name: "req_data r ''username'' = Some (VStr s)" and nb: "strip s \<noteq> []"
    and taken: "strip s \<in> username ` set (db_users d)"
  shows "\<exists>es errs. register make_password email_ok d r = (Response 400 (errors_json ((''username'', es) # errs)), d) \<and>
                  Unique ''A user with that username already exists.'' \<in> set es"
proof -
  let ?pre = "\<lambda>x. username_check x @
                  unique_check ''A user with that username already exists.'' user_pk username (db_users d) None x"
  have u: "Unique ''A user with that username already exists.'' \<in> set (?pre (strip s))"
    using taken by (auto simp: unique_check_def)
  have "\<exists>es. char_field False True False ?pre (Some 150) no_check (req_data r ''username'') = Inl es \<and>
             Unique ''A user with that username already exists.'' \<in> set es"
    using name nb u by (auto simp: char_field_def blank_input_def checked_def char_validators_def Let_def)
  then obtain es where es: "char_field False True False ?pre (Some 150) no_check (req_data r ''username'') = Inl es"
    "Unique ''A user with that username already exists.'' \<in> set es" by blast
  then show ?thesis
    using auth by (auto simp: register_def initial_AllowAny register_validate_def Let_def)
qed


text \<open>
  C21: an update through the generic comments endpoint never changes which user a comment belongs to.
\<close>

theorem comment_update_keeps_user:
  assumes wf: "wf_db d" and run: "comment_update email_ok partial k d r = (resp, d')"
  shows "map comment_user (db_comments d') = map comment_user (db_comments d)"
  using comment_update_cases [OF run]
proof
  assume "\<exists>c c'. pk_lookup comment_pk (db_comments d) k = Some c \<and> save_comment d c' = Inr (c', d') \<and>
                comment_user c' = comment_user c \<and> comment_pk c' = comment_pk c"
  then obtain c c' where c: "pk_lookup comment_pk (db_comments d) k = Some c"
    and s: "save_comment d c' = Inr (c', d')" and cu: "comment_user c' = comment_user c"
    and cp: "comment_pk c' = comment_pk c" by blast
  from c have mem: "c \<in> set (db_comments d)" by (rule pk_lookup_SomeD)
  from wf have "distinct (map comment_pk (db_comments d))" by (simp add: wf_defs)
  moreover from s have "db_comments d' = map (\<lambda>x. if comment_pk x = comment_pk c then c' else x) (db_comments d)"
    unfolding cp [symmetric] by (auto simp: save_comment_def split: if_splits)
  ultimately show ?thesis using map_replace_same [OF _ mem cp cu] by simp
qed simp


lemma category_retrieve_by_key:
  assumes wf: "wf_db d" and c: "c \<in> set (db_categories d)" and auth: "authenticate d r = Inr p"
  shows "category_retrieve (digits_of (cat_pk c)) d r = (Response 200 (category_repr c), d)"
proof -
  from wf c have "pk_lookup cat_pk (db_categories d) (digits_of (cat_pk c)) = Some c"
    by (simp add: wf_defs pk_lookup_digits)
  with auth show ?thesis by (simp add: category_retrieve_def initial_AllowAny)
qed

end
