(* ===== verification/Jwt.thy ===== *)
theory Jwt
  imports Generic_Views
begin

text \<open>
  The token endpoints and the bearer authentication of \<open>rest_framework_simplejwt\<close>,
  which \<open>src/blog/urls.py\<close> mounts at \<open>token/\<close> and \<open>token/refresh/\<close> and which
  authenticates every other view. It is library code the sources only configure, so it is
  modelled from the library's documented behaviour with its default settings: HS256
  tokens signed with the project's secret key, an access lifetime of 5 minutes, a refresh
  lifetime of one day, no rotation and no blacklist, and the \<open>Bearer\<close> header type.

  A token is the compact JWS \<open>header.payload.signature\<close>. PyJWT reads it back by
  \<open>rsplit('.', 1)\<close> and \<open>split('.', 1)\<close>, checks the HMAC of \<open>header.payload\<close>, then the
  claims: \<open>exp\<close> must lie in the future and \<open>token_type\<close> must be the class's. The claims
  modelled are \<open>token_type\<close>, \<open>exp\<close> and \<open>user_id\<close>; \<open>jti\<close> and \<open>iat\<close> only serve the
  blacklist, which is not installed. The HMAC with the secret key, encoded in base64url, is
  the parameter \<open>sign\<close>; the payload, base64url of a JSON object, is written here in the
  base64url alphabet as \<open>type-exp-user\<close>. \<open>check_password\<close> is Django's password check
  against a stored hash, a parameter as the hasher is in registration.
\<close>

section \<open>Tokens\<close>

datatype token_type = AccessToken | RefreshToken

record jwt_claims =
  tok_type :: token_type
  tok_exp :: timestamp
  tok_user :: user_id

text \<open>\<open>ACCESS_TOKEN_LIFETIME\<close> and \<open>REFRESH_TOKEN_LIFETIME\<close>, in seconds.\<close>

definition access_lifetime :: nat where
  "access_lifetime = 300"

definition refresh_lifetime :: nat where
  "refresh_lifetime = 86400"

text \<open>\<open>RefreshToken.for_user(user)\<close> and its \<open>access_token\<close>, both issued at \<open>now\<close>.\<close>

definition refresh_for :: "user_id \<Rightarrow> timestamp \<Rightarrow> jwt_claims" where
  "refresh_for u now = \<lparr>tok_type = RefreshToken, tok_exp = now + refresh_lifetime, tok_user = u\<rparr>"

definition access_for :: "user_id \<Rightarrow> timestamp \<Rightarrow> jwt_claims" where
  "access_for u now = \<lparr>tok_type = AccessToken, tok_exp = now + access_lifetime, tok_user = u\<rparr>"

text \<open>base64url of \<open>{"alg":"HS256","typ":"JWT"}\<close>.\<close>

definition jwt_header :: string where
  "jwt_header = ''eyJhbGciOiJIUzI1NiIsInR5cCI6IkpXVCJ9''"

text \<open>The base64url alphabet, in which the segments and the signature are written.\<close>

definition b64url_char :: "char \<Rightarrow> bool" where
  "b64url_char c \<longleftrightarrow> c \<in> set ''ABCDEFGHIJKLMNOPQRSTUVWXYZabcdefghijklmnopqrstuvwxyz0123456789-_''"

fun type_claim :: "token_type \<Rightarrow> string" where
  "type_claim AccessToken = ''access''"
| "type_claim RefreshToken = ''refresh''"

definition jwt_payload :: "jwt_claims \<Rightarrow> string" where
  "jwt_payload t = type_claim (tok_type t) @ ''-'' @ digits_of (tok_exp t) @ ''-'' @ digits_of (tok_user t)"

definition signing_input :: "jwt_claims \<Rightarrow> string" where
  "signing_input t = jwt_header @ ''.'' @ jwt_payload t"

text \<open>\<open>str(token)\<close>: \<open>jwt.encode(payload, SIGNING_KEY, 'HS256')\<close>.\<close>

definition jwt_encode :: "(string \<Rightarrow> string) \<Rightarrow> jwt_claims \<Rightarrow> string" where
  "jwt_encode sign t = signing_input t @ ''.'' @ sign (signing_input t)"

text \<open>\<open>s.split(c, 1)\<close> and \<open>s.rsplit(c, 1)\<close> unpacked into two parts: none without a \<open>c\<close>.\<close>

definition split1 :: "char \<Rightarrow> string \<Rightarrow> (string \<times> string) option" where
  "split1 c s = (if c \<in> set s then Some (takeWhile (\<lambda>x. x \<noteq> c) s, tl (dropWhile (\<lambda>x. x \<noteq> c) s)) else None)"

definition rsplit1 :: "char \<Rightarrow> string \<Rightarrow> (string \<times> string) option" where
  "rsplit1 c s = map_option (\<lambda>(a, b). (rev b, rev a)) (split1 c (rev s))"

definition parse_type :: "string \<Rightarrow> token_type option" where
  "parse_type s = (if s = ''access'' then Some AccessToken else if s = ''refresh'' then Some RefreshToken else None)"

definition parse_num :: "string \<Rightarrow> nat option" where
  "parse_num s = (if s \<noteq> [] \<and> (\<forall>c \<in> set s. is_digit c) then Some (nat_of_digits s) else None)"

definition parse_payload :: "string \<Rightarrow> jwt_claims option" where
  "parse_payload p =
     (case split_on CHR ''-'' p of
        [ty, e, u] \<Rightarrow>
          (case (parse_type ty, parse_num e, parse_num u) of
             (Some k, Some x, Some y) \<Rightarrow> Some \<lparr>tok_type = k, tok_exp = x, tok_user = y\<rparr>
           | _ \<Rightarrow> None)
      | _ \<Rightarrow> None)"

text \<open>
  \<open>jwt.decode\<close> without the claim checks: the segments, the header, the signature, then
  the payload.
\<close>

definition jwt_decode :: "(string \<Rightarrow> string) \<Rightarrow> string \<Rightarrow> jwt_claims option" where
  "jwt_decode sign s =
     (case rsplit1 CHR ''.'' s of
        None \<Rightarrow> None
      | Some (si, sg) \<Rightarrow>
          (case split1 CHR ''.'' si of
             None \<Rightarrow> None
           | Some (h, p) \<Rightarrow>
               (if h \<noteq> jwt_header \<or> sign si \<noteq> sg then None else parse_payload p)))"

text \<open>
  \<open>AccessToken(raw)\<close> or \<open>RefreshToken(raw)\<close>: decoded, not expired (\<open>exp <= now\<close> is
  expired) and of the class's type; a \<open>TokenError\<close> otherwise.
\<close>

definition validate_token :: "(string \<Rightarrow> string) \<Rightarrow> timestamp \<Rightarrow> token_type \<Rightarrow> string \<Rightarrow> jwt_claims option" where
  "validate_token sign now ty s =
     (case jwt_decode sign s of
        None \<Rightarrow> None
      | Some t \<Rightarrow> (if tok_exp t \<le> now \<or> tok_type t \<noteq> ty then None else Some t))"

section \<open>Authentication\<close>

text \<open>\<open>bytes.split()\<close>: the words between runs of ASCII whitespace.\<close>

definition split_ws :: "string \<Rightarrow> string list" where
  "split_ws s = filter (\<lambda>w. w \<noteq> []) (split_on CHR '' '' (map (\<lambda>c. if is_space c then CHR '' '' else c) s))"

definition token_not_valid :: response where
  "token_not_valid = Response 401 (JObj [(''detail'', JStr ''Given token not valid for any token type''),
                                         (''code'', JStr ''token_not_valid'')])"

text \<open>
  \<open>JWTAuthentication.authenticate\<close> up to \<open>get_user\<close>: no \<open>Authorization\<close> header, an
  empty one or one of another type leaves the request anonymous; a \<open>Bearer\<close> header
  needs exactly one more word, a valid access token, and yields the token's user id. The
  user lookup that follows (\<open>User not found\<close>) is \<open>Rest.authenticate\<close> on that id.
\<close>

definition jwt_authenticate :: "(string \<Rightarrow> string) \<Rightarrow> timestamp \<Rightarrow> string option \<Rightarrow> response + user_id option" where
  "jwt_authenticate sign now hdr =
     (case hdr of
        None \<Rightarrow> Inr None
      | Some h \<Rightarrow>
          (case split_ws h of
             [] \<Rightarrow> Inr None
           | w # ws \<Rightarrow>
               (if w \<noteq> ''Bearer'' then Inr None
                else case ws of
                  [raw] \<Rightarrow> (case validate_token sign now AccessToken raw of
                              None \<Rightarrow> Inl token_not_valid
                            | Some t \<Rightarrow> Inr (Some (tok_user t)))
                | _ \<Rightarrow> Inl (Response 401 (detail ''Authorization header must contain two space-delimited values'')))))"

text \<open>The request the views see: the header resolved to the token's user id.\<close>

definition with_bearer :: "(string \<Rightarrow> string) \<Rightarrow> string option \<Rightarrow> request \<Rightarrow> response + request" where
  "with_bearer sign hdr r =
     (case jwt_authenticate sign (req_now r) hdr of
        Inl resp \<Rightarrow> Inl resp
      | Inr k \<Rightarrow> Inr (r\<lparr>req_token := k\<rparr>))"

section \<open>Token views\<close>

definition no_active_account :: response where
  "no_active_account = Response 401 (detail ''No active account found with the given credentials'')"

text \<open>
  \<open>TokenObtainPairView\<close>: no authentication and no permission classes, POST only. The
  serializer's \<open>username\<close> and \<open>password\<close> are required, non-blank \<open>CharField\<close>s (stripped);
  \<open>authenticate()\<close> finds the user by username and checks the password; the response
  carries a refresh token and its access token. Nothing is written.
\<close>

definition token_obtain :: "(string \<Rightarrow> string) \<Rightarrow> (string \<Rightarrow> string \<Rightarrow> bool) \<Rightarrow> handler" where
  "token_obtain sign check_password d r =
     (if req_method r \<noteq> POST then (method_not_allowed, d)
      else
        (let ru = char_field False True False no_check None no_check (req_data r ''username'');
             rp = char_field False True False no_check None no_check (req_data r ''password'');
             errs = err_of ''username'' ru @ err_of ''password'' rp
         in if errs \<noteq> [] then (Response 400 (errors_json errs), d)
            else case get_row username (dflt [] (ok_of ru)) (db_users d) of
                   None \<Rightarrow> (no_active_account, d)
                 | Some u \<Rightarrow>
                     (if check_password (dflt [] (ok_of rp)) (user_password u)
                      then (Response 200 (JObj [(''refresh'', JStr (jwt_encode sign (refresh_for (user_pk u) (req_now r)))),
                                                (''access'', JStr (jwt_encode sign (access_for (user_pk u) (req_now r))))]), d)
                      else (no_active_account, d))))"

text \<open>
  \<open>TokenRefreshView\<close>: the body's \<open>refresh\<close> must be a valid refresh token; the response
  carries a new access token for the same user. A \<open>TokenError\<close> is a 401.
\<close>

definition token_refresh :: "(string \<Rightarrow> string) \<Rightarrow> handler" where
  "token_refresh sign d r =
     (if req_method r \<noteq> POST then (method_not_allowed, d)
      else
        (let rr = char_field False True False no_check None no_check (req_data r ''refresh'')
         in if err_of ''refresh'' rr \<noteq> [] then (Response 400 (errors_json (err_of ''refresh'' rr)), d)
            else case validate_token sign (req_now r) RefreshToken (dflt [] (ok_of rr)) of
                   None \<Rightarrow> (Response 401 (JObj [(''detail'', JStr ''Token is invalid or expired''),
                                                (''code'', JStr ''token_not_valid'')]), d)
                 | Some t \<Rightarrow>
                     (Response 200 (JObj [(''access'', JStr (jwt_encode sign (access_for (tok_user t) (req_now r))))]), d)))"

section \<open>Facts\<close>

lemma split1_append: "c \<notin> set a \<Longrightarrow> split1 c (a @ c # b) = Some (a, b)"
  by (induction a) (auto simp: split1_def)

lemma rsplit1_append: "c \<notin> set b \<Longrightarrow> rsplit1 c (a @ c # b) = Some (a, b)"
  by (simp add: rsplit1_def split1_append)

lemma split_on_none: "c \<notin> set s \<Longrightarrow> split_on c s = [s]"
  by (induction s) auto

lemma digit_char: "is_digit c \<Longrightarrow> c \<noteq> CHR ''-'' \<and> c \<noteq> CHR ''.'' \<and> \<not> is_space c \<and> c \<noteq> CHR 0x00"
  by (auto simp: is_digit_def is_space_def)

lemma b64url_char_sep: "b64url_char c \<Longrightarrow> c \<noteq> CHR ''.'' \<and> \<not> is_space c \<and> c \<noteq> CHR 0x00"
  by (auto simp: b64url_char_def is_space_def)

lemma parse_num_digits: "parse_num (digits_of n) = Some n"
  using digits_of_nonempty digits_of_chars by (simp add: parse_num_def nat_of_digits_of)

lemma digits_no_dash: "CHR ''-'' \<notin> set (digits_of n)"
  using digits_of_chars digit_char by blast

lemma type_claim_parse: "parse_type (type_claim k) = Some k" "CHR ''-'' \<notin> set (type_claim k)"
  by (cases k; simp add: parse_type_def)+

lemma parse_payload_jwt: "parse_payload (jwt_payload t) = Some t"
proof -
  have "split_on CHR ''-'' (jwt_payload t) = [type_claim (tok_type t), digits_of (tok_exp t), digits_of (tok_user t)]"
    by (simp add: jwt_payload_def split_on_append split_on_none type_claim_parse digits_no_dash)
  then show ?thesis by (simp add: parse_payload_def type_claim_parse parse_num_digits)
qed

lemma jwt_decode_encode:
  assumes "CHR ''.'' \<notin> set (sign (signing_input t))"
  shows "jwt_decode sign (jwt_encode sign t) = Some t"
proof -
  have "jwt_encode sign t = signing_input t @ CHR ''.'' # sign (signing_input t)"
    by (simp add: jwt_encode_def)
  then have r: "rsplit1 CHR ''.'' (jwt_encode sign t) = Some (signing_input t, sign (signing_input t))"
    using assms by (simp add: rsplit1_append)
  have "CHR ''.'' \<notin> set jwt_header" by (simp add: jwt_header_def)
  then have "split1 CHR ''.'' (signing_input t) = Some (jwt_header, jwt_payload t)"
    unfolding signing_input_def by (simp add: split1_append)
  with r show ?thesis by (simp add: jwt_decode_def parse_payload_jwt)
qed

text \<open>A token is written in the base64url alphabet and dots: no whitespace, no NUL.\<close>

lemma jwt_encode_chars:
  assumes "\<forall>c \<in> set (sign (signing_input t)). b64url_char c"
  shows "jwt_encode sign t \<noteq> [] \<and> (\<forall>c \<in> set (jwt_encode sign t). \<not> is_space c \<and> c \<noteq> CHR 0x00)"
proof -
  define S where "S = {c. \<not> is_space c \<and> c \<noteq> CHR 0x00}"
  have ty: "set (type_claim k) \<subseteq> S" for k by (cases k) (simp_all add: S_def is_space_def)
  have dg: "set (digits_of n) \<subseteq> S" for n using digits_of_chars digit_char by (auto simp: S_def)
  have hd: "set jwt_header \<subseteq> S" by (simp add: S_def jwt_header_def is_space_def)
  have sep: "CHR ''.'' \<in> S" "CHR ''-'' \<in> S" by (simp_all add: S_def is_space_def)
  have sg: "set (sign (signing_input t)) \<subseteq> S" using assms b64url_char_sep by (auto simp: S_def)
  have si: "set (signing_input t) \<subseteq> S"
    unfolding signing_input_def jwt_payload_def
    by (simp only: set_append set_simps append_Cons append_Nil Un_subset_iff insert_subset empty_subsetI
        ty dg hd sep simp_thms)
  have "set (jwt_encode sign t) \<subseteq> S"
    unfolding jwt_encode_def
    by (simp only: set_append set_simps append_Cons append_Nil Un_subset_iff insert_subset empty_subsetI
        si sg sep simp_thms)
  moreover have "jwt_encode sign t \<noteq> []" by (simp add: jwt_encode_def signing_input_def)
  ultimately show ?thesis by (auto simp: S_def)
qed

lemma strip_nospace: "\<forall>c \<in> set s. \<not> is_space c \<Longrightarrow> strip s = s"
  by (simp add: strip_def dropWhile_none)

lemma split_ws_bearer:
  assumes "tok \<noteq> []" and "\<forall>c \<in> set tok. \<not> is_space c"
  shows "split_ws (''Bearer '' @ tok) = [''Bearer'', tok]"
proof -
  have "map (\<lambda>c. if is_space c then CHR '' '' else c) (''Bearer '' @ tok) = ''Bearer'' @ CHR '' '' # tok"
    using assms(2) by (simp add: is_space_def map_idI)
  moreover have "CHR '' '' \<notin> set tok" using assms(2) by (auto simp: is_space_def)
  ultimately show ?thesis using assms(1) by (simp add: split_ws_def split_on_append split_on_none)
qed

lemma bearer_auth:
  assumes "\<forall>c \<in> set (sign (signing_input t)). b64url_char c"
  shows "jwt_authenticate sign now (Some (''Bearer '' @ jwt_encode sign t)) =
           (if tok_type t = AccessToken \<and> now < tok_exp t then Inr (Some (tok_user t)) else Inl token_not_valid)"
proof -
  have "CHR ''.'' \<notin> set (sign (signing_input t))" using assms b64url_char_sep by blast
  then have "jwt_decode sign (jwt_encode sign t) = Some t" by (rule jwt_decode_encode)
  moreover have "split_ws (''Bearer '' @ jwt_encode sign t) = [''Bearer'', jwt_encode sign t]"
    using jwt_encode_chars [of sign t, OF assms] by (intro split_ws_bearer) auto
  ultimately show ?thesis by (auto simp: jwt_authenticate_def validate_token_def)
qed

lemma char_field_clean:
  assumes "char_field partial req False pre m post (Some (VStr s)) = Inr (Some x)"
  shows "x = strip s \<and> x \<noteq> [] \<and> CHR 0x00 \<notin> set x"
  using assms
  by (auto simp: char_field_def checked_def blank_input_def char_validators_def Let_def split: if_splits)

lemma plain_char_field:
  assumes "strip s \<noteq> []" and "CHR 0x00 \<notin> set (strip s)"
  shows "char_field False True False no_check None no_check (Some (VStr s)) = Inr (Some (strip s))"
  using assms by (simp add: char_field_def checked_def blank_input_def char_validators_def no_check_def)

lemma register_validate_fields:
  assumes "register_validate email_ok d dt = Inr vi"
    and "dt ''username'' = Some (VStr nm)" and "dt ''password'' = Some (VStr pw)"
  shows "reg_username vi = Some (strip nm) \<and> strip nm \<noteq> [] \<and> CHR 0x00 \<notin> set (strip nm) \<and>
         strip nm \<notin> username ` set (db_users d) \<and>
         reg_password vi = Some (strip pw) \<and> strip pw \<noteq> [] \<and> CHR 0x00 \<notin> set (strip pw)"
proof -
  from assms(1) obtain ru rp where
    ru: "char_field False True False
           (\<lambda>s. username_check s @
                 unique_check ''A user with that username already exists.'' user_pk username (db_users d) None s)
           (Some 150) no_check (dt ''username'') = Inr ru" "reg_username vi = ru"
    and rp: "char_field False True False no_check (Some 128) no_check (dt ''password'') = Inr rp"
       "reg_password vi = rp"
    by (auto simp: register_validate_def Let_def err_of_def ok_of_def split: if_splits sum.splits)
  from char_field_required [OF ru(1)] obtain x where x: "ru = Some x" by blast
  from char_field_required [OF rp(1)] obtain y where y: "rp = Some y" by blast
  from ru(1) x assms(2) have cx: "x = strip nm \<and> x \<noteq> [] \<and> CHR 0x00 \<notin> set x" by (simp add: char_field_clean)
  from rp(1) y assms(3) have cy: "y = strip pw \<and> y \<noteq> [] \<and> CHR 0x00 \<notin> set y" by (simp add: char_field_clean)
  from register_validate_ok(1) [OF assms(1)] ru(2) x have "x \<notin> username ` set (db_users d)" by auto
  with cx cy x y ru(2) rp(2) show ?thesis by auto
qed

text \<open>A registration that validates creates the user with the stripped name and the hashed password.\<close>

lemma register_creates:
  assumes "authenticate d r = Inr p" and "register_validate email_ok d (req_data r) = Inr vi"
    and "req_data r ''username'' = Some (VStr nm)" and "req_data r ''password'' = Some (VStr pw)"
  shows "register mk email_ok d r =
           (let u = \<lparr>user_pk = seq_user d, username = strip nm, user_email = dflt [] (reg_email vi),
                     user_password = mk (strip pw)\<rparr>
            in (Response 201 (register_repr u), d\<lparr>db_users := db_users d @ [u], seq_user := Suc (seq_user d)\<rparr>))"
  using register_validate_fields [OF assms(2-4)] assms(1,2)
  by (simp add: register_def initial_AllowAny insert_user_def dflt_def Let_def)

text \<open>
  Obtaining a pair for a user whose password checks: both tokens carry the user's id, the
  access token expires after its lifetime.
\<close>

lemma token_obtain_ok:
  assumes "keys_unique d" and "u \<in> set (db_users d)" and "req_method r = POST"
    and "req_data r ''username'' = Some (VStr nm)" and "req_data r ''password'' = Some (VStr pw)"
    and "strip nm = username u" and "strip nm \<noteq> []" and "CHR 0x00 \<notin> set (strip nm)"
    and "strip pw \<noteq> []" and "CHR 0x00 \<notin> set (strip pw)"
    and "check_password (strip pw) (user_password u)"
  shows "token_obtain sign check_password d r =
           (Response 200 (JObj [(''refresh'', JStr (jwt_encode sign (refresh_for (user_pk u) (req_now r)))),
                                (''access'', JStr (jwt_encode sign (access_for (user_pk u) (req_now r))))]), d)"
proof -
  from assms(1) have "distinct (map username (db_users d))" by (simp add: keys_unique_def)
  with assms(2) have "get_row username (username u) (db_users d) = Some u" by (simp add: get_row_unique)
  with assms show ?thesis
    by (simp add: token_obtain_def plain_char_field err_of_def ok_of_def dflt_def Let_def)
qed

text \<open>A token the backend signs validates to its claims while it has the type and is not expired.\<close>

lemma validate_issued:
  assumes "\<forall>c \<in> set (sign (signing_input t)). b64url_char c"
  shows "validate_token sign now ty (jwt_encode sign t) =
           (if tok_type t = ty \<and> now < tok_exp t then Some t else None)"
proof -
  have "CHR ''.'' \<notin> set (sign (signing_input t))" using assms b64url_char_sep by blast
  then have "jwt_decode sign (jwt_encode sign t) = Some t" by (rule jwt_decode_encode)
  then show ?thesis by (auto simp: validate_token_def)
qed

lemma token_refresh_ok:
  assumes "\<forall>c \<in> set (sign (signing_input (refresh_for u t0))). b64url_char c"
    and "req_method r = POST" and "req_data r ''refresh'' = Some (VStr (jwt_encode sign (refresh_for u t0)))"
    and "req_now r < t0 + refresh_lifetime"
  shows "token_refresh sign d r = (Response 200 (JObj [(''access'', JStr (jwt_encode sign (access_for u (req_now r))))]), d)"
proof -
  let ?tok = "jwt_encode sign (refresh_for u t0)"
  from jwt_encode_chars [of sign "refresh_for u t0", OF assms(1)]
  have c: "?tok \<noteq> []" "\<forall>c \<in> set ?tok. \<not> is_space c" "CHR 0x00 \<notin> set ?tok" by auto
  then have "strip ?tok = ?tok" by (simp add: strip_nospace)
  with c have f: "char_field False True False no_check None no_check (req_data r ''refresh'') = Inr (Some ?tok)"
    using plain_char_field [of ?tok] assms(3) by simp
  have "validate_token sign (req_now r) RefreshToken ?tok = Some (refresh_for u t0)"
    using validate_issued [of sign "refresh_for u t0", OF assms(1)] assms(4) by (simp add: refresh_for_def)
  with f assms(2) show ?thesis
    by (simp add: token_refresh_def err_of_def ok_of_def dflt_def refresh_for_def Let_def)
qed

end
