(* ===== verification/Urls.thy ===== *)
theory Urls
  imports Jwt
begin

text \<open>
  The URL configuration of \<open>src/blog/urls.py\<close>: the \<open>DefaultRouter\<close> with its four
  registered viewsets, followed by the register, token and per-article comments paths.
  Django resolves a path (without its leading slash, relative to where the project
  mounts these patterns) against the patterns in order and takes the first that
  matches. A pattern is a list of path segments, each a literal or a captured value with
  the test its regular expression makes: the router's lookup \<open>[^/.]+\<close>, the \<open>slug\<close>
  converter \<open>[-a-zA-Z0-9_]+\<close>. The resolved route and the request method choose the
  handler; a method the route does not bind is refused with 405 after authentication and
  the permission check, as \<open>APIView.dispatch\<close> runs \<open>initial\<close> before it looks the
  method up. \<open>dispatch\<close> is the whole API: the token views of \<open>Jwt\<close> on their routes, and
  every other view behind the bearer authentication of the request's header.
\<close>

section \<open>Paths\<close>

datatype seg = Lit string | Cap "string \<Rightarrow> bool"

text \<open>The segments of a pattern against those of a path; the captured values in order.\<close>

fun match_segs :: "seg list \<Rightarrow> string list \<Rightarrow> string list option" where
  "match_segs [] [] = Some []"
| "match_segs (Lit l # ps) (s # ss) = (if s = l then match_segs ps ss else None)"
| "match_segs (Cap ok # ps) (s # ss) = (if ok s then map_option (Cons s) (match_segs ps ss) else None)"
| "match_segs _ _ = None"

datatype route =
    ApiRoot
  | CategoryList | CategoryDetail string
  | NewsList | NewsDetail string | NewsLike string
  | CommentList | CommentDetail string
  | LikeList | LikeDetail string
  | RegisterRoute | TokenObtain | TokenRefresh
  | NewsComments string

type_synonym url_pattern = "seg list \<times> (string list \<Rightarrow> route)"

text \<open>Django's resolver: the first pattern that matches.\<close>

fun resolve_in :: "url_pattern list \<Rightarrow> string list \<Rightarrow> route option" where
  "resolve_in [] ss = None"
| "resolve_in ((ps, f) # pats) ss =
     (case match_segs ps ss of
        Some caps \<Rightarrow> Some (f caps)
      | None \<Rightarrow> resolve_in pats ss)"

text \<open>The router's default lookup value regex \<open>[^/.]+\<close> (the segment holds no slash).\<close>

definition lookup_ok :: "string \<Rightarrow> bool" where
  "lookup_ok s \<longleftrightarrow> s \<noteq> [] \<and> CHR ''.'' \<notin> set s"

text \<open>
  \<open>SimpleRouter.get_urls\<close> for one registered prefix: the list route, then the detail
  route, then the viewset's detail actions; \<open>DefaultRouter\<close> puts the API root first.
  (The format-suffix variants, \<open>.json\<close> and the like, are not modelled.)
\<close>

definition viewset_patterns ::
  "string \<Rightarrow> route \<Rightarrow> (string \<Rightarrow> route) \<Rightarrow> (string \<times> (string \<Rightarrow> route)) list \<Rightarrow> url_pattern list" where
  "viewset_patterns prefix lst det actions =
     [([Lit prefix, Lit []], \<lambda>_. lst), ([Lit prefix, Cap lookup_ok, Lit []], \<lambda>cs. det (hd cs))] @
     map (\<lambda>(path, r). ([Lit prefix, Cap lookup_ok, Lit path, Lit []], \<lambda>cs. r (hd cs))) actions"

definition router_patterns :: "url_pattern list" where
  "router_patterns =
     ([Lit []], \<lambda>_. ApiRoot) #
     viewset_patterns ''categories'' CategoryList CategoryDetail [] @
     viewset_patterns ''news'' NewsList NewsDetail [(''like'', NewsLike)] @
     viewset_patterns ''comments'' CommentList CommentDetail [] @
     viewset_patterns ''likes'' LikeList LikeDetail []"

definition urlpatterns :: "url_pattern list" where
  "urlpatterns =
     router_patterns @
     [([Lit ''auth'', Lit ''register'', Lit []], \<lambda>_. RegisterRoute),
      ([Lit ''auth'', Lit ''token'', Lit []], \<lambda>_. TokenObtain),
      ([Lit ''auth'', Lit ''token'', Lit ''refresh'', Lit []], \<lambda>_. TokenRefresh),
      ([Lit ''news'', Cap is_slug, Lit ''comments'', Lit []], \<lambda>cs. NewsComments (hd cs))]"

definition resolve :: "string \<Rightarrow> route option" where
  "resolve path = resolve_in urlpatterns (split_on CHR ''/'' path)"

section \<open>Dispatch\<close>

text \<open>A method the route does not bind: 405, once the request passed \<open>initial\<close>.\<close>

definition not_allowed :: "permission \<Rightarrow> handler" where
  "not_allowed perm d r =
     (case initial d r perm of
        Inl resp \<Rightarrow> (resp, d)
      | Inr p \<Rightarrow> (method_not_allowed, d))"

text \<open>
  The API root lists the viewsets' list URLs (the framework renders them absolute; the
  host is left out here).
\<close>

definition api_root :: handler where
  "api_root d r =
     (case initial d r AllowAny of
        Inl resp \<Rightarrow> (resp, d)
      | Inr p \<Rightarrow> (Response 200 (JObj [(''categories'', JStr ''categories/''), (''news'', JStr ''news/''),
                                     (''comments'', JStr ''comments/''), (''likes'', JStr ''likes/'')]), d))"

text \<open>
  The method map each route binds (\<open>ModelViewSet\<close>: GET and POST on the list route,
  GET, PUT, PATCH and DELETE on the detail route; the \<open>like\<close> action POST only, under
  its own \<open>IsAuthenticated\<close>; \<open>RegisterView\<close> POST; the \<open>comments\<close> view dispatches its
  methods itself). \<open>None\<close>: the token views.
\<close>

fun route_handler :: "(string \<Rightarrow> bool) \<Rightarrow> (string \<Rightarrow> string) \<Rightarrow> route \<Rightarrow> http_method \<Rightarrow> handler option" where
  "route_handler e mk ApiRoot m = Some (if m = GET then api_root else not_allowed AllowAny)"
| "route_handler e mk CategoryList m =
     Some (case m of GET \<Rightarrow> category_list | POST \<Rightarrow> category_create | _ \<Rightarrow> not_allowed AllowAny)"
| "route_handler e mk (CategoryDetail k) m =
     Some (case m of GET \<Rightarrow> category_retrieve k | PUT \<Rightarrow> category_update False k
                   | PATCH \<Rightarrow> category_update True k | DELETE \<Rightarrow> category_destroy k
                   | POST \<Rightarrow> not_allowed AllowAny)"
| "route_handler e mk NewsList m =
     Some (case m of GET \<Rightarrow> news_list | POST \<Rightarrow> news_create | _ \<Rightarrow> not_allowed IsAuthenticatedOrReadOnly)"
| "route_handler e mk (NewsDetail s) m =
     Some (case m of GET \<Rightarrow> news_retrieve s | PUT \<Rightarrow> news_update False s
                   | PATCH \<Rightarrow> news_update True s | DELETE \<Rightarrow> news_destroy s
                   | POST \<Rightarrow> not_allowed IsAuthenticatedOrReadOnly)"
| "route_handler e mk (NewsLike s) m = Some (if m = POST then like s else not_allowed IsAuthenticated)"
| "route_handler e mk CommentList m =
     Some (case m of GET \<Rightarrow> comment_list | POST \<Rightarrow> comment_create e
                   | _ \<Rightarrow> not_allowed IsAuthenticatedOrReadOnly)"
| "route_handler e mk (CommentDetail k) m =
     Some (case m of GET \<Rightarrow> comment_retrieve k | PUT \<Rightarrow> comment_update e False k
                   | PATCH \<Rightarrow> comment_update e True k | DELETE \<Rightarrow> comment_destroy k
                   | POST \<Rightarrow> not_allowed IsAuthenticatedOrReadOnly)"
| "route_handler e mk LikeList m =
     Some (case m of GET \<Rightarrow> like_list | POST \<Rightarrow> like_create | _ \<Rightarrow> not_allowed IsAuthenticated)"
| "route_handler e mk (LikeDetail k) m =
     Some (case m of GET \<Rightarrow> like_retrieve k | PUT \<Rightarrow> like_update False k
                   | PATCH \<Rightarrow> like_update True k | DELETE \<Rightarrow> like_destroy k
                   | POST \<Rightarrow> not_allowed IsAuthenticated)"
| "route_handler e mk RegisterRoute m = Some (if m = POST then register mk e else not_allowed AllowAny)"
| "route_handler e mk TokenObtain m = None"
| "route_handler e mk TokenRefresh m = None"
| "route_handler e mk (NewsComments s) m = Some (comments e s)"

text \<open>
  A request to a path: Django's 404 when no pattern matches (before any view runs),
  otherwise the bound handler; \<open>None\<close> for the token views.
\<close>

definition serve ::
  "(string \<Rightarrow> bool) \<Rightarrow> (string \<Rightarrow> string) \<Rightarrow> string \<Rightarrow> db \<Rightarrow> request \<Rightarrow> (response \<times> db) option" where
  "serve e mk path d r =
     (case resolve path of
        None \<Rightarrow> Some (Response 404 JNull, d)
      | Some rt \<Rightarrow> map_option (\<lambda>h. h d r) (route_handler e mk rt (req_method r)))"

text \<open>
  A request with its \<open>Authorization\<close> header through the whole API. An unmatched path is
  Django's 404 before any view runs. The token views have no authentication classes and
  ignore the header; every other view is an \<open>APIView\<close> whose \<open>initial\<close> authenticates the
  header before anything else, so a header that does not validate is answered with its
  401 there, and otherwise the view sees the token's user id as \<open>req_token\<close>.
\<close>

definition dispatch ::
  "(string \<Rightarrow> string) \<Rightarrow> (string \<Rightarrow> string \<Rightarrow> bool) \<Rightarrow> (string \<Rightarrow> bool) \<Rightarrow> (string \<Rightarrow> string) \<Rightarrow>
   string \<Rightarrow> string option \<Rightarrow> handler" where
  "dispatch sign check_password e mk path hdr d r =
     (case resolve path of
        None \<Rightarrow> (Response 404 JNull, d)
      | Some rt \<Rightarrow>
          (if rt = TokenObtain then token_obtain sign check_password d r
           else if rt = TokenRefresh then token_refresh sign d r
           else case with_bearer sign hdr r of
                  Inl resp \<Rightarrow> (resp, d)
                | Inr r' \<Rightarrow>
                    (case route_handler e mk rt (req_method r') of
                       Some h \<Rightarrow> h d r'
                     | None \<Rightarrow> (Response 404 JNull, d))))"

text \<open>The status codes the API answers with.\<close>

definition api_status :: "nat set" where
  "api_status = {200, 201, 204, 400, 401, 403, 404, 405, 500}"

section \<open>Facts\<close>

lemma is_slug_chars: "is_slug s \<Longrightarrow> s \<noteq> [] \<and> CHR ''/'' \<notin> set s \<and> CHR ''.'' \<notin> set s"
  by (auto simp: is_slug_def is_digit_def)

lemma slug_segments:
  assumes "is_slug s"
  shows "split_on CHR ''/'' (''news/'' @ s @ ''/'') = [''news'', s, []]"
    and "split_on CHR ''/'' (''news/'' @ s @ ''/like/'') = [''news'', s, ''like'', []]"
    and "split_on CHR ''/'' (''news/'' @ s @ ''/comments/'') = [''news'', s, ''comments'', []]"
  using is_slug_chars [OF assms] by (simp_all add: split_on_append)

lemma slug_routes:
  assumes "is_slug s"
  shows "resolve (''news/'' @ s @ ''/'') = Some (NewsDetail s) \<and>
         resolve (''news/'' @ s @ ''/like/'') = Some (NewsLike s) \<and>
         resolve (''news/'' @ s @ ''/comments/'') = Some (NewsComments s)"
proof -
  from is_slug_chars [OF assms] have "lookup_ok s" "s \<noteq> []" by (simp_all add: lookup_ok_def)
  with assms show ?thesis
    unfolding resolve_def slug_segments [OF assms]
    by (simp add: urlpatterns_def router_patterns_def viewset_patterns_def)
qed

text \<open>
  C23: every article slug the serializer accepts is routed: the detail URL, the like URL
  and the per-article comments URL built from it resolve to the article's routes, and the
  router's patterns do not shadow the comments path.
\<close>

theorem slug_urls_resolve:
  assumes "is_slug s"
  shows "resolve (''news/'' @ s @ ''/'') = Some (NewsDetail s) \<and>
         resolve (''news/'' @ s @ ''/like/'') = Some (NewsLike s) \<and>
         resolve (''news/'' @ s @ ''/comments/'') = Some (NewsComments s)"
  using assms by (rule slug_routes)

lemma not_allowed_db: "snd (not_allowed perm d r) = d"
  by (simp add: not_allowed_def split: sum.split)

lemma api_root_db: "snd (api_root d r) = d"
  by (simp add: api_root_def split: sum.split)

lemmas handlers_wf =
  like_wf [OF _ surjective_pairing] comments_wf [OF _ surjective_pairing]
  comment_create_wf [OF _ surjective_pairing] news_create_wf [OF _ surjective_pairing]
  news_update_wf [OF _ surjective_pairing] news_destroy_wf [OF _ surjective_pairing]
  category_create_wf [OF _ surjective_pairing] category_update_wf [OF _ surjective_pairing]
  category_destroy_wf [OF _ surjective_pairing] comment_update_wf [OF _ surjective_pairing]
  comment_destroy_wf [OF _ surjective_pairing] like_create_wf [OF _ surjective_pairing]
  like_update_wf [OF _ surjective_pairing] like_destroy_wf [OF _ surjective_pairing]
  register_wf [OF _ surjective_pairing]

lemmas handlers_read_only = news_read_only generic_read_only [OF surjective_pairing]
  not_allowed_db api_root_db

lemma route_handler_wf:
  assumes "wf_db d" and "route_handler e mk rt m = Some h"
  shows "wf_db (snd (h d r))"
  using assms
  by (cases rt; cases m) (auto simp: handlers_read_only intro: handlers_wf)

lemma serve_news_routes:
  assumes "is_slug s"
  shows "(req_method r = POST \<longrightarrow> serve e mk (''news/'' @ s @ ''/like/'') d r = Some (like s d r)) \<and>
         serve e mk (''news/'' @ s @ ''/comments/'') d r = Some (comments e s d r)"
  using slug_routes [OF assms] by (simp add: serve_def)

lemma serve_like_get:
  assumes "is_slug s" and "req_method r = GET" and "authenticate d r = Inr p"
  shows "serve e mk (''news/'' @ s @ ''/like/'') d r =
           Some (if is_authenticated p then method_not_allowed else not_authenticated, d)"
  using slug_routes [OF assms(1)] assms(2,3)
  by (cases p) (simp_all add: serve_def not_allowed_def initial_def)

lemma initial_status: "initial d r perm = Inl resp \<Longrightarrow> resp_status resp \<in> api_status"
  by (auto simp: initial_def authenticate_def not_authenticated_def api_status_def
      split: sum.splits option.splits if_splits)

lemma st_news:
  "resp_status (fst (news_list d r)) \<in> api_status"
  "resp_status (fst (news_retrieve s d r)) \<in> api_status"
  "resp_status (fst (news_create d r)) \<in> api_status"
  "resp_status (fst (news_update b s d r)) \<in> api_status"
  "resp_status (fst (news_destroy s d r)) \<in> api_status"
  "resp_status (fst (like s d r)) \<in> api_status"
  by (auto simp: news_list_def news_retrieve_def news_create_def news_update_def news_destroy_def like_def
      not_found_def server_error_def api_status_def Let_def dest: initial_status
      split: sum.splits option.splits prod.splits if_splits)

lemma st_comments:
  "resp_status (fst (comments e s d r)) \<in> api_status"
  "resp_status (fst (comment_create e d r)) \<in> api_status"
  by (auto simp: comments_def comment_create_def method_not_allowed_def
      not_found_def server_error_def api_status_def Let_def dest: initial_status
      split: sum.splits option.splits prod.splits if_splits principal.splits)

lemma st_generic:
  "resp_status (fst (category_list d r)) \<in> api_status"
  "resp_status (fst (category_retrieve k d r)) \<in> api_status"
  "resp_status (fst (category_create d r)) \<in> api_status"
  "resp_status (fst (category_update b k d r)) \<in> api_status"
  "resp_status (fst (category_destroy k d r)) \<in> api_status"
  "resp_status (fst (comment_list d r)) \<in> api_status"
  "resp_status (fst (comment_retrieve k d r)) \<in> api_status"
  "resp_status (fst (comment_update e b k d r)) \<in> api_status"
  "resp_status (fst (comment_destroy k d r)) \<in> api_status"
  "resp_status (fst (like_list d r)) \<in> api_status"
  "resp_status (fst (like_retrieve k d r)) \<in> api_status"
  "resp_status (fst (like_create d r)) \<in> api_status"
  "resp_status (fst (like_update b k d r)) \<in> api_status"
  "resp_status (fst (like_destroy k d r)) \<in> api_status"
  "resp_status (fst (register mk e d r)) \<in> api_status"
  "resp_status (fst (not_allowed perm d r)) \<in> api_status"
  "resp_status (fst (api_root d r)) \<in> api_status"
  by (auto simp: category_list_def category_retrieve_def category_create_def category_update_def
      category_destroy_def comment_list_def comment_retrieve_def comment_update_def comment_destroy_def
      like_list_def like_retrieve_def like_create_def like_update_def like_destroy_def register_def
      not_allowed_def api_root_def method_not_allowed_def
      not_found_def server_error_def api_status_def dest: initial_status
      split: sum.splits option.splits prod.splits)

lemmas handlers_status = st_news st_comments st_generic

lemma serve_status_in:
  assumes "serve e mk path d r = Some (resp, d')"
  shows "resp_status resp \<in> api_status"
proof (cases "resolve path")
  case None
  with assms show ?thesis by (auto simp: serve_def api_status_def)
next
  case (Some rt)
  with assms obtain h where h: "route_handler e mk rt (req_method r) = Some h" and run: "h d r = (resp, d')"
    by (auto simp: serve_def)
  have "resp_status (fst (h d r)) \<in> api_status"
    using h by (cases rt; cases "req_method r") (auto simp: handlers_status)
  with run show ?thesis by simp
qed

lemma serve_wf:
  assumes "wf_db d" and "serve e mk path d r = Some (resp, d')"
  shows "wf_db d'"
proof (cases "resolve path")
  case None
  with assms show ?thesis by (simp add: serve_def)
next
  case (Some rt)
  with assms(2) obtain h where h: "route_handler e mk rt (req_method r) = Some h" and "h d r = (resp, d')"
    by (auto simp: serve_def)
  with route_handler_wf [OF assms(1) h, of r] show ?thesis by simp
qed

lemma route_handler_view: "rt \<noteq> TokenObtain \<Longrightarrow> rt \<noteq> TokenRefresh \<Longrightarrow> route_handler e mk rt m \<noteq> None"
  by (cases rt) simp_all

lemma token_views_db: "snd (token_obtain sign chk d r) = d" "snd (token_refresh sign d r) = d"
  by (simp_all add: token_obtain_def token_refresh_def Let_def split: option.split)

lemma st_tokens:
  "resp_status (fst (token_obtain sign chk d r)) \<in> api_status"
  "resp_status (fst (token_refresh sign d r)) \<in> api_status"
  by (simp_all add: token_obtain_def token_refresh_def no_active_account_def method_not_allowed_def
      api_status_def Let_def split: option.split)

lemma with_bearer_status: "with_bearer sign hdr r = Inl resp \<Longrightarrow> resp_status resp \<in> api_status"
  by (auto simp: with_bearer_def jwt_authenticate_def token_not_valid_def api_status_def
      split: option.splits list.splits if_splits sum.splits)

lemma with_bearer_req: "with_bearer sign hdr r = Inr r' \<Longrightarrow> req_method r' = req_method r \<and> req_data r' = req_data r \<and> req_now r' = req_now r"
  by (auto simp: with_bearer_def split: sum.splits)

text \<open>Every request through the API is one of: a 404, a token view, a header refused, or a routed view.\<close>

lemma dispatch_cases:
  assumes "dispatch sign chk e mk path hdr d r = (resp, d')"
  obtains "resolve path = None" "resp = Response 404 JNull" "d' = d"
  | "token_obtain sign chk d r = (resp, d')"
  | "token_refresh sign d r = (resp, d')"
  | "with_bearer sign hdr r = Inl resp" "d' = d"
  | r' where "with_bearer sign hdr r = Inr r'" "serve e mk path d r' = Some (resp, d')"
proof (cases "resolve path")
  case None
  then show ?thesis using assms that(1) by (simp add: dispatch_def)
next
  case (Some rt)
  show ?thesis
  proof (cases "rt = TokenObtain \<or> rt = TokenRefresh")
    case True
    then show ?thesis using assms that(2,3) Some by (auto simp: dispatch_def)
  next
    case False
    then obtain h where h: "route_handler e mk rt (req_method r) = Some h"
      using route_handler_view by blast
    show ?thesis
    proof (cases "with_bearer sign hdr r")
      case (Inl x)
      then show ?thesis using assms that(4) Some False by (simp add: dispatch_def)
    next
      case (Inr r')
      with h have "route_handler e mk rt (req_method r') = Some h" by (simp add: with_bearer_req)
      with Inr show ?thesis using assms that(5) Some False by (simp add: dispatch_def serve_def)
    qed
  qed
qed

lemma dispatch_keeps_integrity:
  assumes "wf_db d" and "dispatch sign chk e mk path hdr d r = (resp, d')"
  shows "wf_db d'"
  using assms(2)
proof (cases rule: dispatch_cases)
  case 2
  then show ?thesis using assms(1) token_views_db(1) [of sign chk d r] by simp
next
  case 3
  then show ?thesis using assms(1) token_views_db(2) [of sign d r] by simp
next
  case (5 r')
  then show ?thesis using assms(1) by (blast intro: serve_wf)
qed (use assms(1) in simp_all)

lemma dispatch_status:
  assumes "dispatch sign chk e mk path hdr d r = (resp, d')"
  shows "resp_status resp \<in> api_status"
  using assms
proof (cases rule: dispatch_cases)
  case 1
  then show ?thesis by (simp add: api_status_def)
next
  case 2
  then show ?thesis using st_tokens(1) [of sign chk d r] by simp
next
  case 3
  then show ?thesis using st_tokens(2) [of sign d r] by simp
next
  case 4
  then show ?thesis by (blast intro: with_bearer_status)
next
  case (5 r')
  then show ?thesis by (blast intro: serve_status_in)
qed

text \<open>
  C25: a bearer header whose token is a refresh token, or an access token that has
  expired, is refused with 401 by every view but the token views, whatever the path,
  method and body, and the database is unchanged.
\<close>

theorem dispatch_rejects_bad_bearer:
  assumes "resolve path = Some rt" and "rt \<noteq> TokenObtain" and "rt \<noteq> TokenRefresh"
    and "\<forall>c \<in> set (sign (signing_input t)). b64url_char c"
    and "tok_type t = RefreshToken \<or> tok_exp t \<le> req_now r"
  shows "dispatch sign chk e mk path (Some (''Bearer '' @ jwt_encode sign t)) d r = (token_not_valid, d)"
proof -
  have "\<not> (tok_type t = AccessToken \<and> req_now r < tok_exp t)" using assms(5) by auto
  then have "with_bearer sign (Some (''Bearer '' @ jwt_encode sign t)) r = Inl token_not_valid"
    using bearer_auth [of sign t, OF assms(4), of "req_now r"] by (simp add: with_bearer_def)
  with assms(1-3) show ?thesis by (simp add: dispatch_def)
qed

lemma auth_routes:
  "resolve ''auth/register/'' = Some RegisterRoute"
  "resolve ''auth/token/'' = Some TokenObtain"
  "resolve ''auth/token/refresh/'' = Some TokenRefresh"
  by (simp_all add: resolve_def urlpatterns_def router_patterns_def viewset_patterns_def)

lemma with_bearer_none: "with_bearer sign None r = Inr (r\<lparr>req_token := None\<rparr>)"
  by (simp add: with_bearer_def jwt_authenticate_def)

text \<open>
  C24: the spec's scenario across registration, the token endpoint and the comments view.
  A user registers with a name and a password; a token request with the same name and
  password within the body is answered with a refresh and an access token; a comment
  posted to an article with that access token before it expires is stored with the new
  user as its user and the registered name as its name, whatever name the body gives.
\<close>

theorem register_token_comment:
  assumes wf: "wf_db d"
    and hash: "\<forall>raw. check_password raw (mk raw)"
    and sig: "\<forall>s. \<forall>c \<in> set (sign s). b64url_char c"
    and r1: "req_method r1 = POST" "req_data r1 ''username'' = Some (VStr nm)"
            "req_data r1 ''password'' = Some (VStr pw)"
    and valid: "register_validate e d (req_data r1) = Inr vi"
    and reg: "dispatch sign check_password e mk ''auth/register/'' None d r1 = (resp1, d1)"
    and r2: "req_method r2 = POST" "req_data r2 ''username'' = Some (VStr nm)"
            "req_data r2 ''password'' = Some (VStr pw)"
    and tok: "dispatch sign check_password e mk ''auth/token/'' None d1 r2 = (resp2, d2)"
    and r3: "req_method r3 = POST" "req_now r3 < req_now r2 + access_lifetime"
    and n: "n \<in> set (db_news d)" "news_slug n = s" "is_slug s"
    and cv: "comment_validate e d1 False (req_data r3) = Inr ci"
  shows "\<exists>u acc. db_users d1 = db_users d @ [u] \<and> username u = strip nm \<and> d2 = d1 \<and>
           resp2 = Response 200 (JObj [(''refresh'', JStr (jwt_encode sign (refresh_for (user_pk u) (req_now r2)))),
                                       (''access'', JStr acc)]) \<and>
           (\<exists>c. dispatch sign check_password e mk (''news/'' @ s @ ''/comments/'') (Some (''Bearer '' @ acc)) d2 r3 =
                  (Response 201 (comment_repr (d1\<lparr>db_comments := db_comments d1 @ [c],
                                                   seq_comment := Suc (seq_comment d1)\<rparr>) c),
                   d1\<lparr>db_comments := db_comments d1 @ [c], seq_comment := Suc (seq_comment d1)\<rparr>) \<and>
                comment_user c = user_pk u \<and> comment_name c = strip nm)"
proof -
  define u where "u = \<lparr>user_pk = seq_user d, username = strip nm, user_email = dflt [] (reg_email vi),
                       user_password = mk (strip pw)\<rparr>"
  let ?r1 = "r1\<lparr>req_token := None\<rparr>"
  have "authenticate d ?r1 = Inr Anonymous" by (simp add: authenticate_def)
  from register_creates [OF this, of e vi nm pw mk] valid r1
  have run1: "register mk e d ?r1 = (Response 201 (register_repr u), d\<lparr>db_users := db_users d @ [u], seq_user := Suc (seq_user d)\<rparr>)"
    by (simp add: u_def Let_def)
  with reg r1(1) have d1: "d1 = d\<lparr>db_users := db_users d @ [u], seq_user := Suc (seq_user d)\<rparr>"
    by (simp add: dispatch_def auth_routes with_bearer_none)
  from run1 have wf1: "wf_db d1" using register_wf [OF wf run1] d1 by simp
  then have ku1: "keys_unique d1" by (simp add: wf_db_def)
  have u1: "u \<in> set (db_users d1)" by (simp add: d1)
  from register_validate_fields [OF valid r1(2,3)]
  have f: "strip nm \<noteq> []" "CHR 0x00 \<notin> set (strip nm)" "strip pw \<noteq> []" "CHR 0x00 \<notin> set (strip pw)" by auto
  have "check_password (strip pw) (user_password u)" using hash by (simp add: u_def)
  moreover have "strip nm = username u" by (simp add: u_def)
  ultimately have run2: "token_obtain sign check_password d1 r2 =
      (Response 200 (JObj [(''refresh'', JStr (jwt_encode sign (refresh_for (user_pk u) (req_now r2)))),
                           (''access'', JStr (jwt_encode sign (access_for (user_pk u) (req_now r2))))]), d1)"
    using token_obtain_ok [OF ku1 u1 r2(1-3) _ f, of check_password sign] by blast
  with tok have resp2: "resp2 = Response 200 (JObj [(''refresh'', JStr (jwt_encode sign (refresh_for (user_pk u) (req_now r2)))),
                           (''access'', JStr (jwt_encode sign (access_for (user_pk u) (req_now r2))))])" and d2: "d2 = d1"
    by (simp_all add: dispatch_def auth_routes)
  let ?acc = "jwt_encode sign (access_for (user_pk u) (req_now r2))"
  let ?r3 = "r3\<lparr>req_token := Some (user_pk u)\<rparr>"
  have "\<forall>c \<in> set (sign (signing_input (access_for (user_pk u) (req_now r2)))). b64url_char c" using sig by blast
  from bearer_auth [of sign "access_for (user_pk u) (req_now r2)", OF this, of "req_now r3"] r3(2)
  have wb: "with_bearer sign (Some (''Bearer '' @ ?acc)) r3 = Inr ?r3"
    by (simp add: with_bearer_def access_for_def)
  have n1: "n \<in> set (db_news d1)" using n(1) by (simp add: d1)
  have run3: "comments e s d1 ?r3 =
     (let c = \<lparr>comment_pk = seq_comment d1, comment_news = news_pk n, comment_user = user_pk u,
               comment_name = username u, comment_email = user_email u,
               comment_text = dflt [] (ci_comment ci), comment_timestamp = req_now ?r3\<rparr>;
          d' = d1\<lparr>db_comments := db_comments d1 @ [c], seq_comment := Suc (seq_comment d1)\<rparr>
      in (Response 201 (comment_repr d' c), d'))"
    by (rule comments_post_as [OF wf1 u1 _ _ n1 n(2)]) (simp_all add: r3(1) cv)
  have "resolve (''news/'' @ s @ ''/comments/'') = Some (NewsComments s)" using slug_routes [OF n(3)] by simp
  with wb run3 r3(1) have "dispatch sign check_password e mk (''news/'' @ s @ ''/comments/'') (Some (''Bearer '' @ ?acc)) d2 r3 =
     (let c = \<lparr>comment_pk = seq_comment d1, comment_news = news_pk n, comment_user = user_pk u,
               comment_name = username u, comment_email = user_email u,
               comment_text = dflt [] (ci_comment ci), comment_timestamp = req_now r3\<rparr>;
          d' = d1\<lparr>db_comments := db_comments d1 @ [c], seq_comment := Suc (seq_comment d1)\<rparr>
      in (Response 201 (comment_repr d' c), d'))"
    by (simp add: dispatch_def d2)
  then show ?thesis using d1 d2 resp2 by (auto simp: u_def Let_def)
qed

lemma token_refresh_roundtrip:
  assumes sig: "\<forall>s. \<forall>c \<in> set (sign s). b64url_char c"
    and post: "req_method r = POST" and body: "req_data r ''refresh'' = Some (VStr (jwt_encode sign (refresh_for u t0)))"
    and live: "req_now r < t0 + refresh_lifetime"
  shows "\<exists>acc. dispatch sign chk e mk ''auth/token/refresh/'' hdr d r = (Response 200 (JObj [(''access'', JStr acc)]), d) \<and>
           validate_token sign now AccessToken acc =
             (if now < req_now r + access_lifetime then Some \<lparr>tok_type = AccessToken, tok_exp = req_now r + access_lifetime, tok_user = u\<rparr>
              else None)"
proof -
  have "token_refresh sign d r = (Response 200 (JObj [(''access'', JStr (jwt_encode sign (access_for u (req_now r))))]), d)"
    using sig by (intro token_refresh_ok [OF _ post body live]) blast
  moreover have "validate_token sign now AccessToken (jwt_encode sign (access_for u (req_now r))) =
      (if now < req_now r + access_lifetime then Some (access_for u (req_now r)) else None)"
    using validate_issued [of sign "access_for u (req_now r)"] sig by (simp add: access_for_def)
  ultimately show ?thesis by (simp add: dispatch_def auth_routes access_for_def)
qed

end
