(* ===== verification/Calendar.thy ===== *)
theory Calendar
  imports Blog_Prelude
begin

text \<open>
  The proleptic Gregorian calendar of Python's \<open>datetime\<close> on day numbers counted from
  1970-01-01, as Django's \<open>DateFieldListFilter\<close> of the admin needs it: \<open>civil\<close> turns a
  day number into a date (year, month, day) by peeling off whole years (\<open>year_of\<close>) and
  whole months (\<open>month_of\<close>), \<open>days_from_civil\<close> turns a date back into its day number
  (what \<open>date.replace\<close> and \<open>timedelta\<close> arithmetic compute). The facts: \<open>civil\<close>
  yields valid dates and inverts \<open>days_from_civil\<close>; the days of a month form an
  interval, the months of the calendar are ordered, and a day lies in a month's interval
  exactly when \<open>civil\<close> gives that month.
\<close>

section \<open>Dates\<close>

definition leap_year :: "nat \<Rightarrow> bool" where
  "leap_year y \<longleftrightarrow> 4 dvd y \<and> (\<not> 100 dvd y \<or> 400 dvd y)"

definition year_days :: "nat \<Rightarrow> nat" where
  "year_days y = (if leap_year y then 366 else 365)"

definition month_days :: "nat \<Rightarrow> nat \<Rightarrow> nat" where
  "month_days y m =
     (if m = 2 then (if leap_year y then 29 else 28) else if m \<in> {4, 6, 9, 11} then 30 else 31)"

function year_of :: "nat \<Rightarrow> nat \<Rightarrow> nat \<times> nat" where
  "year_of y z = (if z < year_days y then (y, z) else year_of (Suc y) (z - year_days y))"
  by auto
termination
  by (relation "measure snd") (auto simp: year_days_def)

function month_of :: "nat \<Rightarrow> nat \<Rightarrow> nat \<Rightarrow> nat \<times> nat" where
  "month_of y m z = (if 12 \<le> m \<or> z < month_days y m then (m, z) else month_of y (Suc m) (z - month_days y m))"
  by auto
termination
  by (relation "measure (\<lambda>(y, m, z). 12 - m)") auto

text \<open>The date of a day number.\<close>

definition civil :: "nat \<Rightarrow> nat \<times> nat \<times> nat" where
  "civil z = (let (y, k) = year_of 1970 z; (m, j) = month_of y 1 k in (y, m, Suc j))"

text \<open>The day number of a date, and the first day of a month.\<close>

definition days_before_month :: "nat \<Rightarrow> nat \<Rightarrow> nat" where
  "days_before_month y m = sum_list (map (month_days y) [1..<m])"

definition days_from_civil :: "nat \<times> nat \<times> nat \<Rightarrow> nat" where
  "days_from_civil ymd = (case ymd of (y, m, d) \<Rightarrow>
     sum_list (map year_days [1970..<y]) + days_before_month y m + (d - 1))"

definition month_start :: "nat \<Rightarrow> nat \<Rightarrow> nat" where
  "month_start y m = sum_list (map year_days [1970..<y]) + days_before_month y m"

declare year_of.simps [simp del] month_of.simps [simp del]

section \<open>Facts\<close>

lemma year_of_spec:
  "year_of y z = (y', k) \<Longrightarrow> y \<le> y' \<and> k < year_days y' \<and> sum_list (map year_days [y..<y']) + k = z"
proof (induction y z rule: year_of.induct)
  case (1 y z)
  show ?case
  proof (cases "z < year_days y")
    case True
    with "1.prems" show ?thesis by (simp add: year_of.simps)
  next
    case False
    with "1.prems" have "year_of (Suc y) (z - year_days y) = (y', k)" by (simp add: year_of.simps)
    with "1.IH" False have ih: "Suc y \<le> y'" "k < year_days y'"
      "sum_list (map year_days [Suc y..<y']) + k = z - year_days y" by auto
    then have "[y..<y'] = y # [Suc y..<y']" by (simp add: upt_rec)
    with ih False show ?thesis by simp
  qed
qed

lemma month_of_spec:
  "month_of y m z = (m', j) \<Longrightarrow> 1 \<le> m \<Longrightarrow> z < sum_list (map (month_days y) [m..<13]) \<Longrightarrow>
   m \<le> m' \<and> m' \<le> 12 \<and> j < month_days y m' \<and> sum_list (map (month_days y) [m..<m']) + j = z"
proof (induction y m z rule: month_of.induct)
  case (1 y m z)
  have m13: "m < 13" using "1.prems"(3) by (cases "m < 13") auto
  then have split: "[m..<13] = m # [Suc m..<13]" by (simp add: upt_rec)
  show ?case
  proof (cases "12 \<le> m \<or> z < month_days y m")
    case True
    with "1.prems"(1) have "m' = m" "j = z" by (simp_all add: month_of.simps)
    moreover have "z < month_days y m"
      using True "1.prems"(3) m13 split by (cases "m = 12") auto
    ultimately show ?thesis using m13 by simp
  next
    case False
    with "1.prems"(1) have "month_of y (Suc m) (z - month_days y m) = (m', j)" by (simp add: month_of.simps)
    moreover have "z - month_days y m < sum_list (map (month_days y) [Suc m..<13])"
      using "1.prems"(3) split False by (simp add: less_diff_conv2)
    ultimately have ih: "Suc m \<le> m'" "m' \<le> 12" "j < month_days y m'"
      "sum_list (map (month_days y) [Suc m..<m']) + j = z - month_days y m"
      using "1.IH" False by auto
    then have "[m..<m'] = m # [Suc m..<m']" by (simp add: upt_rec)
    with ih False show ?thesis by simp
  qed
qed

lemma months_year: "sum_list (map (month_days y) [1..<13]) = year_days y"
  by (simp add: upt_rec month_days_def year_days_def)

theorem civil_roundtrip:
  "civil z = (y, m, d) \<Longrightarrow> 1 \<le> m \<and> m \<le> 12 \<and> 1 \<le> d \<and> d \<le> month_days y m \<and> days_from_civil (y, m, d) = z"
proof -
  assume c: "civil z = (y, m, d)"
  obtain y' k where yk: "year_of 1970 z = (y', k)" by fastforce
  obtain m' j where mj: "month_of y' 1 k = (m', j)" by fastforce
  from c yk mj have eq: "y = y'" "m = m'" "d = Suc j" by (simp_all add: civil_def)
  from year_of_spec [OF yk] have ys: "k < year_days y'" "sum_list (map year_days [1970..<y']) + k = z" by auto
  from month_of_spec [OF mj] ys(1) months_year [of y'] have
    ms: "1 \<le> m'" "m' \<le> 12" "j < month_days y' m'" "sum_list (map (month_days y') [1..<m']) + j = k" by auto
  show ?thesis using eq ys ms by (simp add: days_from_civil_def days_before_month_def)
qed

lemma civil_year_ge: "civil z = (y, m, d) \<Longrightarrow> 1970 \<le> y"
  using year_of_spec [of 1970 z] by (auto simp: civil_def split: prod.splits)

lemma days_before_month_Suc: "1 \<le> m \<Longrightarrow> days_before_month y (Suc m) = days_before_month y m + month_days y m"
  by (simp add: days_before_month_def)

lemma days_before_month_year: "m \<le> 12 \<Longrightarrow> days_before_month y (Suc m) \<le> year_days y"
proof -
  assume "m \<le> 12"
  then have "[1..<13] = [1..<Suc m] @ [Suc m..<13]" using upt_add_eq_append [of 1 "Suc m" "12 - m"] by simp
  then show ?thesis using months_year [of y] by (simp add: days_before_month_def)
qed

lemma years_Suc: "1970 \<le> y \<Longrightarrow> sum_list (map year_days [1970..<Suc y]) = sum_list (map year_days [1970..<y]) + year_days y"
  by simp

text \<open>The day's month lies between the start of its month and the next month's start, within its year.\<close>

lemma month_bounds:
  assumes "civil z = (y, m, d)"
  shows "days_from_civil (y, 1, 1) \<le> days_from_civil (y, m, 1) \<and> days_from_civil (y, m, 1) \<le> z \<and>
         Suc z \<le> (if m = 12 then days_from_civil (Suc y, 1, 1) else days_from_civil (y, Suc m, 1)) \<and>
         (if m = 12 then days_from_civil (Suc y, 1, 1) else days_from_civil (y, Suc m, 1)) \<le> days_from_civil (Suc y, 1, 1)"
proof -
  from civil_roundtrip [OF assms] have v: "1 \<le> m" "m \<le> 12" "1 \<le> d" "d \<le> month_days y m"
    and z: "days_from_civil (y, m, d) = z" by auto
  have y: "1970 \<le> y" by (rule civil_year_ge [OF assms])
  let ?Y = "sum_list (map year_days [1970..<y])"
  have z': "z = ?Y + days_before_month y m + (d - 1)" using z by (simp add: days_from_civil_def)
  have next_y: "days_from_civil (Suc y, 1, 1) = ?Y + year_days y"
    using y by (simp add: days_from_civil_def days_before_month_def)
  have nm: "days_before_month y (Suc m) = days_before_month y m + month_days y m"
    using v(1) by (rule days_before_month_Suc)
  have le: "days_before_month y (Suc m) \<le> year_days y" using v(2) by (rule days_before_month_year)
  have twelve: "m = 12 \<Longrightarrow> days_before_month y (Suc m) = year_days y"
    using months_year [of y] by (simp add: days_before_month_def)
  show ?thesis
    using z' next_y nm le twelve v by (auto simp: days_from_civil_def days_before_month_def)
qed

lemma years_mono: "1970 \<le> y \<Longrightarrow> y \<le> y' \<Longrightarrow>
  sum_list (map year_days [1970..<y]) + sum_list (map year_days [y..<y']) = sum_list (map year_days [1970..<y'])"
  by (metis map_append sum_list_append upt_add_eq_append le_Suc_ex)

lemma days_before_month_mono: "m \<le> m' \<Longrightarrow> days_before_month y m \<le> days_before_month y m'"
proof -
  assume "m \<le> m'"
  then show ?thesis
  proof (cases "m = 0")
    case True
    then show ?thesis by (simp add: days_before_month_def)
  next
    case False
    with \<open>m \<le> m'\<close> have "[1..<m'] = [1..<m] @ [m..<m']" using upt_add_eq_append [of 1 m "m' - m"] by simp
    then show ?thesis by (simp add: days_before_month_def)
  qed
qed

text \<open>The start of the month after \<open>(y, m)\<close>, as Django's filter computes it.\<close>

lemma months_before_dec: "days_before_month y 12 + month_days y 12 = year_days y"
  by (simp add: days_before_month_def upt_rec month_days_def year_days_def)

lemma next_month_start:
  "1 \<le> m \<Longrightarrow> m \<le> 12 \<Longrightarrow> 1970 \<le> y \<Longrightarrow>
   (if m = 12 then days_from_civil (Suc y, 1, 1) else days_from_civil (y, Suc m, 1)) = month_start y m + month_days y m"
  using days_before_month_Suc [of m y] months_before_dec [of y]
  by (auto simp: days_from_civil_def month_start_def days_before_month_def)

lemma month_order:
  assumes "1 \<le> m" "m \<le> 12" "1 \<le> m'" "m' \<le> 12" "1970 \<le> y" "y < y' \<or> (y = y' \<and> m < m')"
  shows "month_start y m + month_days y m \<le> month_start y' m'"
proof -
  have up: "month_start y m + month_days y m = sum_list (map year_days [1970..<y]) + days_before_month y (Suc m)"
    using days_before_month_Suc [OF assms(1)] by (simp add: month_start_def)
  show ?thesis
  proof (cases "y = y'")
    case True
    with assms(6) have "Suc m \<le> m'" by simp
    with up True show ?thesis by (simp add: month_start_def days_before_month_mono)
  next
    case False
    with assms(6) have "Suc y \<le> y'" by simp
    have "days_before_month y (Suc m) \<le> year_days y" using assms(2) by (rule days_before_month_year)
    moreover have "sum_list (map year_days [1970..<Suc y]) \<le> sum_list (map year_days [1970..<y'])"
      using years_mono [of "Suc y" y'] assms(5) \<open>Suc y \<le> y'\<close> by (metis le_SucI le_add1)
    ultimately show ?thesis using up assms(5) by (simp add: month_start_def)
  qed
qed

lemma civil_month_start:
  assumes "civil z = (y, m, d)"
  shows "month_start y m \<le> z \<and> z < month_start y m + month_days y m"
  using civil_roundtrip [OF assms] by (auto simp: days_from_civil_def month_start_def)

lemma month_interval:
  assumes c: "civil z = (y', m', d')" and v: "1 \<le> m" "m \<le> 12" "1970 \<le> y"
  shows "(month_start y m \<le> z \<and> z < month_start y m + month_days y m) \<longleftrightarrow> (y', m') = (y, m)"
proof
  assume "(y', m') = (y, m)"
  with civil_month_start [OF c] show "month_start y m \<le> z \<and> z < month_start y m + month_days y m" by simp
next
  assume r: "month_start y m \<le> z \<and> z < month_start y m + month_days y m"
  from civil_roundtrip [OF c] civil_year_ge [OF c] have v': "1 \<le> m'" "m' \<le> 12" "1970 \<le> y'" by auto
  note z = civil_month_start [OF c]
  show "(y', m') = (y, m)"
  proof (rule ccontr)
    assume "(y', m') \<noteq> (y, m)"
    then have "y' < y \<or> (y' = y \<and> m' < m) \<or> y < y' \<or> (y = y' \<and> m < m')" by auto
    then show False
    proof (elim disjE)
      assume "y' < y"
      from month_order [of m' m y' y, OF v'(1,2) v(1,2) v'(3)] this z r show False by auto
    next
      assume "y' = y \<and> m' < m"
      from month_order [of m' m y' y, OF v'(1,2) v(1,2) v'(3)] this z r show False by auto
    next
      assume "y < y'"
      from month_order [of m m' y y', OF v(1,2) v'(1,2) v(3)] this z r show False by auto
    next
      assume "y = y' \<and> m < m'"
      from month_order [of m m' y y', OF v(1,2) v'(1,2) v(3)] this z r show False by auto
    qed
  qed
qed

lemma year_interval:
  assumes c: "civil z = (y', m', d')" and y: "1970 \<le> y"
  shows "(month_start y 1 \<le> z \<and> z < month_start y 12 + month_days y 12) \<longleftrightarrow> y' = y"
proof
  assume "y' = y"
  with civil_month_start [OF c] civil_roundtrip [OF c] show "month_start y 1 \<le> z \<and> z < month_start y 12 + month_days y 12"
    using days_before_month_mono [of 1 m' y] months_before_dec [of y] days_before_month_Suc [of m' y]
      days_before_month_year [of m' y]
    by (auto simp: month_start_def)
next
  assume r: "month_start y 1 \<le> z \<and> z < month_start y 12 + month_days y 12"
  from civil_roundtrip [OF c] civil_year_ge [OF c] have v': "1 \<le> m'" "m' \<le> 12" "1970 \<le> y'" by auto
  note z = civil_month_start [OF c]
  show "y' = y"
  proof (rule ccontr)
    assume "y' \<noteq> y"
    then consider "y' < y" | "y < y'" by linarith
    then show False
    proof cases
      case 1
      from month_order [of m' 1 y' y, OF v'(1,2) _ _ v'(3)] this z r show False by auto
    next
      case 2
      from month_order [of 12 m' y y', OF _ _ v'(1,2) y] this z r show False by auto
    qed
  qed
qed

end
