(* ===== verification/Admin.thy ===== *)
theory Admin
  imports Urls Calendar "HOL-Library.Sublist" "HOL-Library.Product_Lexorder"
begin

text \<open>
  The admin site configuration of \<open>src/blog/admin.py\<close>. \<open>NewsAdmin\<close>: the change list
  with the \<open>category\<close>, \<open>is_breaking\<close> and \<open>date_posted\<close> entries of \<open>list_filter\<close> and
  \<open>search_fields = ['title', 'body']\<close>, ordered by the model's \<open>-date_posted\<close> and then by
  \<open>-pk\<close>, as Django's change list completes the ordering to make it total; its
  \<open>list_display\<close> row; and the slug \<open>prepopulated_fields\<close> fills in from the title.
  \<open>CategoryAdmin\<close>: its rows and its prepopulated slug. The default admins of \<open>Comment\<close>
  and \<open>Like\<close> (\<open>admin.site.register\<close>), which list each row through the model's
  \<open>__str__\<close>, newest key first.

  Django's \<open>get_search_results\<close> splits the search text into terms and keeps the rows
  where every term is contained, ignoring case, in one of the search fields (\<open>icontains\<close>,
  ASCII case folding). The \<open>date_posted\<close> filter is \<open>DateFieldListFilter\<close>: its choices
  are half-open ranges of times from the start of today (UTC, times in seconds) computed
  with \<open>date.replace\<close> and \<open>timedelta\<close> (\<open>Calendar\<close>). The prepopulated slug is the
  admin's \<open>URLify\<close> (\<open>urlify.js\<close> of current Django, without the stop-word list older
  releases removed), with the transliteration table \<open>downcode\<close> a parameter. Not modelled:
  quoted phrases in the search text and the HTML rendering.
\<close>

section \<open>The article change list\<close>

definition lower_char :: "char \<Rightarrow> char" where
  "lower_char c =
     (if (65::nat) \<le> of_char c \<and> of_char c \<le> (90::nat) then char_of (of_char c + (32::nat)) else c)"

text \<open>\<open>field__icontains=term\<close>.\<close>

definition icontains :: "string \<Rightarrow> string \<Rightarrow> bool" where
  "icontains hay term \<longleftrightarrow> sublist (map lower_char term) (map lower_char hay)"

text \<open>
  The terms of the search text, \<open>smart_split\<close> of a text without quotes: its
  whitespace-separated words, as \<open>split()\<close> gives them.
\<close>

definition admin_terms :: "string \<Rightarrow> string list" where
  "admin_terms q = split_ws q"

definition news_search_match :: "string list \<Rightarrow> News \<Rightarrow> bool" where
  "news_search_match ts n \<longleftrightarrow> list_all (\<lambda>t. icontains (news_title n) t \<or> icontains (news_body n) t) ts"

text \<open>
  \<open>DateFieldListFilter\<close>: "Any date", "Today", "Past 7 days", "This month", "This year";
  the range \<open>date_posted__gte\<close> .. \<open>date_posted__lt\<close> of a choice at the time \<open>now\<close>.
\<close>

datatype date_choice = AnyDate | Today | PastSevenDays | ThisMonth | ThisYear

definition date_range :: "timestamp \<Rightarrow> date_choice \<Rightarrow> (timestamp \<times> timestamp) option" where
  "date_range now ch =
     (let today = now div 86400; (y, m, d) = civil today;
          tomorrow = Suc today;
          next_month = (if m = 12 then days_from_civil (Suc y, 1, 1) else days_from_civil (y, Suc m, 1));
          next_year = days_from_civil (Suc y, 1, 1)
      in map_option (\<lambda>(a, b). (a * 86400, b * 86400))
           (case ch of
              AnyDate \<Rightarrow> None
            | Today \<Rightarrow> Some (today, tomorrow)
            | PastSevenDays \<Rightarrow> Some (today - 7, tomorrow)
            | ThisMonth \<Rightarrow> Some (days_from_civil (y, m, 1), next_month)
            | ThisYear \<Rightarrow> Some (days_from_civil (y, 1, 1), next_year)))"

definition in_range :: "(timestamp \<times> timestamp) option \<Rightarrow> timestamp \<Rightarrow> bool" where
  "in_range r t = (case r of None \<Rightarrow> True | Some (a, b) \<Rightarrow> a \<le> t \<and> t < b)"

text \<open>
  The \<open>category\<close> filter: no choice, the \<open>(None)\<close> choice (\<open>category__isnull\<close>), or a
  category; the \<open>is_breaking\<close> filter: no choice or a value; the \<open>date_posted\<close> filter.
\<close>

definition news_admin_changelist ::
  "cat_id option option \<Rightarrow> bool option \<Rightarrow> date_choice \<Rightarrow> timestamp \<Rightarrow> string \<Rightarrow> db \<Rightarrow> News list" where
  "news_admin_changelist cat brk dt now q d =
     filter (\<lambda>n. (case cat of None \<Rightarrow> True | Some c \<Rightarrow> news_category n = c) \<and>
                 (case brk of None \<Rightarrow> True | Some b \<Rightarrow> news_is_breaking n = b) \<and>
                 in_range (date_range now dt) (news_date_posted n) \<and>
                 news_search_match (admin_terms q) n)
       (sort_key (\<lambda>n. (- int (news_date_posted n), - int (news_pk n))) (db_news d))"

section \<open>Rows\<close>

text \<open>
  The \<open>__str__\<close> of the models; following \<open>self.news\<close> or \<open>self.user\<close> to a missing row
  raises, here \<open>None\<close>.
\<close>

definition category_str :: "Category \<Rightarrow> string" where
  "category_str c = cat_name c"

definition news_str :: "News \<Rightarrow> string" where
  "news_str n = news_title n"

definition comment_str :: "db \<Rightarrow> Comment \<Rightarrow> string option" where
  "comment_str d c =
     map_option (\<lambda>n. ''Comment by '' @ comment_name c @ '' on '' @ news_title n)
       (get_row news_pk (comment_news c) (db_news d))"

definition like_str :: "db \<Rightarrow> Like \<Rightarrow> string option" where
  "like_str d l =
     (case (get_row user_pk (like_user l) (db_users d), get_row news_pk (like_news l) (db_news d)) of
        (Some u, Some n) \<Rightarrow>
          Some (username u @ '' - '' @ news_title n @ '' - '' @ (if like_is_liked l then ''Like'' else ''Unlike''))
      | _ \<Rightarrow> None)"

text \<open>
  \<open>NewsAdmin.list_display\<close>: title, category (its \<open>__str__\<close>, or the empty value \<open>-\<close>),
  author (\<open>User.__str__\<close>, the username), date posted and the breaking flag.
\<close>

definition news_admin_row :: "db \<Rightarrow> News \<Rightarrow> json list" where
  "news_admin_row d n =
     [JStr (news_title n),
      JStr (case news_category n of
              None \<Rightarrow> ''-''
            | Some k \<Rightarrow> (case get_row cat_pk k (db_categories d) of Some c \<Rightarrow> category_str c | None \<Rightarrow> ''-'')),
      JStr (case get_row user_pk (news_author n) (db_users d) of Some u \<Rightarrow> username u | None \<Rightarrow> ''-''),
      JInt (int (news_date_posted n)), JBool (news_is_breaking n)]"

text \<open>\<open>CategoryAdmin.list_display = ['name', 'slug']\<close>; no model ordering, so \<open>-pk\<close>.\<close>

definition category_changelist :: "db \<Rightarrow> string list list" where
  "category_changelist d = map (\<lambda>c. [cat_name c, cat_slug c]) (sort_key (\<lambda>c. - int (cat_pk c)) (db_categories d))"

text \<open>The default \<open>ModelAdmin\<close> of \<open>Comment\<close> and \<open>Like\<close>: one \<open>__str__\<close> column, \<open>-pk\<close>.\<close>

definition comment_changelist :: "db \<Rightarrow> string option list" where
  "comment_changelist d = map (comment_str d) (sort_key (\<lambda>c. - int (comment_pk c)) (db_comments d))"

definition like_changelist :: "db \<Rightarrow> string option list" where
  "like_changelist d = map (like_str d) (sort_key (\<lambda>l. - int (like_pk l)) (db_likes d))"

section \<open>Prepopulated slugs\<close>

text \<open>
  \<open>URLify(s, num_chars)\<close>: transliterate (\<open>downcode\<close>), lower-case, drop what is not
  \<open>[-\w\s]\<close>, trim white space, turn each run of \<open>[-\s]\<close> into one hyphen, cut to
  \<open>num_chars\<close>, drop trailing hyphens. \<open>\s\<close> of JavaScript on bytes is ASCII white space
  and the no-break space; \<open>\w\<close> is \<open>[A-Za-z0-9_]\<close>. Lower-casing only ASCII letters
  gives the same result, as every other letter is dropped next.
\<close>

definition js_space :: "char \<Rightarrow> bool" where
  "js_space c \<longleftrightarrow> is_space c \<or> c = CHR 0xA0"

definition js_word :: "char \<Rightarrow> bool" where
  "js_word c \<longleftrightarrow> is_digit c \<or> c = CHR ''_'' \<or>
     ((65::nat) \<le> of_char c \<and> of_char c \<le> (90::nat)) \<or> ((97::nat) \<le> of_char c \<and> of_char c \<le> (122::nat))"

function hyphenate :: "string \<Rightarrow> string" where
  "hyphenate [] = []"
| "hyphenate (c # cs) =
     (if c = CHR ''-'' \<or> js_space c then CHR ''-'' # hyphenate (dropWhile (\<lambda>x. x = CHR ''-'' \<or> js_space x) cs)
      else c # hyphenate cs)"
  by pat_completeness auto
termination
  by (relation "measure length") (auto simp: le_imp_less_Suc length_dropWhile_le)

definition urlify :: "(string \<Rightarrow> string) \<Rightarrow> nat \<Rightarrow> string \<Rightarrow> string" where
  "urlify downcode num_chars s =
     (let s1 = map lower_char (downcode s);
          s2 = filter (\<lambda>c. c = CHR ''-'' \<or> js_word c \<or> js_space c) s1;
          s3 = rev (dropWhile js_space (rev (dropWhile js_space s2)));
          s4 = take num_chars (hyphenate s3)
      in rev (dropWhile (\<lambda>c. c = CHR ''-'') (rev s4)))"

text \<open>\<open>prepopulated_fields = {"slug": ("name",)}\<close> and \<open>{"slug": ("title",)}\<close>, cut to the slug columns' \<open>max_length\<close>.\<close>

definition category_prepopulated :: "(string \<Rightarrow> string) \<Rightarrow> string \<Rightarrow> string" where
  "category_prepopulated downcode name = urlify downcode 100 name"

definition news_prepopulated :: "(string \<Rightarrow> string) \<Rightarrow> string \<Rightarrow> string" where
  "news_prepopulated downcode title = urlify downcode 255 title"

section \<open>Facts\<close>

lemma sorted_desc_pair_key:
  "sorted_wrt (\<lambda>a b. (- int (news_date_posted b), - int (news_pk b)) \<ge> (- int (news_date_posted a), - int (news_pk a)))
     (sort_key (\<lambda>n. (- int (news_date_posted n), - int (news_pk n))) xs)"
  using sorted_sort_key [of "\<lambda>n. (- int (news_date_posted n), - int (news_pk n))" xs]
  by (simp add: sorted_map sorted_wrt_iff_nth_less)

lemma split_on_map:
  assumes "\<And>x. f x = c \<longleftrightarrow> x = c"
  shows "split_on c (map f s) = map (map f) (split_on c s)"
proof (induction s)
  case Nil
  then show ?case by simp
next
  case (Cons x xs)
  then show ?case using assms by (auto split: list.split)
qed

lemma char_eq_code: "(c = d) \<longleftrightarrow> (of_char c :: nat) = of_char d"
  by (metis char_of_char)

lemma lower_char_code:
  "(of_char (lower_char c) :: nat) = (if (65::nat) \<le> of_char c \<and> of_char c \<le> (90::nat) then of_char c + 32 else of_char c)"
  by (simp add: lower_char_def of_char_of)

lemma is_space_code: "is_space c \<longleftrightarrow> (of_char c :: nat) \<in> {32, 9, 10, 11, 12, 13}"
  by (simp add: is_space_def char_eq_code [of c])

lemma lower_char_space: "lower_char c = CHR '' '' \<longleftrightarrow> c = CHR '' ''"
  by (simp add: char_eq_code [of "lower_char c"] char_eq_code [of c] lower_char_code split: if_splits)

lemma is_space_lower: "is_space (lower_char c) = is_space c"
  by (simp add: is_space_code lower_char_code split: if_splits)

lemma lower_char_blank: "is_space c \<Longrightarrow> lower_char c = c"
  by (auto simp: lower_char_def is_space_code)

lemma lower_blank_comm:
  "lower_char (if is_space c then CHR '' '' else c) = (if is_space (lower_char c) then CHR '' '' else lower_char c)"
proof -
  have "is_space CHR '' ''" by (simp add: is_space_def)
  then show ?thesis by (cases "is_space c") (simp_all add: is_space_lower lower_char_blank)
qed

lemma admin_terms_lower: "map (map lower_char) (admin_terms q) = admin_terms (map lower_char q)"
proof -
  let ?g = "\<lambda>c. if is_space c then CHR '' '' else c"
  have g: "map ?g (map lower_char q) = map lower_char (map ?g q)"
    by (induction q) (simp_all add: lower_blank_comm)
  have sp: "split_on CHR '' '' (map lower_char (map ?g q)) = map (map lower_char) (split_on CHR '' '' (map ?g q))"
    by (rule split_on_map) (rule lower_char_space)
  have fm: "\<And>L. filter (\<lambda>w. w \<noteq> []) (map (map lower_char) L) = map (map lower_char) (filter (\<lambda>w. w \<noteq> []) L)"
    by (simp add: filter_map comp_def)
  have "admin_terms (map lower_char q) = filter (\<lambda>w. w \<noteq> []) (split_on CHR '' '' (map ?g (map lower_char q)))"
    by (simp only: admin_terms_def split_ws_def)
  also have "\<dots> = map (map lower_char) (admin_terms q)"
    by (simp only: g sp fm admin_terms_def split_ws_def)
  finally show ?thesis by simp
qed

lemma news_search_match_lower:
  "map (map lower_char) ts = map (map lower_char) ts' \<Longrightarrow> news_search_match ts n = news_search_match ts' n"
proof (induction ts arbitrary: ts')
  case Nil
  then show ?case by simp
next
  case (Cons t ts)
  then obtain t' ts'' where "ts' = t' # ts''" "map lower_char t = map lower_char t'"
    "map (map lower_char) ts = map (map lower_char) ts''" by (cases ts') auto
  with Cons.IH show ?case by (simp add: news_search_match_def icontains_def)
qed

lemma news_admin_changelist_spec:
  "mset (news_admin_changelist cat brk dt now q d) =
     mset (filter (\<lambda>n. (case cat of None \<Rightarrow> True | Some c \<Rightarrow> news_category n = c) \<and>
                       (case brk of None \<Rightarrow> True | Some b \<Rightarrow> news_is_breaking n = b) \<and>
                       in_range (date_range now dt) (news_date_posted n) \<and>
                       news_search_match (admin_terms q) n) (db_news d)) \<and>
   sorted_wrt (\<lambda>a b. news_date_posted b \<le> news_date_posted a) (news_admin_changelist cat brk dt now q d)"
proof
  show "mset (news_admin_changelist cat brk dt now q d) = mset (filter (\<lambda>n. (case cat of None \<Rightarrow> True | Some c \<Rightarrow> news_category n = c) \<and>
                       (case brk of None \<Rightarrow> True | Some b \<Rightarrow> news_is_breaking n = b) \<and>
                       in_range (date_range now dt) (news_date_posted n) \<and>
                       news_search_match (admin_terms q) n) (db_news d))"
    by (simp add: news_admin_changelist_def)
  have "sorted_wrt (\<lambda>a b. (- int (news_date_posted b), - int (news_pk b)) \<ge> (- int (news_date_posted a), - int (news_pk a)))
          (news_admin_changelist cat brk dt now q d)"
    unfolding news_admin_changelist_def by (rule sorted_wrt_filter [OF sorted_desc_pair_key])
  then show "sorted_wrt (\<lambda>a b. news_date_posted b \<le> news_date_posted a) (news_admin_changelist cat brk dt now q d)"
    by (rule sorted_wrt_mono_rel [rotated]) (auto simp: less_eq_prod_def)
qed

lemma admin_search_ignores_case:
  assumes "map lower_char q = map lower_char q'"
  shows "news_admin_changelist cat brk dt now q d = news_admin_changelist cat brk dt now q' d"
proof -
  have "map (map lower_char) (admin_terms q) = map (map lower_char) (admin_terms q')"
    using assms by (simp add: admin_terms_lower)
  then have "news_search_match (admin_terms q) = news_search_match (admin_terms q')"
    by (intro ext news_search_match_lower)
  then show ?thesis by (simp add: news_admin_changelist_def)
qed

lemma hyphenate_chars: "set (hyphenate s) \<subseteq> insert (CHR ''-'') {c \<in> set s. \<not> js_space c}"
proof (induction s rule: hyphenate.induct)
  case 1
  then show ?case by simp
next
  case (2 c cs)
  have "set (dropWhile (\<lambda>x. x = CHR ''-'' \<or> js_space x) cs) \<subseteq> set cs" by (rule set_dropWhileD [THEN subsetI])
  with 2 show ?case by auto
qed

lemma set_rtrim: "set (rev (dropWhile P (rev xs))) \<subseteq> set xs"
  by (auto dest: set_dropWhileD)

lemma length_rtrim: "length (rev (dropWhile P (rev xs))) \<le> length xs"
  using length_dropWhile_le [of P "rev xs"] by simp

lemma urlify_chars:
  "set (urlify dc n s) \<subseteq> {c. c = CHR ''-'' \<or> js_word c}"
proof -
  let ?s2 = "filter (\<lambda>c. c = CHR ''-'' \<or> js_word c \<or> js_space c) (map lower_char (dc s))"
  let ?s3 = "rev (dropWhile js_space (rev (dropWhile js_space ?s2)))"
  have "set (dropWhile js_space ?s2) \<subseteq> set ?s2" by (auto dest: set_dropWhileD)
  then have "set ?s3 \<subseteq> set ?s2" by (rule subset_trans [OF set_rtrim])
  then have "{c \<in> set ?s3. \<not> js_space c} \<subseteq> {c. c = CHR ''-'' \<or> js_word c}" by auto
  with hyphenate_chars [of ?s3] have "set (hyphenate ?s3) \<subseteq> {c. c = CHR ''-'' \<or> js_word c}" by auto
  then have t: "set (take n (hyphenate ?s3)) \<subseteq> {c. c = CHR ''-'' \<or> js_word c}"
    by (rule subset_trans [OF set_take_subset])
  show ?thesis unfolding urlify_def Let_def
    by (rule subset_trans [OF set_rtrim t])
qed

lemma urlify_length: "length (urlify dc n s) \<le> n"
  unfolding urlify_def Let_def by (rule le_trans [OF length_rtrim]) simp

lemma js_word_slug: "c = CHR ''-'' \<or> js_word c \<Longrightarrow>
  is_digit c \<or> ((97::nat) \<le> of_char c \<and> of_char c \<le> (122::nat)) \<or>
  ((65::nat) \<le> of_char c \<and> of_char c \<le> (90::nat)) \<or> c = CHR ''-'' \<or> c = CHR ''_''"
  by (auto simp: js_word_def)

lemma urlify_slug: "urlify dc n s \<noteq> [] \<Longrightarrow> is_slug (urlify dc n s)"
  using urlify_chars [of dc n s] js_word_slug by (auto simp: is_slug_def)

lemma prepopulated_slug_accepted:
  assumes "news_prepopulated dc title \<noteq> []"
  shows "char_validators no_check (Some 255) slug_check (news_prepopulated dc title) = [] \<and>
         resolve (''news/'' @ news_prepopulated dc title @ ''/'') = Some (NewsDetail (news_prepopulated dc title)) \<and>
         resolve (''news/'' @ news_prepopulated dc title @ ''/comments/'') = Some (NewsComments (news_prepopulated dc title))"
proof -
  let ?s = "news_prepopulated dc title"
  have sl: "is_slug ?s" using assms urlify_slug by (simp add: news_prepopulated_def)
  then have "CHR 0x00 \<notin> set ?s" by (auto simp: is_slug_def is_digit_def)
  moreover have "length ?s \<le> 255" using urlify_length by (simp add: news_prepopulated_def)
  ultimately have "char_validators no_check (Some 255) slug_check ?s = []"
    using sl by (simp add: char_validators_def no_check_def slug_check_def)
  with slug_routes [OF sl] show ?thesis by simp
qed

lemma day_scale:
  "(a * 86400 \<le> (t::nat) \<and> t < b * 86400) \<longleftrightarrow> (a \<le> t div 86400 \<and> t div 86400 < b)"
  by (simp add: less_eq_div_iff_mult_less_eq div_less_iff_less_mult)

lemma civil_inj: "civil a = civil b \<Longrightarrow> a = b"
  by (metis civil_roundtrip prod_cases3)

lemma month_start_first: "days_from_civil (y, m, Suc 0) = month_start y m"
  by (simp add: days_from_civil_def month_start_def)

lemma date_range_days:
  assumes c: "civil (now div 86400) = (y, m, d)"
  shows "date_range now Today = Some ((now div 86400) * 86400, Suc (now div 86400) * 86400)"
    and "date_range now ThisMonth = Some (month_start y m * 86400, (month_start y m + month_days y m) * 86400)"
    and "date_range now ThisYear = Some (month_start y 1 * 86400, (month_start y 12 + month_days y 12) * 86400)"
proof -
  from civil_roundtrip [OF c] civil_year_ge [OF c] have v: "1 \<le> m" "m \<le> 12" "1970 \<le> y" by auto
  note nm = next_month_start [OF v]
  have ny: "days_from_civil (Suc y, 1, 1) = month_start y 12 + month_days y 12"
    using next_month_start [of 12 y] v(3) by simp
  show "date_range now Today = Some ((now div 86400) * 86400, Suc (now div 86400) * 86400)"
    using c by (simp add: date_range_def Let_def)
  show "date_range now ThisMonth = Some (month_start y m * 86400, (month_start y m + month_days y m) * 86400)"
    using c nm by (simp add: date_range_def Let_def month_start_first)
  show "date_range now ThisYear = Some (month_start y 1 * 86400, (month_start y 12 + month_days y 12) * 86400)"
    using c ny by (simp add: date_range_def Let_def month_start_first)
qed

text \<open>The filter's choices in calendar terms: the same day, month, year as today (UTC).\<close>

lemma date_range_exact:
  "in_range (date_range now Today) t \<longleftrightarrow> civil (t div 86400) = civil (now div 86400)"
  "in_range (date_range now ThisMonth) t \<longleftrightarrow>
     fst (civil (t div 86400)) = fst (civil (now div 86400)) \<and>
     fst (snd (civil (t div 86400))) = fst (snd (civil (now div 86400)))"
  "in_range (date_range now ThisYear) t \<longleftrightarrow> fst (civil (t div 86400)) = fst (civil (now div 86400))"
proof -
  obtain y m d where c: "civil (now div 86400) = (y, m, d)" by (metis prod_cases3)
  obtain y' m' d' where c': "civil (t div 86400) = (y', m', d')" by (metis prod_cases3)
  from civil_roundtrip [OF c] civil_year_ge [OF c] have v: "1 \<le> m" "m \<le> 12" "1970 \<le> y" by auto
  show "in_range (date_range now Today) t \<longleftrightarrow> civil (t div 86400) = civil (now div 86400)"
    using date_range_days(1) [OF c] day_scale [of "now div 86400" t "Suc (now div 86400)"]
    by (auto simp: in_range_def less_Suc_eq_le dest: civil_inj)
  show "in_range (date_range now ThisMonth) t \<longleftrightarrow>
     fst (civil (t div 86400)) = fst (civil (now div 86400)) \<and>
     fst (snd (civil (t div 86400))) = fst (snd (civil (now div 86400)))"
    using date_range_days(2) [OF c] day_scale [of "month_start y m" t "month_start y m + month_days y m"]
      month_interval [OF c' v] c c' by (simp add: in_range_def)
  show "in_range (date_range now ThisYear) t \<longleftrightarrow> fst (civil (t div 86400)) = fst (civil (now div 86400))"
    using date_range_days(3) [OF c] day_scale [of "month_start y 1" t "month_start y 12 + month_days y 12"]
      year_interval [OF c' v(3)] c c' by (simp add: in_range_def)
qed

lemma changelist_date_filter:
  "news_admin_changelist cat brk dt now q d =
     filter (\<lambda>n. in_range (date_range now dt) (news_date_posted n)) (news_admin_changelist cat brk AnyDate now q d)"
  by (simp add: news_admin_changelist_def filter_filter in_range_def date_range_def Let_def conj_ac)

lemma date_filter_exact:
  "news_admin_changelist cat brk Today now q d =
     filter (\<lambda>n. civil (news_date_posted n div 86400) = civil (now div 86400))
       (news_admin_changelist cat brk AnyDate now q d) \<and>
   news_admin_changelist cat brk ThisMonth now q d =
     filter (\<lambda>n. fst (civil (news_date_posted n div 86400)) = fst (civil (now div 86400)) \<and>
                 fst (snd (civil (news_date_posted n div 86400))) = fst (snd (civil (now div 86400))))
       (news_admin_changelist cat brk AnyDate now q d) \<and>
   news_admin_changelist cat brk ThisYear now q d =
     filter (\<lambda>n. fst (civil (news_date_posted n div 86400)) = fst (civil (now div 86400)))
       (news_admin_changelist cat brk AnyDate now q d)"
  by (simp only: changelist_date_filter [of cat brk Today now q d] changelist_date_filter [of cat brk ThisMonth now q d]
      changelist_date_filter [of cat brk ThisYear now q d] date_range_exact)

lemma admin_lists_render:
  assumes "wf_db d"
  shows "length (comment_changelist d) = length (db_comments d) \<and> None \<notin> set (comment_changelist d) \<and>
         length (like_changelist d) = length (db_likes d) \<and> None \<notin> set (like_changelist d) \<and>
         (\<forall>l \<in> set (db_likes d). \<exists>s. like_str d l = Some (s @ (if like_is_liked l then ''Like'' else ''Unlike'')))"
proof -
  from assms have ku: "keys_unique d" and fk: "foreign_keys d" by (simp_all add: wf_db_def)
  have news: "k \<in> news_ids d \<Longrightarrow> \<exists>n. get_row news_pk k (db_news d) = Some n" for k
    using ku by (auto simp: keys_unique_def get_row_unique)
  have users: "k \<in> user_ids d \<Longrightarrow> \<exists>u. get_row user_pk k (db_users d) = Some u" for k
    using ku by (auto simp: keys_unique_def get_row_unique)
  have cs: "comment_str d c \<noteq> None" if "c \<in> set (db_comments d)" for c
    using that fk news by (fastforce simp: foreign_keys_def comment_str_def)
  have ls: "\<exists>s. like_str d l = Some (s @ (if like_is_liked l then ''Like'' else ''Unlike''))"
    if "l \<in> set (db_likes d)" for l
  proof -
    from that fk have "like_user l \<in> user_ids d" "like_news l \<in> news_ids d" by (auto simp: foreign_keys_def)
    with users news obtain u n where "get_row user_pk (like_user l) (db_users d) = Some u"
      "get_row news_pk (like_news l) (db_news d) = Some n" by blast
    then show ?thesis by (simp add: like_str_def)
  qed
  then have "like_str d l \<noteq> None" if "l \<in> set (db_likes d)" for l using that by fastforce
  with cs ls show ?thesis by (auto simp: comment_changelist_def like_changelist_def) (metis option.distinct(1))+
qed

end
