(* ===== verification/Like_Race.thy ===== *)
theory Like_Race
  imports News_Views
begin

text \<open>
  Concurrent like requests. Under Django's default autocommit every SQL statement of
  the \<open>like\<close> action of \<open>src/blog/views.py\<close> is its own transaction, so two requests
  run by two workers interleave statement by statement. A request of the action is a
  program counter over those statements: the \<open>get\<close> of \<open>Like.objects.get_or_create\<close>,
  its \<open>create\<close> (in a savepoint), the second \<open>get\<close> that \<open>get_or_create\<close> makes after an
  \<open>IntegrityError\<close>, \<open>like_obj.delete()\<close>, and \<open>news.like_set.count()\<close>; the response is
  built from the last. The article and the caller are resolved before the first
  statement (the lookups read only rows the action never writes). The system is a
  database with a list of requests; a step runs one statement of one unfinished
  request (\<open>race_step\<close>); \<open>race_steps\<close> is its reflexive-transitive closure.
\<close>

datatype like_pc =
    Get
  | Insert
  | Reget db_error
  | Delete Like
  | Count bool
  | Done response

record like_req =
  lr_user :: user_id
  lr_news :: news_id
  lr_now :: timestamp
  lr_pc :: like_pc

text \<open>The response of the action once it knows whether it liked.\<close>

definition like_reply :: "bool \<Rightarrow> db \<Rightarrow> news_id \<Rightarrow> response" where
  "like_reply liked d n =
     Response 200 (JObj [(''liked'', JBool liked), (''likes_count'', JInt (int (like_set_count d n)))])"

text \<open>
  One statement of a request. \<open>get\<close> raises \<open>DoesNotExist\<close> for no row (then
  \<open>get_or_create\<close> creates) and \<open>MultipleObjectsReturned\<close> for more than one; every
  failure of the \<open>create\<close> is an \<open>IntegrityError\<close>, after which \<open>get_or_create\<close> tries the
  \<open>get\<close> again and re-raises the error when that finds nothing.
\<close>

definition like_step :: "like_req \<Rightarrow> db \<Rightarrow> like_pc \<times> db" where
  "like_step q d =
     (let rows = filter (\<lambda>l. like_news l = lr_news q \<and> like_user l = lr_user q) (db_likes d)
      in case lr_pc q of
           Get \<Rightarrow>
             (case rows of
                [] \<Rightarrow> (Insert, d)
              | [l] \<Rightarrow> (Delete l, d)
              | _ \<Rightarrow> (Done (server_error MultipleObjectsReturned), d))
         | Insert \<Rightarrow>
             (case insert_like d (lr_user q) (lr_news q) True (lr_now q) of
                Inl e \<Rightarrow> (Reget e, d)
              | Inr (l, d') \<Rightarrow> (Count True, d'))
         | Reget e \<Rightarrow>
             (case rows of
                [] \<Rightarrow> (Done (server_error e), d)
              | [l] \<Rightarrow> (Delete l, d)
              | _ \<Rightarrow> (Done (server_error MultipleObjectsReturned), d))
         | Delete l \<Rightarrow> (Count False, delete_like d (like_pk l))
         | Count liked \<Rightarrow> (Done (like_reply liked d (lr_news q)), d)
         | Done resp \<Rightarrow> (Done resp, d))"

fun is_done :: "like_pc \<Rightarrow> bool" where
  "is_done (Done _) = True"
| "is_done _ = False"

type_synonym race_state = "db \<times> like_req list"

inductive race_step :: "race_state \<Rightarrow> race_state \<Rightarrow> bool" where
  run: "i < length qs \<Longrightarrow> \<not> is_done (lr_pc (qs ! i)) \<Longrightarrow> like_step (qs ! i) d = (pc, d') \<Longrightarrow>
        race_step (d, qs) (d', qs[i := (qs ! i)\<lparr>lr_pc := pc\<rparr>])"

inductive race_steps :: "race_state \<Rightarrow> race_state \<Rightarrow> bool" where
  refl: "race_steps s s"
| step: "race_step s s' \<Longrightarrow> race_steps s' s'' \<Longrightarrow> race_steps s s''"

definition all_done :: "race_state \<Rightarrow> bool" where
  "all_done s \<longleftrightarrow> list_all (\<lambda>q. is_done (lr_pc q)) (snd s)"

text \<open>The statements a request has left at most: the measure of termination.\<close>

fun pc_rank :: "like_pc \<Rightarrow> nat" where
  "pc_rank Get = 5"
| "pc_rank Insert = 4"
| "pc_rank (Reget _) = 3"
| "pc_rank (Delete _) = 2"
| "pc_rank (Count _) = 1"
| "pc_rank (Done _) = 0"

definition total_rank :: "race_state \<Rightarrow> nat" where
  "total_rank s = sum_list (map (\<lambda>q. pc_rank (lr_pc q)) (snd s))"

text \<open>A request of the caller \<open>u\<close> on the article \<open>n\<close> that has not started.\<close>

definition like_req_start :: "user_id \<Rightarrow> news_id \<Rightarrow> timestamp \<Rightarrow> like_req" where
  "like_req_start u n t = \<lparr>lr_user = u, lr_news = n, lr_now = t, lr_pc = Get\<rparr>"

text \<open>
  Every run of a set of requests, explored exhaustively: each unfinished request in turn
  runs its next statement. With at least as much fuel as the statements left, it lists
  exactly the finished states reachable by \<open>race_steps\<close>.
\<close>

fun race_finals :: "nat \<Rightarrow> race_state \<Rightarrow> race_state list" where
  "race_finals 0 s = (if all_done s then [s] else [])"
| "race_finals (Suc k) (d, qs) =
     (if all_done (d, qs) then [(d, qs)]
      else concat (map (\<lambda>i. if is_done (lr_pc (qs ! i)) then []
                            else case like_step (qs ! i) d of
                                   (pc, d') \<Rightarrow> race_finals k (d', qs[i := (qs ! i)\<lparr>lr_pc := pc\<rparr>]))
                       [0..<length qs]))"

text \<open>The \<open>liked\<close> flag of a finished request's response.\<close>

definition reply_liked :: "like_pc \<Rightarrow> bool option" where
  "reply_liked pc =
     (case pc of
        Done (Response s (JObj ((k, JBool b) # _))) \<Rightarrow> if s = 200 \<and> k = ''liked'' then Some b else None
      | _ \<Rightarrow> None)"

section \<open>Facts\<close>

lemma like_step_rank: "\<not> is_done (lr_pc q) \<Longrightarrow> pc_rank (fst (like_step q d)) < pc_rank (lr_pc q)"
  by (cases "lr_pc q")
     (auto simp: like_step_def Let_def split: list.split sum.split prod.split)


lemma race_step_total_rank:
  assumes "race_step s s'"
  shows "total_rank s' < total_rank s"
  using assms
proof cases
  case (run i qs d pc d')
  let ?f = "\<lambda>q. pc_rank (lr_pc q)"
  have "pc_rank pc < pc_rank (lr_pc (qs ! i))"
    using like_step_rank [of "qs ! i" d] run by simp
  moreover have "sum_list (map ?f (qs[i := (qs ! i)\<lparr>lr_pc := pc\<rparr>])) + ?f (qs ! i) =
                 sum_list (map ?f qs) + pc_rank pc"
    using sum_list_update [of i qs ?f] run by simp
  ultimately show ?thesis using run by (simp add: total_rank_def)
qed

lemma not_all_done:
  "\<not> all_done (d, qs) \<Longrightarrow> \<exists>i < length qs. \<not> is_done (lr_pc (qs ! i))"
  by (auto simp: all_done_def list_all_length)

lemma race_completes: "\<exists>s'. race_steps s s' \<and> all_done s'"
proof (induction "total_rank s" arbitrary: s rule: less_induct)
  case less
  show ?case
  proof (cases "all_done s")
    case True
    then show ?thesis by (blast intro: race_steps.refl)
  next
    case False
    obtain d qs where s: "s = (d, qs)" by (cases s)
    with False not_all_done obtain i where i: "i < length qs" "\<not> is_done (lr_pc (qs ! i))" by blast
    obtain pc d' where st: "like_step (qs ! i) d = (pc, d')" by (cases "like_step (qs ! i) d")
    let ?s' = "(d', qs[i := (qs ! i)\<lparr>lr_pc := pc\<rparr>])"
    have r: "race_step s ?s'" unfolding s using i st by (rule race_step.run)
    from less [OF race_step_total_rank [OF r]] obtain s'' where "race_steps ?s' s''" "all_done s''" by blast
    with r show ?thesis by (blast intro: race_steps.step)
  qed
qed

lemma like_step_wf: "wf_db d \<Longrightarrow> like_step q d = (pc, d') \<Longrightarrow> wf_db d'"
  by (cases "lr_pc q")
     (auto simp: like_step_def Let_def split: list.splits sum.splits intro: insert_like_wf delete_like_wf)

lemma race_step_wf: "race_step s s' \<Longrightarrow> wf_db (fst s) \<Longrightarrow> wf_db (fst s')"
  by (induction rule: race_step.induct) (auto intro: like_step_wf)

lemma race_keeps_integrity:
  assumes "race_steps s s'" and "wf_db (fst s)"
  shows "wf_db (fst s')"
  using assms by (induction rule: race_steps.induct) (auto dest: race_step_wf)

lemma race_chain:
  assumes "i < length qs" and "\<not> is_done (lr_pc (qs ! i))" and "like_step (qs ! i) d = (pc, dn)"
    and "race_steps (dn, qs[i := (qs ! i)\<lparr>lr_pc := pc\<rparr>]) s"
  shows "race_steps (d, qs) s"
  using race_step.run [OF assms(1-3)] assms(4) by (rule race_steps.step)

lemma solo_chain:
  assumes "\<not> is_done (lr_pc q)" and "like_step q d = (pc, dn)"
    and "race_steps (dn, [q\<lparr>lr_pc := pc\<rparr>]) s"
  shows "race_steps (d, [q]) s"
proof -
  have "race_step (d, [q]) (dn, [q][0 := ([q] ! 0)\<lparr>lr_pc := pc\<rparr>])"
    by (rule race_step.run) (use assms in simp_all)
  with assms(3) show ?thesis by (simp add: race_steps.step)
qed

lemma like_found_reply:
  assumes wf: "wf_db d" and u: "u \<in> set (db_users d)" and tok: "req_token r = Some (user_pk u)"
    and obj: "news_get_object d r slug = Some n"
  shows "like slug d r =
           (case get_or_create_like d (news_pk n) (user_pk u) (req_now r) of
              Inl e \<Rightarrow> (server_error e, d)
            | Inr (l, created, d1) \<Rightarrow>
                (if created then (like_reply True d1 (news_pk n), d1)
                 else (like_reply False (delete_like d1 (like_pk l)) (news_pk n), delete_like d1 (like_pk l))))"
  by (simp add: like_found [OF assms] like_reply_def split: sum.split prod.split)

lemma solo_like_refines:
  assumes wf: "wf_db d" and u: "u \<in> set (db_users d)" and tok: "req_token r = Some (user_pk u)"
    and obj: "news_get_object d r slug = Some n" and run: "like slug d r = (resp, d')"
  shows "race_steps (d, [like_req_start (user_pk u) (news_pk n) (req_now r)])
                    (d', [(like_req_start (user_pk u) (news_pk n) (req_now r))\<lparr>lr_pc := Done resp\<rparr>])"
proof -
  let ?q = "like_req_start (user_pk u) (news_pk n) (req_now r)"
  let ?rows = "filter (\<lambda>l. like_news l = news_pk n \<and> like_user l = user_pk u) (db_likes d)"
  note lk = like_found_reply [OF wf u tok obj]
  have q: "lr_user ?q = user_pk u" "lr_news ?q = news_pk n" "lr_now ?q = req_now r" "lr_pc ?q = Get"
    by (simp_all add: like_req_start_def)
  show ?thesis
  proof (cases ?rows)
    case Nil
    show ?thesis
    proof (cases "insert_like d (user_pk u) (news_pk n) True (req_now r)")
      case (Inl e)
      with Nil run lk have dr: "d' = d" "resp = server_error e"
        by (simp_all add: get_or_create_like_def)
      show ?thesis
        apply (rule solo_chain [where pc = Insert and dn = d])
          apply (simp add: q)
         apply (simp add: like_step_def q Nil)
        apply (rule solo_chain [where pc = "Reget e" and dn = d])
          apply simp
         apply (simp add: like_step_def q Inl)
        apply (rule solo_chain [where pc = "Done resp" and dn = d'])
          apply simp
         apply (simp add: like_step_def q Nil dr)
        apply (simp add: race_steps.refl)
        done
    next
      case (Inr res)
      obtain l d1 where res: "res = (l, d1)" by (cases res)
      with Inr Nil run lk have dr: "d' = d1" "resp = like_reply True d1 (news_pk n)"
        by (auto simp: get_or_create_like_def)
      show ?thesis
        apply (rule solo_chain [where pc = Insert and dn = d])
          apply (simp add: q)
         apply (simp add: like_step_def q Nil)
        apply (rule solo_chain [where pc = "Count True" and dn = d1])
          apply simp
         apply (simp add: like_step_def q Inr res)
        apply (rule solo_chain [where pc = "Done resp" and dn = d'])
          apply simp
         apply (simp add: like_step_def q dr)
        apply (simp add: race_steps.refl)
        done
    qed
  next
    case (Cons l rest)
    show ?thesis
    proof (cases rest)
      case Nil
      let ?d2 = "delete_like d (like_pk l)"
      from Cons Nil run lk have dr: "d' = ?d2" "resp = like_reply False ?d2 (news_pk n)"
        by (auto simp: get_or_create_like_def)
      show ?thesis
        apply (rule solo_chain [where pc = "Delete l" and dn = d])
          apply (simp add: q)
         apply (simp add: like_step_def q Cons Nil)
        apply (rule solo_chain [where pc = "Count False" and dn = ?d2])
          apply simp
         apply (simp add: like_step_def)
        apply (rule solo_chain [where pc = "Done resp" and dn = d'])
          apply simp
         apply (simp add: like_step_def q dr)
        apply (simp add: race_steps.refl)
        done
    next
      case (Cons l2 rest2)
      with \<open>?rows = l # rest\<close> run lk have dr: "d' = d" "resp = server_error MultipleObjectsReturned"
        by (simp_all add: get_or_create_like_def)
      show ?thesis
        apply (rule solo_chain [where pc = "Done resp" and dn = d])
          apply (simp add: q)
         apply (simp add: like_step_def q \<open>?rows = l # rest\<close> Cons dr)
        apply (simp add: dr race_steps.refl)
        done
    qed
  qed
qed

lemma like_rows_single:
  assumes "keys_unique d" and "l \<in> set (db_likes d)" and "like_key l = (u, n)"
  shows "filter (\<lambda>x. like_news x = n \<and> like_user x = u) (db_likes d) = [l]"
proof -
  from assms(1) have "distinct (map like_key (db_likes d))" by (simp add: keys_unique_def)
  from filter_key_member [OF this assms(2)] assms(3) show ?thesis by (simp add: like_filter_eq)
qed

lemma delete_like_twice: "delete_like (delete_like d k) k = delete_like d k"
  by (simp add: delete_like_def)

lemma delete_like_rows:
  "filter (\<lambda>x. like_news x = n \<and> like_user x = u) (db_likes (delete_like d k)) =
   filter (\<lambda>x. like_pk x \<noteq> k) (filter (\<lambda>x. like_news x = n \<and> like_user x = u) (db_likes d))"
  by (simp add: delete_like_def filter_filter conj_commute)

text \<open>
  C22: when a user already likes an article, two concurrent like requests of that user can both find the row, both delete it and both answer liked=false, leaving no like; the same two requests one after the other leave the like in place. One toggle is lost.
\<close>

theorem concurrent_unlike_lost:
  assumes wf: "wf_db d" and l: "l \<in> set (db_likes d)" and key: "like_key l = (u, n)"
  shows "race_steps (d, [like_req_start u n t1, like_req_start u n t2])
           (delete_like d (like_pk l),
            [(like_req_start u n t1)\<lparr>lr_pc := Done (like_reply False (delete_like d (like_pk l)) n)\<rparr>,
             (like_req_start u n t2)\<lparr>lr_pc := Done (like_reply False (delete_like d (like_pk l)) n)\<rparr>]) \<and>
         (u, n) \<notin> liked_pairs (delete_like d (like_pk l)) \<and>
         (\<exists>d2. race_steps (d, [like_req_start u n t1, like_req_start u n t2])
                (d2, [(like_req_start u n t1)\<lparr>lr_pc := Done (like_reply False (delete_like d (like_pk l)) n)\<rparr>,
                      (like_req_start u n t2)\<lparr>lr_pc := Done (like_reply True d2 n)\<rparr>]) \<and>
              (u, n) \<in> liked_pairs d2)"
proof -
  let ?q1 = "like_req_start u n t1" and ?q2 = "like_req_start u n t2"
  let ?d1 = "delete_like d (like_pk l)"
  from wf have ku: "keys_unique d" by (simp add: wf_db_def)
  have rows: "filter (\<lambda>x. like_news x = n \<and> like_user x = u) (db_likes d) = [l]"
    by (rule like_rows_single [OF ku l key])
  have rows1: "filter (\<lambda>x. like_news x = n \<and> like_user x = u) (db_likes ?d1) = []"
    by (simp add: delete_like_rows rows)
  have gone: "(u, n) \<notin> liked_pairs ?d1"
    using delete_like_pairs [OF ku l] key by simp
  have q: "lr_user ?q1 = u" "lr_news ?q1 = n" "lr_pc ?q1 = Get"
          "lr_user ?q2 = u" "lr_news ?q2 = n" "lr_now ?q2 = t2" "lr_pc ?q2 = Get"
    by (simp_all add: like_req_start_def)
  have race: "race_steps (d, [?q1, ?q2])
           (?d1, [?q1\<lparr>lr_pc := Done (like_reply False ?d1 n)\<rparr>, ?q2\<lparr>lr_pc := Done (like_reply False ?d1 n)\<rparr>])"
    apply (rule race_chain [where i = 0 and pc = "Delete l" and dn = d])
       apply (simp_all add: q)
     apply (simp add: like_step_def q rows)
    apply (rule race_chain [where i = 1 and pc = "Delete l" and dn = d])
       apply (simp_all add: q)
     apply (simp add: like_step_def q rows)
    apply (rule race_chain [where i = 0 and pc = "Count False" and dn = ?d1])
       apply (simp_all add: like_step_def)
    apply (rule race_chain [where i = 1 and pc = "Count False" and dn = ?d1])
       apply (simp_all add: like_step_def delete_like_twice)
    apply (rule race_chain [where i = 0 and pc = "Done (like_reply False ?d1 n)" and dn = ?d1])
       apply (simp_all add: like_step_def q)
    apply (rule race_chain [where i = 1 and pc = "Done (like_reply False ?d1 n)" and dn = ?d1])
       apply (simp_all add: like_step_def q)
    apply (rule race_steps.refl)
    done
  from wf l key have fk: "u \<in> user_ids ?d1" "n \<in> news_ids ?d1"
    by (auto simp: wf_defs like_key_def delete_like_def)
  let ?l2 = "\<lparr>like_pk = seq_like ?d1, like_user = u, like_news = n, like_is_liked = True, like_timestamp = t2\<rparr>"
  let ?d2 = "?d1\<lparr>db_likes := db_likes ?d1 @ [?l2], seq_like := Suc (seq_like ?d1)\<rparr>"
  have ins: "insert_like ?d1 u n True t2 = Inr (?l2, ?d2)"
    using gone fk by (simp add: insert_like_def liked_pairs_def Let_def)
  have readded: "(u, n) \<in> liked_pairs ?d2" by (simp add: liked_pairs_def like_key_def)
  have serial: "race_steps (d, [?q1, ?q2])
           (?d2, [?q1\<lparr>lr_pc := Done (like_reply False ?d1 n)\<rparr>, ?q2\<lparr>lr_pc := Done (like_reply True ?d2 n)\<rparr>])"
    apply (rule race_chain [where i = 0 and pc = "Delete l" and dn = d])
       apply (simp_all add: q)
     apply (simp add: like_step_def q rows)
    apply (rule race_chain [where i = 0 and pc = "Count False" and dn = ?d1])
       apply (simp_all add: like_step_def)
    apply (rule race_chain [where i = 0 and pc = "Done (like_reply False ?d1 n)" and dn = ?d1])
       apply (simp_all add: like_step_def q)
    apply (rule race_chain [where i = 1 and pc = Insert and dn = ?d1])
       apply (simp_all add: q)
     apply (simp add: like_step_def q rows1)
    apply (rule race_chain [where i = 1 and pc = "Count True" and dn = ?d2])
       apply (simp_all add: like_step_def q ins)
    apply (rule race_chain [where i = 1 and pc = "Done (like_reply True ?d2 n)" and dn = ?d2])
       apply (simp_all add: like_step_def q)
    apply (rule race_steps.refl)
    done
  from race gone serial readded show ?thesis by blast
qed

lemma all_done_no_step: "all_done s \<Longrightarrow> \<not> race_step s s'"
  by (auto simp: all_done_def list_all_length elim!: race_step.cases)

lemma all_done_finals: "all_done s \<Longrightarrow> race_finals k s = [s]"
  by (cases k; cases s) simp_all

lemma race_finals_sound:
  "s' \<in> set (race_finals k s) \<Longrightarrow> race_steps s s' \<and> all_done s'"
proof (induction k arbitrary: s)
  case 0
  then show ?case by (simp add: race_steps.refl split: if_splits)
next
  case (Suc k)
  obtain d qs where s: "s = (d, qs)" by (cases s)
  show ?case
  proof (cases "all_done s")
    case True
    with Suc.prems show ?thesis by (simp add: all_done_finals race_steps.refl)
  next
    case False
    with Suc.prems s obtain i pc d' where i: "i < length qs" "\<not> is_done (lr_pc (qs ! i))"
        and st: "like_step (qs ! i) d = (pc, d')"
        and mem: "s' \<in> set (race_finals k (d', qs[i := (qs ! i)\<lparr>lr_pc := pc\<rparr>]))"
      by (auto split: if_splits prod.splits) (metis (no_types))
    from Suc.IH [OF mem] race_step.run [OF i st] s show ?thesis by (blast intro: race_steps.step)
  qed
qed

lemma race_finals_complete:
  "race_steps s s' \<Longrightarrow> all_done s' \<Longrightarrow> total_rank s \<le> k \<Longrightarrow> s' \<in> set (race_finals k s)"
proof (induction arbitrary: k rule: race_steps.induct)
  case (refl s)
  then show ?case by (simp add: all_done_finals)
next
  case (step s s1 s')
  from race_step_total_rank [OF step.hyps(1)] step.prems obtain k' where k: "k = Suc k'"
    and r: "total_rank s1 \<le> k'" by (cases k) auto
  from step.IH [OF step.prems(1) r] have mem: "s' \<in> set (race_finals k' s1)" .
  from step.hyps(1) show ?case
  proof cases
    case (run i qs d pc d')
    have "\<not> all_done (d, qs)" using all_done_no_step step.hyps(1) run by blast
    with run mem k show ?thesis by (force split: prod.split)
  qed
qed

lemma race_finals_exact:
  assumes "total_rank s \<le> k"
  shows "set (race_finals k s) = {s'. race_steps s s' \<and> all_done s'}"
  using race_finals_sound race_finals_complete [OF _ _ assms] by blast

end
