(* ===== verification/Spec2Isabelle.thy ===== *)
theory Spec2Isabelle
  imports Admin Like_Race
begin

text \<open>
  \<^bold>\<open>A verification model of the blog backend (\<open>src/blog\<close>).\<close>

  \<^bold>\<open>The program.\<close> A news-publishing REST backend: Django models (\<open>models.py\<close>:
  \<open>Category\<close>, \<open>News\<close>, \<open>Comment\<close>, \<open>Like\<close>, with Django's \<open>User\<close>), REST serializers
  (\<open>serializers.py\<close>), viewsets, a registration view and one function view
  (\<open>views.py\<close>), the URL configuration (\<open>urls.py\<close>) and the admin registration
  (\<open>admin.py\<close>). A request is resolved to a view by its path; the view authenticates it
  (bearer token), checks its permission class, validates the body with a serializer and
  turns it into ORM operations on the database; the response renders rows through the
  serializers. Requests run concurrently, one worker each, every SQL statement its own
  transaction.

  \<^bold>\<open>The theories.\<close>
  \<^item> \<open>Blog_Prelude\<close>: identifier types, request values (\<open>val\<close>, \<open>data\<close>), JSON
    (\<open>json\<close>), tables as lists of rows, and the shared facts on unique key columns,
    replaced rows and sorting newest first.
  \<^item> \<open>Models\<close> (\<open>models.py\<close>): one record per model, the database \<open>db\<close> (one table per
    model, one id sequence per auto-increment key), its integrity \<open>wf_db\<close> (unique
    columns and \<open>unique_together\<close>, NOT NULL foreign keys, fresh sequences), and every
    ORM write the views make: the creates (\<open>insert_like\<close>, \<open>get_or_create_like\<close>,
    \<open>insert_news\<close>, \<open>insert_comment\<close>, \<open>insert_category\<close>, \<open>insert_user\<close>), the saves of
    an existing row (\<open>save_news\<close>, \<open>save_category\<close>, \<open>save_comment\<close>, \<open>save_like\<close>), the
    deletes with their \<open>on_delete\<close> effects (\<open>delete_like\<close>, \<open>delete_comment\<close>,
    \<open>delete_category\<close> SET_NULL, \<open>delete_news\<close> and \<open>delete_user\<close> CASCADE), and
    \<open>like_set_count\<close>. Each returns a \<open>db_error\<close> for a violated constraint and keeps
    \<open>wf_db\<close>. \<open>liked_pairs\<close> abstracts the \<open>Like\<close> table to "user likes article".
  \<^item> \<open>Rest\<close> (framework, modelled from the spec): requests (method, token, body, query,
    and the clock and UUID the environment supplies), responses, the lookup of the
    user a validated token names, the permission classes and \<open>initial\<close>, the start of
    every request.
  \<^item> \<open>Serializers\<close> (\<open>serializers.py\<close> and the \<open>RegisterSerializer\<close> of \<open>views.py\<close>):
    field validation as \<open>ModelSerializer\<close> builds it from the models (\<open>char_field\<close>,
    \<open>pk_field\<close>, \<open>bool_field\<close>, \<open>image_field\<close>, \<open>unique_check\<close> with the model's
    messages, the unique-together check of likes), the validators \<open>comment_validate\<close>,
    \<open>news_validate\<close>, \<open>category_validate\<close>, \<open>like_validate\<close>, \<open>register_validate\<close>, and
    the representations with the computed counts and \<open>get_user_name\<close>.
  \<^item> \<open>News_Views\<close> (\<open>NewsViewSet\<close>): the category-filtered queryset, the slug lookup,
    list, retrieve, create (\<open>perform_create\<close>), update, destroy, and the \<open>like\<close> toggle
    with its abstract specification \<open>toggle_pair\<close>.
  \<^item> \<open>Comment_Views\<close>: the function view \<open>comments\<close> and \<open>CommentViewSet.create\<close>.
  \<^item> \<open>Generic_Views\<close>: \<open>CategoryViewSet\<close>, the other actions of \<open>CommentViewSet\<close>,
    \<open>LikeViewSet\<close> and \<open>RegisterView\<close>, with the lookup by primary key through \<open>int()\<close>
    of the URL value (\<open>py_int\<close>, \<open>pk_lookup\<close>).
  \<^item> \<open>Jwt\<close> (\<open>rest_framework_simplejwt\<close>, the library \<open>urls.py\<close> mounts at
    \<open>auth/token/\<close> and \<open>auth/token/refresh/\<close>, modelled from its behaviour): compact
    tokens (\<open>jwt_encode\<close>, \<open>jwt_decode\<close> splitting as PyJWT does), their validation
    (\<open>validate_token\<close>: signature, \<open>exp\<close>, \<open>token_type\<close>), the \<open>Bearer\<close> header
    authentication (\<open>jwt_authenticate\<close>, \<open>with_bearer\<close>) and the two token views
    (\<open>token_obtain\<close>, \<open>token_refresh\<close>).
  \<^item> \<open>Urls\<close> (\<open>urls.py\<close>): the router's and the explicit patterns, first-match
    resolution over path segments (\<open>resolve\<close>), the method map of each route with 405
    after authentication (\<open>route_handler\<close>), \<open>serve\<close>, a request through the URL
    configuration to its view, and \<open>dispatch\<close>, the whole API: a request with its
    \<open>Authorization\<close> header, the token views on their routes and every other view behind
    the bearer authentication.
  \<^item> \<open>Like_Race\<close>: concurrent like requests as program counters over their SQL
    statements (\<open>like_step\<close>), the interleaving step relation \<open>race_step\<close>, its closure
    \<open>race_steps\<close>, and \<open>race_finals\<close>, an exhaustive explorer of the finished states.
  \<^item> \<open>Calendar\<close> (Python's \<open>datetime\<close>, for the admin's date filter): day numbers
    to dates and back (\<open>civil\<close>, \<open>days_from_civil\<close>) by two terminating recursions
    over years and months.
  \<^item> \<open>Admin\<close> (\<open>admin.py\<close>): the \<open>NewsAdmin\<close> change list (category, breaking and
    date filters, search), the \<open>list_display\<close> rows, the prepopulated slugs (the admin's
    \<open>URLify\<close>), and the default \<open>Comment\<close> and \<open>Like\<close> admins with the models'
    \<open>__str__\<close>.
  \<^item> this theory: the properties that span components, and the sample data and
    witnesses that instantiate every theorem with hypotheses at a concrete database.

  \<^bold>\<open>What is proved.\<close> The properties of the program, with their claim numbers:
  \<^item> The like action (C1, C2, C3, C26): it refines the abstract toggle of the caller's
    pair (\<open>News_Views.like_toggles\<close>); \<open>k\<close> toggles leave \<open>k mod 2\<close> rows
    (\<open>News_Views.like_parity\<close>); the reported count is the number of users who like the
    article (\<open>Models.like_set_count_users\<close>), so it never exceeds the number of users
    (\<open>Models.like_count_bounded\<close>).
  \<^item> Concurrency (C22): from "liked", one interleaving of two like requests loses a
    toggle: both answer liked=false and the like is gone
    (\<open>Like_Race.concurrent_unlike_lost\<close>). It rests on the supporting lemmas of
    \<open>Like_Race\<close>: every step lowers the statements left (\<open>race_step_total_rank\<close>),
    some interleaving finishes every request, every interleaving keeps \<open>wf_db\<close>, a request
    alone behaves as the handler, and the explorer lists exactly the reachable finished
    states; from "not liked" two toggles always end as in sequence
    (\<open>concurrent_like_from_unliked\<close>, here).
  \<^item> Comments (C4, C5, C6, C13, C16, C21): an authenticated comment takes the caller's
    name and email whatever the body says; an anonymous one fails on the NOT NULL user
    column; the list is the article's comments newest first; the per-article POST requires
    the \<open>news\<close> field it then overrides; any authenticated user may delete any comment; an
    update never changes a comment's user.
  \<^item> Articles and categories (C7, C8, C9, C10, C11, C17): the category filter is exact,
    empty for an unknown slug; the author is forced to the caller; deleting a category
    sets its articles' category to NULL, deleting an article cascades to its comments and
    likes; anonymous category writes are allowed.
  \<^item> Serializers (C12): the \<open>likes_count\<close> of the article's representation (rows with
    \<open>is_liked\<close> set) equals the count the like action reports (all rows of the article)
    exactly when every like row of the article has its flag set.
  \<^item> Likes endpoint and registration (C14, C15, C18, C19, C20): the saved user is the
    caller whatever the body says, so a validated body can still end in a server error on
    the unique pair; any user may move any like to another user. Registration stores the
    hash of the stripped password and never returns it; a taken username is a 400.
  \<^item> Whole requests (C23, C24, C25): the URLs built from a valid slug resolve to their
    routes; the spec's scenario holds end to end through \<open>dispatch\<close>: register, obtain a
    token pair with the same credentials, post a comment with the access token, and the
    comment is stored under the new user and the registered name whatever the body says
    (\<open>Urls.register_token_comment\<close>); a bearer header with a refresh token or an expired
    access token is a 401 on every view but the token views
    (\<open>Urls.dispatch_rejects_bad_bearer\<close>).
  \<^item> Supporting lemmas beyond the claims: every handler and every request through
    \<open>dispatch\<close> keeps \<open>wf_db\<close> and answers one of the API's status codes
    (\<open>Urls.dispatch_keeps_integrity\<close>, \<open>Urls.dispatch_status\<close>); a token the backend
    signs validates to its claims while it has the expected type and has not expired
    (\<open>Jwt.validate_issued\<close>); the admin's change list is exact and newest first under
    every filter and search, its date filter lists the articles of today's date, month or
    year on the calendar of \<open>Calendar\<close>, and the slug it prepopulates passes the API's
    slug checks (\<open>Admin\<close>).

  \<^bold>\<open>Modelling choices.\<close> Tables are lists of rows in insertion order; orderings are
  stable sorts, the database's order of ties being unspecified. UUIDs and times are
  natural numbers supplied by the request. Strings are byte lists (ASCII case folding;
  bytes from 128 up count as letters for the username check). The email validator, the
  password hasher, Django's password check and the token signer (HMAC-SHA256 with the
  secret key, in base64url) are parameters; the token lifetimes are simplejwt's defaults
  (300 s and one day), times counted in seconds. No loop of the program is unbounded: every
  definition is total and executable, and the concurrent system terminates by the rank
  of its requests, so the explorer's fuel is the sum of the ranks (5 per request).

  \<^bold>\<open>Not modelled.\<close> The \<open>jti\<close> and \<open>iat\<close> claims of the tokens (they serve only
  the blacklist, which is not installed) and the \<open>is_active\<close> flag of users (every user
  registration creates is active); the length limit of \<open>Comment.name\<close> on the
  authenticated branch of \<open>comments\<close> (the view saves the username unvalidated and the
  model, as Django's \<open>save\<close>, does not check it); the JSON inside a token's payload (written here as
  \<open>type-exp-user\<close> in the same alphabet); the format-suffix
  URL variants and \<open>APPEND_SLASH\<close> redirects (project settings); concurrency of handlers
  other than the like action (each other handler writes one row or one cascade, which
  the database applies atomically); the admin's HTML rendering, quoted phrases in its
  search text, and time zones other than UTC for its date filter; file storage of uploaded images (only the stored name is modelled).
\<close>

section \<open>Sample data\<close>

definition alice :: User where
  "alice = \<lparr>user_pk = 1, username = ''alice'', user_email = ''alice@example.com'',
            user_password = ''pbkdf2$a''\<rparr>"

definition bob :: User where
  "bob = \<lparr>user_pk = 2, username = ''bob'', user_email = ''bob@example.com'',
          user_password = ''pbkdf2$b''\<rparr>"

definition sports :: Category where
  "sports = \<lparr>cat_pk = 1, cat_name = ''sports'', cat_slug = ''sports''\<rparr>"

definition final_report :: News where
  "final_report = \<lparr>news_pk = 100, news_category = Some 1, news_author = 1,
     news_title = ''Cup final'', news_slug = ''cup-final'', news_image = ''news_images/final.jpg'',
     news_body = ''Report'', news_date_posted = 5, news_updated_at = 5, news_is_breaking = False\<rparr>"

definition sample_db :: db where
  "sample_db = \<lparr>db_users = [alice, bob], db_categories = [sports], db_news = [final_report],
     db_comments = [], db_likes = [], seq_user = 3, seq_category = 2, seq_comment = 1, seq_like = 1\<rparr>"

definition bob_like :: Like where
  "bob_like = \<lparr>like_pk = 1, like_user = 2, like_news = 100, like_is_liked = True, like_timestamp = 9\<rparr>"

definition liked_db :: db where
  "liked_db = sample_db\<lparr>db_likes := [bob_like], seq_like := 2\<rparr>"

definition as_user :: "user_id option \<Rightarrow> http_method \<Rightarrow> data \<Rightarrow> (string \<rightharpoonup> string) \<Rightarrow> request" where
  "as_user tok m dt q = \<lparr>req_method = m, req_token = tok, req_data = dt, req_query = q,
     req_now = 9, req_uuid = 200\<rparr>"

text \<open>A comment body whose name and email try to impersonate someone else.\<close>

definition spoofed_comment :: data where
  "spoofed_comment = [''news'' \<mapsto> VInt 100, ''name'' \<mapsto> VStr ''mallory'',
     ''email'' \<mapsto> VStr ''mallory@example.com'', ''comment'' \<mapsto> VStr ''First!'']"

definition simple_email :: "string \<Rightarrow> bool" where
  "simple_email s \<longleftrightarrow> CHR ''@'' \<in> set s"

definition derby_article :: data where
  "derby_article = [''title'' \<mapsto> VStr ''Derby'', ''slug'' \<mapsto> VStr ''derby'',
     ''category_id'' \<mapsto> VInt 1, ''image'' \<mapsto> VFile ''derby.jpg'', ''body'' \<mapsto> VStr ''Text'',
     ''author'' \<mapsto> VInt 1]"

text \<open>Alice's comment on her own article, in the database where Bob likes it.\<close>

definition alice_comment :: Comment where
  "alice_comment = \<lparr>comment_pk = 1, comment_news = 100, comment_user = 1, comment_name = ''alice'',
     comment_email = ''alice@example.com'', comment_text = ''Great match'', comment_timestamp = 7\<rparr>"

definition commented_db :: db where
  "commented_db = liked_db\<lparr>db_comments := [alice_comment], seq_comment := 2\<rparr>"

text \<open>A body for the likes endpoint that names Alice and her article.\<close>

definition like_body :: data where
  "like_body = [''user'' \<mapsto> VInt 1, ''news'' \<mapsto> VInt 100]"

definition politics :: data where
  "politics = [''name'' \<mapsto> VStr ''Politics'', ''slug'' \<mapsto> VStr ''politics'']"

definition carol_signup :: data where
  "carol_signup = [''username'' \<mapsto> VStr ''carol'', ''email'' \<mapsto> VStr ''carol@example.com'',
     ''password'' \<mapsto> VStr '' s3cret '']"

text \<open>A stand-in for the password hasher.\<close>

definition toy_hash :: "string \<Rightarrow> string" where
  "toy_hash s = ''pbkdf2_sha256$'' @ rev s"

text \<open>
  Stand-ins for the signer and the password check: the signature is written in the
  base64url alphabet, and a password checks against the hash \<open>toy_hash\<close> makes of it.
\<close>

definition toy_sign :: "string \<Rightarrow> string" where
  "toy_sign s = take 43 (filter b64url_char (rev s))"

definition toy_check :: "string \<Rightarrow> string \<Rightarrow> bool" where
  "toy_check raw h \<longleftrightarrow> toy_hash raw = h"

text \<open>Carol after her sign-up, and her log-in body.\<close>

definition carol :: User where
  "carol = \<lparr>user_pk = 3, username = ''carol'', user_email = ''carol@example.com'',
            user_password = toy_hash ''s3cret''\<rparr>"

definition carol_db :: db where
  "carol_db = sample_db\<lparr>db_users := db_users sample_db @ [carol], seq_user := 4\<rparr>"

definition carol_login :: data where
  "carol_login = [''username'' \<mapsto> VStr ''carol'', ''password'' \<mapsto> VStr '' s3cret '']"

definition refresh_body :: data where
  "refresh_body = [''refresh'' \<mapsto> VStr (jwt_encode toy_sign (refresh_for 3 0))]"

lemmas sample_defs = alice_def bob_def sports_def final_report_def sample_db_def as_user_def
  bob_like_def liked_db_def

section \<open>Properties across components\<close>

lemma handlers_keep_integrity:
  assumes "wf_db d"
  shows "wf_db (snd (like slug d r)) \<and> wf_db (snd (comments email_ok slug d r)) \<and>
         wf_db (snd (comment_create email_ok d r)) \<and> wf_db (snd (news_create d r)) \<and>
         wf_db (snd (news_update partial slug d r)) \<and> wf_db (snd (news_destroy slug d r)) \<and>
         snd (news_list d r) = d \<and> snd (news_retrieve slug d r) = d"
proof -
  note run = surjective_pairing
  show ?thesis
    using like_wf [OF assms run] comments_wf [OF assms run] comment_create_wf [OF assms run]
      news_create_wf [OF assms run] news_update_wf [OF assms run] news_destroy_wf [OF assms run]
      news_read_only
    by blast
qed

lemma concurrent_like_from_unliked:
  assumes "race_steps (sample_db, [like_req_start 2 100 9, like_req_start 2 100 10]) s'"
    and "all_done s'"
  shows "(2, 100) \<notin> liked_pairs (fst s') \<and>
         map (\<lambda>q. reply_liked (lr_pc q)) (snd s') \<in> {[Some True, Some False], [Some False, Some True]}"
proof -
  have "total_rank (sample_db, [like_req_start 2 100 9, like_req_start 2 100 10]) \<le> 10"
    by (simp add: total_rank_def like_req_start_def)
  from race_finals_complete [OF assms this]
  have mem: "s' \<in> set (race_finals 10 (sample_db, [like_req_start 2 100 9, like_req_start 2 100 10]))" .
  have "list_all (\<lambda>s. (2, 100) \<notin> set (map like_key (db_likes (fst s))) \<and>
                    map (\<lambda>q. reply_liked (lr_pc q)) (snd s) \<in> {[Some True, Some False], [Some False, Some True]})
          (race_finals 10 (sample_db, [like_req_start 2 100 9, like_req_start 2 100 10]))"
    by code_simp
  with mem show ?thesis by (simp add: list_all_iff liked_pairs_def)
qed

section \<open>Witnesses\<close>

text \<open>
  Each theorem with hypotheses applied at the sample data, where its hypotheses hold:
  Bob likes, comments on and writes articles in a database holding Alice's article
  \<open>cup-final\<close> in the category \<open>sports\<close>.
\<close>

lemma sample_wf: "wf_db sample_db"
  by (simp add: sample_defs wf_defs like_key_def)

lemma sample_get_object:
  "news_get_object sample_db (as_user (Some 2) POST Map.empty Map.empty) ''cup-final'' = Some final_report"
  by (simp add: sample_defs news_get_object_def news_get_queryset_def news_ordered_def)

theorem like_toggles_witness:
  "wf_db sample_db \<and> bob \<in> set (db_users sample_db) \<and>
   req_token (as_user (Some 2) POST Map.empty Map.empty) = Some (user_pk bob) \<and>
   news_get_object sample_db (as_user (Some 2) POST Map.empty Map.empty) ''cup-final'' = Some final_report \<and>
   liked_pairs (snd (like ''cup-final'' sample_db (as_user (Some 2) POST Map.empty Map.empty))) = {(2, 100)}"
proof -
  have h1: "wf_db sample_db" by (rule sample_wf)
  have h2: "bob \<in> set (db_users sample_db)" by (simp add: sample_db_def)
  have h3: "req_token (as_user (Some 2) POST Map.empty Map.empty) = Some (user_pk bob)"
    by (simp add: as_user_def bob_def)
  note h4 = sample_get_object
  from like_toggles [OF h1 h2 h3 h4 surjective_pairing]
  have "liked_pairs (snd (like ''cup-final'' sample_db (as_user (Some 2) POST Map.empty Map.empty))) =
          toggle_pair (liked_pairs sample_db) (user_pk bob, news_pk final_report)" by blast
  also have "\<dots> = {(2, 100)}"
    by (simp add: toggle_pair_def liked_pairs_def sample_defs)
  finally show ?thesis using h1 h2 h3 h4 by blast
qed

theorem like_parity_witness:
  "wf_db sample_db \<and> bob \<in> set (db_users sample_db) \<and>
   req_token (as_user (Some 2) POST Map.empty Map.empty) = Some (user_pk bob) \<and>
   news_get_object sample_db (as_user (Some 2) POST Map.empty Map.empty) ''cup-final'' = Some final_report \<and>
   (user_pk bob, news_pk final_report) \<notin> liked_pairs sample_db \<and>
   count_rows (\<lambda>l. like_key l = (user_pk bob, news_pk final_report))
     (db_likes (((\<lambda>d. snd (like ''cup-final'' d (as_user (Some 2) POST Map.empty Map.empty))) ^^ 3) sample_db)) = 1"
proof -
  have h1: "wf_db sample_db" by (rule sample_wf)
  have h2: "bob \<in> set (db_users sample_db)" by (simp add: sample_db_def)
  have h3: "req_token (as_user (Some 2) POST Map.empty Map.empty) = Some (user_pk bob)"
    by (simp add: as_user_def bob_def)
  note h4 = sample_get_object
  have h5: "(user_pk bob, news_pk final_report) \<notin> liked_pairs sample_db"
    by (simp add: liked_pairs_def sample_db_def)
  from like_parity [OF h1 h2 h3 h4 h5, of 3] h1 h2 h3 h4 h5 show ?thesis by simp
qed

theorem like_set_count_users_witness:
  "keys_unique liked_db \<and> like_set_count liked_db 100 = card {v. (v, 100) \<in> liked_pairs liked_db}"
proof -
  have h: "keys_unique liked_db" by (simp add: sample_defs keys_unique_def like_key_def)
  from like_set_count_users [OF h, of 100] h show ?thesis by simp
qed

lemma spoofed_comment_valid:
  "comment_validate simple_email sample_db False spoofed_comment =
     Inr \<lparr>ci_news = Some 100, ci_name = Some ''mallory'', ci_email = Some ''mallory@example.com'',
          ci_comment = Some ''First!''\<rparr>"
  by (simp add: comment_validate_def spoofed_comment_def sample_defs pk_field_def char_field_def
      blank_input_def strip_def is_space_def checked_def char_validators_def no_check_def
      email_check_def simple_email_def Let_def)

theorem comments_post_authenticated_witness:
  "wf_db sample_db \<and> bob \<in> set (db_users sample_db) \<and>
   req_token (as_user (Some 2) POST spoofed_comment Map.empty) = Some (user_pk bob) \<and>
   req_method (as_user (Some 2) POST spoofed_comment Map.empty) = POST \<and>
   final_report \<in> set (db_news sample_db) \<and> news_slug final_report = ''cup-final'' \<and>
   (\<exists>c. db_comments (snd (comments simple_email ''cup-final'' sample_db
                          (as_user (Some 2) POST spoofed_comment Map.empty))) = [c] \<and>
        comment_name c = ''bob'' \<and> comment_email c = ''bob@example.com'' \<and> comment_user c = 2)"
proof -
  have h1: "wf_db sample_db" by (rule sample_wf)
  have h2: "bob \<in> set (db_users sample_db)" by (simp add: sample_db_def)
  have h3: "req_token (as_user (Some 2) POST spoofed_comment Map.empty) = Some (user_pk bob)"
    by (simp add: as_user_def bob_def)
  have h4: "req_method (as_user (Some 2) POST spoofed_comment Map.empty) = POST"
    by (simp add: as_user_def)
  have h5: "final_report \<in> set (db_news sample_db)" "news_slug final_report = ''cup-final''"
    by (simp_all add: sample_db_def final_report_def)
  have h6: "comment_validate simple_email sample_db False
              (req_data (as_user (Some 2) POST spoofed_comment Map.empty)) =
            Inr \<lparr>ci_news = Some 100, ci_name = Some ''mallory'', ci_email = Some ''mallory@example.com'',
                 ci_comment = Some ''First!''\<rparr>"
    by (simp add: as_user_def spoofed_comment_valid)
  from comments_post_authenticated [OF h1 h2 h3 h4 h5 h6 surjective_pairing]
  obtain c where "db_comments (snd (comments simple_email ''cup-final'' sample_db
                          (as_user (Some 2) POST spoofed_comment Map.empty))) = db_comments sample_db @ [c]"
     "comment_name c = username bob" "comment_email c = user_email bob" "comment_user c = user_pk bob"
    by blast
  then show ?thesis using h1 h2 h3 h4 h5 by (simp add: sample_db_def bob_def)
qed

theorem comments_post_anonymous_witness:
  "req_token (as_user None POST spoofed_comment Map.empty) = None \<and>
   req_method (as_user None POST spoofed_comment Map.empty) = POST \<and>
   get_row news_slug ''cup-final'' (db_news sample_db) = Some final_report \<and>
   comment_validate simple_email sample_db False (req_data (as_user None POST spoofed_comment Map.empty)) =
     Inr \<lparr>ci_news = Some 100, ci_name = Some ''mallory'', ci_email = Some ''mallory@example.com'',
          ci_comment = Some ''First!''\<rparr> \<and>
   comments simple_email ''cup-final'' sample_db (as_user None POST spoofed_comment Map.empty) =
     (Response 500 JNull, sample_db)"
proof -
  have h1: "req_token (as_user None POST spoofed_comment Map.empty) = None" by (simp add: as_user_def)
  have h2: "req_method (as_user None POST spoofed_comment Map.empty) = POST" by (simp add: as_user_def)
  have h3: "get_row news_slug ''cup-final'' (db_news sample_db) = Some final_report"
    by (simp add: sample_db_def final_report_def get_row_def)
  have h4: "comment_validate simple_email sample_db False (req_data (as_user None POST spoofed_comment Map.empty)) =
     Inr \<lparr>ci_news = Some 100, ci_name = Some ''mallory'', ci_email = Some ''mallory@example.com'',
          ci_comment = Some ''First!''\<rparr>"
    by (simp add: as_user_def spoofed_comment_valid)
  from comments_post_anonymous [OF h1 h2 h3 h4] h1 h2 h3 h4 show ?thesis by simp
qed

theorem comments_get_anonymous_witness:
  "req_method (as_user None GET Map.empty Map.empty) = GET \<and>
   req_token (as_user None GET Map.empty Map.empty) = None \<and>
   get_row news_slug ''cup-final'' (db_news sample_db) = Some final_report \<and>
   (\<exists>cs. comments simple_email ''cup-final'' sample_db (as_user None GET Map.empty Map.empty) =
           (Response 200 (JList (map (comment_repr sample_db) cs)), sample_db) \<and> cs = [])"
proof -
  have h1: "req_method (as_user None GET Map.empty Map.empty) = GET" by (simp add: as_user_def)
  have h2: "req_token (as_user None GET Map.empty Map.empty) = None" by (simp add: as_user_def)
  have h3: "get_row news_slug ''cup-final'' (db_news sample_db) = Some final_report"
    by (simp add: sample_db_def final_report_def get_row_def)
  from comments_get_anonymous [OF h1 h2 h3, of simple_email] obtain cs where
    "comments simple_email ''cup-final'' sample_db (as_user None GET Map.empty Map.empty) =
       (Response 200 (JList (map (comment_repr sample_db) cs)), sample_db)"
    "mset cs = mset (filter (\<lambda>c. comment_news c = news_pk final_report) (db_comments sample_db))"
    by blast
  moreover from this(2) have "cs = []" by (simp add: sample_db_def)
  ultimately show ?thesis using h1 h2 h3 by blast
qed

theorem news_list_category_filter_witness:
  "req_token (as_user None GET Map.empty [''category'' \<mapsto> ''sports'']) = None \<and>
   req_method (as_user None GET Map.empty [''category'' \<mapsto> ''sports'']) = GET \<and>
   req_query (as_user None GET Map.empty [''category'' \<mapsto> ''sports'']) ''category'' = Some ''sports'' \<and>
   ''sports'' \<noteq> [] \<and>
   (\<exists>xs. news_list sample_db (as_user None GET Map.empty [''category'' \<mapsto> ''sports'']) =
          (Response 200 (JList (map (news_repr sample_db) xs)), sample_db) \<and> xs = [final_report])"
proof -
  have h: "req_token (as_user None GET Map.empty [''category'' \<mapsto> ''sports'']) = None"
    "req_method (as_user None GET Map.empty [''category'' \<mapsto> ''sports'']) = GET"
    "req_query (as_user None GET Map.empty [''category'' \<mapsto> ''sports'']) ''category'' = Some ''sports''"
    "''sports'' \<noteq> []"
    by (simp_all add: as_user_def)
  from news_list_category_filter [OF h, of sample_db] obtain xs where
    xs: "news_list sample_db (as_user None GET Map.empty [''category'' \<mapsto> ''sports'']) =
          (Response 200 (JList (map (news_repr sample_db) xs)), sample_db)"
      "mset xs = mset (filter (\<lambda>n. news_category_slug sample_db n = Some ''sports'') (db_news sample_db))"
    by blast
  have "filter (\<lambda>n. news_category_slug sample_db n = Some ''sports'') (db_news sample_db) = [final_report]"
    by (simp add: sample_db_def final_report_def sports_def news_category_slug_def get_row_def)
  with xs(2) have "xs = [final_report]" by simp
  with xs(1) h show ?thesis by blast
qed

theorem news_list_empty_category_witness:
  "req_token (as_user None GET Map.empty [''category'' \<mapsto> []]) = None \<and>
   req_method (as_user None GET Map.empty [''category'' \<mapsto> []]) = GET \<and>
   req_query (as_user None GET Map.empty [''category'' \<mapsto> []]) ''category'' = Some [] \<and>
   news_list sample_db (as_user None GET Map.empty [''category'' \<mapsto> []]) =
     (Response 200 (JList (map (news_repr sample_db) (news_ordered sample_db))), sample_db)"
proof -
  have h: "req_token (as_user None GET Map.empty [''category'' \<mapsto> []]) = None"
    "req_method (as_user None GET Map.empty [''category'' \<mapsto> []]) = GET"
    "req_query (as_user None GET Map.empty [''category'' \<mapsto> []]) ''category'' = Some []"
    by (simp_all add: as_user_def)
  from news_list_empty_category [OF h] h show ?thesis by simp
qed

lemma derby_valid:
  "news_validate sample_db None False derby_article =
     Inr \<lparr>ni_title = Some ''Derby'', ni_slug = Some ''derby'', ni_category = Some 1,
          ni_image = Some ''derby.jpg'', ni_body = Some ''Text'', ni_is_breaking = None\<rparr>"
  by (simp add: news_validate_def derby_article_def sample_defs pk_field_def char_field_def
      blank_input_def strip_def is_space_def checked_def char_validators_def no_check_def
      unique_check_def slug_check_def is_slug_def is_digit_def image_field_def bool_field_def Let_def)

theorem news_create_forces_author_witness:
  "wf_db sample_db \<and> bob \<in> set (db_users sample_db) \<and>
   req_token (as_user (Some 2) POST derby_article Map.empty) = Some (user_pk bob) \<and>
   req_uuid (as_user (Some 2) POST derby_article Map.empty) \<notin> news_ids sample_db \<and>
   derby_article ''author'' = Some (VInt 1) \<and>
   (\<exists>n. snd (news_create sample_db (as_user (Some 2) POST derby_article Map.empty)) =
          sample_db\<lparr>db_news := db_news sample_db @ [n]\<rparr> \<and> news_author n = 2)"
proof -
  have h1: "wf_db sample_db" by (rule sample_wf)
  have h2: "bob \<in> set (db_users sample_db)" by (simp add: sample_db_def)
  have h3: "req_token (as_user (Some 2) POST derby_article Map.empty) = Some (user_pk bob)"
    by (simp add: as_user_def bob_def)
  have h4: "news_validate sample_db None False (req_data (as_user (Some 2) POST derby_article Map.empty)) =
     Inr \<lparr>ni_title = Some ''Derby'', ni_slug = Some ''derby'', ni_category = Some 1,
          ni_image = Some ''derby.jpg'', ni_body = Some ''Text'', ni_is_breaking = None\<rparr>"
    by (simp add: as_user_def derby_valid)
  have h5: "req_uuid (as_user (Some 2) POST derby_article Map.empty) \<notin> news_ids sample_db"
    by (simp add: as_user_def sample_db_def final_report_def)
  from news_create_forces_author [OF h1 h2 h3 h4 h5] obtain n where
    "news_create sample_db (as_user (Some 2) POST derby_article Map.empty) =
       (Response 201 (news_repr (sample_db\<lparr>db_news := db_news sample_db @ [n]\<rparr>) n),
        sample_db\<lparr>db_news := db_news sample_db @ [n]\<rparr>)" "news_author n = user_pk bob"
    by blast
  then have "\<exists>n. snd (news_create sample_db (as_user (Some 2) POST derby_article Map.empty)) =
          sample_db\<lparr>db_news := db_news sample_db @ [n]\<rparr> \<and> news_author n = 2"
    by (auto simp: bob_def)
  moreover have "derby_article ''author'' = Some (VInt 1)" by (simp add: derby_article_def)
  ultimately show ?thesis using h1 h2 h3 h5 by blast
qed

theorem delete_category_set_null_witness:
  "wf_db sample_db \<and>
   map news_pk (db_news (delete_category sample_db 1)) = [100] \<and>
   map news_category (db_news (delete_category sample_db 1)) = [None]"
proof -
  have h: "wf_db sample_db" by (rule sample_wf)
  from delete_category_set_null [OF h, of 1] h show ?thesis
    by (simp add: sample_db_def final_report_def)
qed

theorem delete_news_cascade_witness:
  "wf_db liked_db \<and> wf_db (delete_news liked_db 100) \<and> set (db_likes (delete_news liked_db 100)) = {}"
proof -
  have h: "wf_db liked_db" by (simp add: sample_defs wf_defs like_key_def)
  from delete_news_cascade [OF h, of 100]
  have "wf_db (delete_news liked_db 100)"
    and "set (db_likes (delete_news liked_db 100)) = {l \<in> set (db_likes liked_db). like_news l \<noteq> 100}"
    by blast+
  moreover have "{l \<in> set (db_likes liked_db). like_news l \<noteq> 100} = {}"
    by (simp add: liked_db_def sample_db_def bob_like_def)
  ultimately show ?thesis using h by simp
qed

theorem likes_count_divergence_witness:
  "get_likes_count (liked_db\<lparr>db_likes := [bob_like\<lparr>like_is_liked := False\<rparr>]\<rparr>) final_report \<noteq>
   like_set_count (liked_db\<lparr>db_likes := [bob_like\<lparr>like_is_liked := False\<rparr>]\<rparr>) (news_pk final_report)"
proof -
  have "\<not> (\<forall>l \<in> set (db_likes (liked_db\<lparr>db_likes := [bob_like\<lparr>like_is_liked := False\<rparr>]\<rparr>)).
            like_news l = news_pk final_report \<longrightarrow> like_is_liked l)"
    by (simp add: bob_like_def final_report_def)
  with likes_count_divergence show ?thesis by blast
qed

theorem comments_post_requires_news_witness:
  "req_method (as_user (Some 2) POST (spoofed_comment(''news'' := None)) Map.empty) = POST \<and>
   authenticate sample_db (as_user (Some 2) POST (spoofed_comment(''news'' := None)) Map.empty) = Inr (Authenticated bob) \<and>
   get_row news_slug ''cup-final'' (db_news sample_db) = Some final_report \<and>
   req_data (as_user (Some 2) POST (spoofed_comment(''news'' := None)) Map.empty) ''news'' = None \<and>
   resp_status (fst (comments simple_email ''cup-final'' sample_db
                   (as_user (Some 2) POST (spoofed_comment(''news'' := None)) Map.empty))) = 400"
proof -
  have h: "req_method (as_user (Some 2) POST (spoofed_comment(''news'' := None)) Map.empty) = POST"
    "authenticate sample_db (as_user (Some 2) POST (spoofed_comment(''news'' := None)) Map.empty) = Inr (Authenticated bob)"
    "get_row news_slug ''cup-final'' (db_news sample_db) = Some final_report"
    "req_data (as_user (Some 2) POST (spoofed_comment(''news'' := None)) Map.empty) ''news'' = None"
    by (simp_all add: as_user_def authenticate_def get_row_def sample_db_def alice_def bob_def final_report_def)
  from comments_post_requires_news [OF h, of simple_email] h show ?thesis by auto
qed

lemma like_body_valid:
  "like_validate liked_db None False like_body = Inr \<lparr>li_user = Some 1, li_news = Some 100, li_is_liked = None\<rparr>"
  by (simp add: like_validate_def like_body_def sample_defs pk_field_def bool_field_def like_key_def Let_def)

lemma like_body_valid_update:
  "like_validate liked_db (Some bob_like) False like_body =
     Inr \<lparr>li_user = Some 1, li_news = Some 100, li_is_liked = None\<rparr>"
  by (simp add: like_validate_def like_body_def sample_defs pk_field_def bool_field_def like_key_def Let_def)

lemma politics_valid:
  "category_validate sample_db None False politics = Inr \<lparr>ki_name = Some ''Politics'', ki_slug = Some ''politics''\<rparr>"
  by (simp add: category_validate_def politics_def sample_defs char_field_def
      blank_input_def strip_def is_space_def checked_def char_validators_def no_check_def
      unique_check_def slug_check_def is_slug_def is_digit_def Let_def)

lemma carol_valid:
  "register_validate simple_email sample_db carol_signup =
     Inr \<lparr>reg_username = Some ''carol'', reg_email = Some ''carol@example.com'', reg_password = Some ''s3cret''\<rparr>"
  by (simp add: register_validate_def carol_signup_def sample_defs char_field_def
      blank_input_def strip_def is_space_def checked_def char_validators_def no_check_def
      unique_check_def username_check_def is_username_char_def is_digit_def email_check_def
      simple_email_def Let_def)

lemma commented_wf: "wf_db commented_db"
  by (simp add: commented_db_def alice_comment_def sample_defs wf_defs like_key_def)

lemma liked_wf: "wf_db liked_db"
  by (simp add: sample_defs wf_defs like_key_def)

theorem like_create_duplicate_error_witness:
  "wf_db liked_db \<and> bob \<in> set (db_users liked_db) \<and>
   req_token (as_user (Some 2) POST like_body Map.empty) = Some (user_pk bob) \<and>
   like_validate liked_db None False (req_data (as_user (Some 2) POST like_body Map.empty)) =
     Inr \<lparr>li_user = Some 1, li_news = Some 100, li_is_liked = None\<rparr> \<and>
   (user_pk bob, 100) \<in> liked_pairs liked_db \<and>
   like_create liked_db (as_user (Some 2) POST like_body Map.empty) = (Response 500 JNull, liked_db)"
proof -
  have h1: "wf_db liked_db" by (rule liked_wf)
  have h2: "bob \<in> set (db_users liked_db)" by (simp add: sample_defs)
  have h3: "req_token (as_user (Some 2) POST like_body Map.empty) = Some (user_pk bob)"
    by (simp add: as_user_def bob_def)
  have h4: "like_validate liked_db None False (req_data (as_user (Some 2) POST like_body Map.empty)) =
     Inr \<lparr>li_user = Some 1, li_news = Some 100, li_is_liked = None\<rparr>"
    by (simp add: as_user_def like_body_valid)
  have h5: "li_news \<lparr>li_user = Some 1, li_news = Some 100, li_is_liked = None\<rparr> = Some 100" by simp
  have h6: "(user_pk bob, 100) \<in> liked_pairs liked_db"
    by (simp add: liked_pairs_def sample_defs like_key_def)
  from like_create_duplicate_error [OF h1 h2 h3 h4 h5 h6] h1 h2 h3 h4 h6 show ?thesis by simp
qed

theorem like_update_reassigns_witness:
  "wf_db liked_db \<and> alice \<in> set (db_users liked_db) \<and>
   req_token (as_user (Some 1) PUT like_body Map.empty) = Some (user_pk alice) \<and>
   bob_like \<in> set (db_likes liked_db) \<and> like_user bob_like = 2 \<and>
   (\<exists>l' d'. like_update False ''1'' liked_db (as_user (Some 1) PUT like_body Map.empty) =
              (Response 200 (like_repr l'), d') \<and> like_pk l' = 1 \<and> like_user l' = 1 \<and> l' \<in> set (db_likes d'))"
proof -
  have h1: "wf_db liked_db" by (rule liked_wf)
  have h2: "alice \<in> set (db_users liked_db)" by (simp add: sample_defs)
  have h3: "req_token (as_user (Some 1) PUT like_body Map.empty) = Some (user_pk alice)"
    by (simp add: as_user_def alice_def)
  have h4: "bob_like \<in> set (db_likes liked_db)" by (simp add: sample_defs)
  have h5: "like_validate liked_db (Some bob_like) False (req_data (as_user (Some 1) PUT like_body Map.empty)) =
     Inr \<lparr>li_user = Some 1, li_news = Some 100, li_is_liked = None\<rparr>"
    by (simp add: as_user_def like_body_valid_update)
  have h6: "li_user \<lparr>li_user = Some 1, li_news = Some 100, li_is_liked = None\<rparr> = Some 1" by simp
  have k: "digits_of (like_pk bob_like) = ''1''" by (simp add: bob_like_def digits_of.simps char_of_def bit_simps)
  from like_update_reassigns [OF h1 h2 h3 h4 h5 h6] h1 h2 h3 h4 k show ?thesis
    by (simp add: bob_like_def)
qed

theorem comment_destroy_any_author_witness:
  "wf_db commented_db \<and> bob \<in> set (db_users commented_db) \<and>
   req_token (as_user (Some 2) DELETE Map.empty Map.empty) = Some (user_pk bob) \<and>
   alice_comment \<in> set (db_comments commented_db) \<and> comment_user alice_comment \<noteq> user_pk bob \<and>
   comment_destroy ''1'' commented_db (as_user (Some 2) DELETE Map.empty Map.empty) =
     (Response 204 JNull, commented_db\<lparr>db_comments := []\<rparr>)"
proof -
  have h1: "wf_db commented_db" by (rule commented_wf)
  have h2: "bob \<in> set (db_users commented_db)" by (simp add: commented_db_def sample_defs)
  have h3: "req_token (as_user (Some 2) DELETE Map.empty Map.empty) = Some (user_pk bob)"
    by (simp add: as_user_def bob_def)
  have h4: "alice_comment \<in> set (db_comments commented_db)" by (simp add: commented_db_def)
  have k: "digits_of (comment_pk alice_comment) = ''1''" by (simp add: alice_comment_def digits_of.simps char_of_def bit_simps)
  have "delete_comment commented_db (comment_pk alice_comment) = commented_db\<lparr>db_comments := []\<rparr>"
    by (simp add: delete_comment_def commented_db_def alice_comment_def)
  with comment_destroy_any_author [OF h1 h2 h3 h4] h1 h2 h3 h4 k show ?thesis
    by (simp add: alice_comment_def bob_def)
qed

theorem category_create_anonymous_witness:
  "req_token (as_user None POST politics Map.empty) = None \<and>
   category_validate sample_db None False (req_data (as_user None POST politics Map.empty)) =
     Inr \<lparr>ki_name = Some ''Politics'', ki_slug = Some ''politics''\<rparr> \<and>
   (\<exists>c d'. category_create sample_db (as_user None POST politics Map.empty) = (Response 201 (category_repr c), d') \<and>
           db_categories d' = [sports, c] \<and> cat_name c = ''Politics'')"
proof -
  have h1: "req_token (as_user None POST politics Map.empty) = None" by (simp add: as_user_def)
  have h2: "category_validate sample_db None False (req_data (as_user None POST politics Map.empty)) =
     Inr \<lparr>ki_name = Some ''Politics'', ki_slug = Some ''politics''\<rparr>"
    by (simp add: as_user_def politics_valid)
  from category_create_anonymous [OF h1 h2] obtain c d' where
    run: "category_create sample_db (as_user None POST politics Map.empty) = (Response 201 (category_repr c), d')"
    and cs: "db_categories d' = db_categories sample_db @ [c]" and nm: "Some ''Politics'' = Some (cat_name c)"
    by auto
  from cs have "db_categories d' = [sports, c]" by (simp add: sample_db_def)
  with run nm h1 h2 show ?thesis by auto
qed

theorem like_create_forces_user_witness:
  "wf_db sample_db \<and> bob \<in> set (db_users sample_db) \<and>
   req_token (as_user (Some 2) POST like_body Map.empty) = Some (user_pk bob) \<and>
   like_validate sample_db None False (req_data (as_user (Some 2) POST like_body Map.empty)) =
     Inr \<lparr>li_user = Some 1, li_news = Some 100, li_is_liked = None\<rparr> \<and>
   (user_pk bob, 100) \<notin> liked_pairs sample_db \<and>
   (\<exists>l d'. like_create sample_db (as_user (Some 2) POST like_body Map.empty) = (Response 201 (like_repr l), d') \<and>
           like_user l = 2 \<and> like_news l = 100)"
proof -
  have h1: "wf_db sample_db" by (rule sample_wf)
  have h2: "bob \<in> set (db_users sample_db)" by (simp add: sample_defs)
  have h3: "req_token (as_user (Some 2) POST like_body Map.empty) = Some (user_pk bob)"
    by (simp add: as_user_def bob_def)
  have h4: "like_validate sample_db None False (req_data (as_user (Some 2) POST like_body Map.empty)) =
     Inr \<lparr>li_user = Some 1, li_news = Some 100, li_is_liked = None\<rparr>"
    by (simp add: as_user_def like_validate_def like_body_def sample_defs pk_field_def bool_field_def Let_def)
  have h5: "li_news \<lparr>li_user = Some 1, li_news = Some 100, li_is_liked = None\<rparr> = Some 100" by simp
  have h6: "(user_pk bob, 100) \<notin> liked_pairs sample_db" by (simp add: liked_pairs_def sample_defs)
  from like_create_forces_user [OF h1 h2 h3 h4 h5 h6] h1 h2 h3 h4 h6 show ?thesis
    by (auto simp: bob_def)
qed

theorem register_hashes_password_witness:
  "authenticate sample_db (as_user None POST carol_signup Map.empty) = Inr Anonymous \<and>
   register_validate simple_email sample_db (req_data (as_user None POST carol_signup Map.empty)) =
     Inr \<lparr>reg_username = Some ''carol'', reg_email = Some ''carol@example.com'', reg_password = Some ''s3cret''\<rparr> \<and>
   req_data (as_user None POST carol_signup Map.empty) ''password'' = Some (VStr '' s3cret '') \<and>
   (\<exists>(u::User) d'. register toy_hash simple_email sample_db (as_user None POST carol_signup Map.empty) =
             (Response 201 (JObj [(''username'', JStr (username u)), (''email'', JStr (user_email u))]), d') \<and>
           user_password u = ''pbkdf2_sha256$terc3s'')"
proof -
  have h1: "authenticate sample_db (as_user None POST carol_signup Map.empty) = Inr Anonymous"
    by (simp add: as_user_def authenticate_def)
  have h2: "register_validate simple_email sample_db (req_data (as_user None POST carol_signup Map.empty)) =
     Inr \<lparr>reg_username = Some ''carol'', reg_email = Some ''carol@example.com'', reg_password = Some ''s3cret''\<rparr>"
    by (simp add: as_user_def carol_valid)
  have h3: "req_data (as_user None POST carol_signup Map.empty) ''password'' = Some (VStr '' s3cret '')"
    by (simp add: as_user_def carol_signup_def)
  have st: "toy_hash (strip '' s3cret '') = ''pbkdf2_sha256$terc3s''"
    by (simp add: toy_hash_def strip_def is_space_def)
  have "\<exists>(u::User) d'. register toy_hash simple_email sample_db (as_user None POST carol_signup Map.empty) =
            (Response 201 (JObj [(''username'', JStr (username u)), (''email'', JStr (user_email u))]), d') \<and>
            db_users d' = db_users sample_db @ [u] \<and> user_password u = ''pbkdf2_sha256$terc3s''"
    using register_hashes_password [OF h1 h2 h3, of toy_hash] unfolding st .
  with h1 h2 h3 show ?thesis by blast
qed

theorem register_duplicate_username_witness:
  "authenticate sample_db (as_user None POST (carol_signup(''username'' \<mapsto> VStr ''alice'')) Map.empty) = Inr Anonymous \<and>
   req_data (as_user None POST (carol_signup(''username'' \<mapsto> VStr ''alice'')) Map.empty) ''username'' = Some (VStr ''alice'') \<and>
   strip ''alice'' \<noteq> [] \<and> strip ''alice'' \<in> username ` set (db_users sample_db) \<and>
   snd (register toy_hash simple_email sample_db (as_user None POST (carol_signup(''username'' \<mapsto> VStr ''alice'')) Map.empty)) = sample_db \<and>
   resp_status (fst (register toy_hash simple_email sample_db (as_user None POST (carol_signup(''username'' \<mapsto> VStr ''alice'')) Map.empty))) = 400"
proof -
  have h1: "authenticate sample_db (as_user None POST (carol_signup(''username'' \<mapsto> VStr ''alice'')) Map.empty) = Inr Anonymous"
    by (simp add: as_user_def authenticate_def)
  have h2: "req_data (as_user None POST (carol_signup(''username'' \<mapsto> VStr ''alice'')) Map.empty) ''username'' = Some (VStr ''alice'')"
    by (simp add: as_user_def)
  have h3: "strip ''alice'' \<noteq> []" and h4: "strip ''alice'' \<in> username ` set (db_users sample_db)"
    by (simp_all add: strip_def is_space_def sample_defs)
  from register_duplicate_username [OF h1 h2 h3 h4, of toy_hash simple_email] h1 h2 h3 h4 show ?thesis by auto
qed

theorem comment_update_keeps_user_witness:
  "wf_db commented_db \<and>
   map comment_user (db_comments (snd (comment_update simple_email True ''1'' commented_db
      (as_user (Some 2) PATCH [''comment'' \<mapsto> VStr ''Edited''] Map.empty)))) = [1]"
proof -
  have h: "wf_db commented_db" by (rule commented_wf)
  from comment_update_keeps_user [OF h surjective_pairing] h show ?thesis
    by (simp add: commented_db_def alice_comment_def)
qed

lemma sample_first_step:
  "race_step (sample_db, [like_req_start 2 100 9])
             (sample_db, [(like_req_start 2 100 9)\<lparr>lr_pc := Insert\<rparr>])"
proof -
  have "race_step (sample_db, [like_req_start 2 100 9])
          (sample_db, [like_req_start 2 100 9][0 := ([like_req_start 2 100 9] ! 0)\<lparr>lr_pc := Insert\<rparr>])"
    by (rule race_step.run) (simp_all add: like_req_start_def like_step_def sample_db_def)
  then show ?thesis by simp
qed

theorem concurrent_unlike_lost_witness:
  "wf_db liked_db \<and> bob_like \<in> set (db_likes liked_db) \<and> like_key bob_like = (2, 100) \<and>
   race_steps (liked_db, [like_req_start 2 100 9, like_req_start 2 100 10])
     (delete_like liked_db (like_pk bob_like),
      [(like_req_start 2 100 9)\<lparr>lr_pc := Done (like_reply False (delete_like liked_db (like_pk bob_like)) 100)\<rparr>,
       (like_req_start 2 100 10)\<lparr>lr_pc := Done (like_reply False (delete_like liked_db (like_pk bob_like)) 100)\<rparr>]) \<and>
   (2, 100) \<notin> liked_pairs (delete_like liked_db (like_pk bob_like))"
proof -
  have h1: "wf_db liked_db" by (simp add: sample_defs wf_defs like_key_def)
  have h2: "bob_like \<in> set (db_likes liked_db)" by (simp add: sample_defs)
  have h3: "like_key bob_like = (2, 100)" by (simp add: bob_like_def like_key_def)
  from concurrent_unlike_lost [OF h1 h2 h3, of 9 10] h1 h2 h3 show ?thesis by blast
qed

lemma cup_final_slug: "is_slug ''cup-final''"
  by (simp add: is_slug_def is_digit_def)

lemma cup_final_like_route: "resolve ''news/cup-final/like/'' = Some (NewsLike ''cup-final'')"
  by (simp add: resolve_def urlpatterns_def router_patterns_def viewset_patterns_def lookup_ok_def
      is_slug_def is_digit_def)

theorem slug_urls_resolve_witness:
  "is_slug ''cup-final'' \<and> resolve (''news/'' @ ''cup-final'' @ ''/comments/'') = Some (NewsComments ''cup-final'')"
proof -
  note h = cup_final_slug
  from slug_urls_resolve [OF h] h show ?thesis by blast
qed

theorem like_count_bounded_witness:
  "wf_db liked_db \<and> like_set_count liked_db 100 \<le> length (db_users liked_db)"
proof -
  have h: "wf_db liked_db" by (rule liked_wf)
  from Models.like_count_bounded [OF h] h show ?thesis by blast
qed

lemma toy_sign_b64: "\<forall>s. \<forall>c \<in> set (toy_sign s). b64url_char c"
  by (auto simp: toy_sign_def dest: in_set_takeD)

lemma carol_registers:
  "dispatch toy_sign toy_check simple_email toy_hash ''auth/register/'' None sample_db
     (as_user None POST carol_signup Map.empty) = (Response 201 (register_repr carol), carol_db)"
proof -
  let ?r = "(as_user None POST carol_signup Map.empty)\<lparr>req_token := None\<rparr>"
  let ?vi = "\<lparr>reg_username = Some ''carol'', reg_email = Some ''carol@example.com'', reg_password = Some ''s3cret''\<rparr>"
  have a: "authenticate sample_db ?r = Inr Anonymous" by (simp add: authenticate_def as_user_def)
  have v: "register_validate simple_email sample_db (req_data ?r) = Inr ?vi" using carol_valid by (simp add: as_user_def)
  have f: "req_data ?r ''username'' = Some (VStr ''carol'')" "req_data ?r ''password'' = Some (VStr '' s3cret '')"
    by (simp_all add: as_user_def carol_signup_def)
  have "strip ''carol'' = ''carol''" "strip '' s3cret '' = ''s3cret''" by (simp_all add: strip_def is_space_def)
  with register_creates [OF a v f, of toy_hash]
  have "register toy_hash simple_email sample_db ?r = (Response 201 (register_repr carol), carol_db)"
    by (simp add: carol_def carol_db_def sample_db_def dflt_def Let_def)
  then show ?thesis by (simp add: dispatch_def auth_routes with_bearer_none as_user_def)
qed

theorem register_token_comment_witness:
  "\<exists>u acc. db_users carol_db = db_users sample_db @ [u] \<and> username u = strip ''carol'' \<and>
     snd (dispatch toy_sign toy_check simple_email toy_hash ''auth/token/'' None carol_db
            (as_user None POST carol_login Map.empty)) = carol_db \<and>
     fst (dispatch toy_sign toy_check simple_email toy_hash ''auth/token/'' None carol_db
            (as_user None POST carol_login Map.empty)) =
       Response 200 (JObj [(''refresh'', JStr (jwt_encode toy_sign (refresh_for (user_pk u) (req_now (as_user None POST carol_login Map.empty))))), (''access'', JStr acc)]) \<and>
     (\<exists>c. dispatch toy_sign toy_check simple_email toy_hash (''news/'' @ ''cup-final'' @ ''/comments/'')
            (Some (''Bearer '' @ acc))
            (snd (dispatch toy_sign toy_check simple_email toy_hash ''auth/token/'' None carol_db
                    (as_user None POST carol_login Map.empty)))
            (as_user None POST spoofed_comment Map.empty) =
          (Response 201 (comment_repr (carol_db\<lparr>db_comments := db_comments carol_db @ [c],
                                                 seq_comment := Suc (seq_comment carol_db)\<rparr>) c),
           carol_db\<lparr>db_comments := db_comments carol_db @ [c], seq_comment := Suc (seq_comment carol_db)\<rparr>) \<and>
          comment_user c = user_pk u \<and> comment_name c = strip ''carol'')"
proof -
  have hash: "\<forall>raw. toy_check raw (toy_hash raw)" by (simp add: toy_check_def)
  have r1: "req_method (as_user None POST carol_signup Map.empty) = POST"
    "req_data (as_user None POST carol_signup Map.empty) ''username'' = Some (VStr ''carol'')"
    "req_data (as_user None POST carol_signup Map.empty) ''password'' = Some (VStr '' s3cret '')"
    by (simp_all add: as_user_def carol_signup_def)
  have valid: "register_validate simple_email sample_db (req_data (as_user None POST carol_signup Map.empty)) =
     Inr \<lparr>reg_username = Some ''carol'', reg_email = Some ''carol@example.com'', reg_password = Some ''s3cret''\<rparr>"
    using carol_valid by (simp add: as_user_def)
  have r2: "req_method (as_user None POST carol_login Map.empty) = POST"
    "req_data (as_user None POST carol_login Map.empty) ''username'' = Some (VStr ''carol'')"
    "req_data (as_user None POST carol_login Map.empty) ''password'' = Some (VStr '' s3cret '')"
    by (simp_all add: as_user_def carol_login_def)
  have r3: "req_method (as_user None POST spoofed_comment Map.empty) = POST"
    "req_now (as_user None POST spoofed_comment Map.empty) <
     req_now (as_user None POST carol_login Map.empty) + access_lifetime"
    by (simp_all add: as_user_def access_lifetime_def)
  have n: "final_report \<in> set (db_news sample_db)" "news_slug final_report = ''cup-final''" "is_slug ''cup-final''"
    by (simp_all add: sample_defs cup_final_slug)
  have cv: "comment_validate simple_email carol_db False (req_data (as_user None POST spoofed_comment Map.empty)) =
     comment_validate simple_email sample_db False spoofed_comment"
    by (simp add: comment_validate_def carol_db_def as_user_def pk_field_def)
  from spoofed_comment_valid cv obtain ci where
    cv': "comment_validate simple_email carol_db False (req_data (as_user None POST spoofed_comment Map.empty)) = Inr ci"
    by auto
  show ?thesis
    by (rule register_token_comment [OF sample_wf hash toy_sign_b64 r1 valid carol_registers r2 surjective_pairing r3 n cv'])
qed

lemma news_list_route: "resolve ''news/'' = Some NewsList"
  by (simp add: resolve_def urlpatterns_def router_patterns_def viewset_patterns_def)

theorem dispatch_rejects_bad_bearer_witness:
  "dispatch toy_sign toy_check simple_email toy_hash ''news/'' (Some (''Bearer '' @ jwt_encode toy_sign (refresh_for 3 9)))
     carol_db (as_user None POST Map.empty Map.empty) = (token_not_valid, carol_db)"
proof -
  have h: "\<forall>c \<in> set (toy_sign (signing_input (refresh_for 3 9))). b64url_char c" using toy_sign_b64 by blast
  have t: "tok_type (refresh_for 3 9) = RefreshToken \<or> tok_exp (refresh_for 3 9) \<le> req_now (as_user None POST Map.empty Map.empty)"
    by (simp add: refresh_for_def)
  have n: "NewsList \<noteq> TokenObtain" "NewsList \<noteq> TokenRefresh" by simp_all
  show ?thesis by (rule dispatch_rejects_bad_bearer [of "''news/''" NewsList toy_sign "refresh_for 3 9", OF news_list_route n h t])
qed

end
